(* ===== verification/Prelude.thy ===== *)
theory Prelude
  imports Main "HOL-Library.Sublist"
begin

text \<open>
  The shared ground of the development. It holds Python's dynamically typed values as far as the
  configuration files use them, the exceptions the library raises, the state-and-exception monad
  in which every method of the library is written (an exception keeps the state reached so far,
  as in Python), Python's generators as folds over the values they yield, a weakest-precondition
  calculus, and the calculus of relations that every run of a program respects whatever its
  outcome (\<open>step_rel\<close>). It also states the contract shared by the three index allocators of the
  library (\<open>slot_allocator\<close>).
\<close>

section \<open>Collections\<close>

named_theorems wp "weakest-precondition equations of the monad and of the primitives"
named_theorems pres "programs whose runs respect a step relation"
named_theorems py "evaluation rules of the modelled part of Python's library"

section \<open>Values, errors and exceptions\<close>

type_synonym path = "string list"

datatype errno = ENOENT | EEXIST | EACCES | EPERM | ENOTDIR | ENOTEMPTY | EBUSY | EINVAL | ENODEV | EISDIR | EIO | ELOOP

text \<open>The values a configuration dictionary holds; a dictionary keeps its insertion order.\<close>

datatype pyval =
    PNone
  | PBool bool
  | PInt int
  | PStr string
  | PList "pyval list"
  | PDict "(string \<times> pyval) list"

type_synonym pydict = "(string \<times> pyval) list"

text \<open>
  The first four exceptions are the library's own (\<^verbatim>\<open>utils.py\<close>); the others are Python's,
  \<open>PlainErr\<close> being a bare \<^verbatim>\<open>Exception\<close>, and the last one is the one \<^verbatim>\<open>pyudev\<close> raises for a device it does not know.
\<close>

datatype exn =
    RTSLibError string
  | RTSLibALUANotSupportedError string
  | RTSLibBrokenLink string
  | RTSLibNotInCFSError string
  | OSErr errno path
  | ValueErr string
  | KeyErr string
  | IndexErr string
  | TypeErr string
  | AttributeErr string
  | UnboundLocalErr string
  | RuntimeErr string
  | ZeroDivisionErr string
  | OverflowErr string
  | PlainErr string
  | DeviceNotFoundErr string

text \<open>\<^verbatim>\<open>except RTSLibError\<close> also catches the three subclasses.\<close>

fun is_rtslib_error :: "exn \<Rightarrow> bool" where
  "is_rtslib_error (RTSLibError _) = True"
| "is_rtslib_error (RTSLibALUANotSupportedError _) = True"
| "is_rtslib_error (RTSLibBrokenLink _) = True"
| "is_rtslib_error (RTSLibNotInCFSError _) = True"
| "is_rtslib_error _ = False"

fun is_oserror :: "exn \<Rightarrow> bool" where
  "is_oserror (OSErr _ _) = True"
| "is_oserror _ = False"

fun is_keyerror :: "exn \<Rightarrow> bool" where
  "is_keyerror (KeyErr _) = True"
| "is_keyerror _ = False"

fun is_valueerror :: "exn \<Rightarrow> bool" where
  "is_valueerror (ValueErr _) = True"
| "is_valueerror _ = False"

fun is_broken_link :: "exn \<Rightarrow> bool" where
  "is_broken_link (RTSLibBrokenLink _) = True"
| "is_broken_link _ = False"

text \<open>Python's truth value of a value.\<close>

fun truthy :: "pyval \<Rightarrow> bool" where
  "truthy PNone = False"
| "truthy (PBool b) = b"
| "truthy (PInt n) = (n \<noteq> 0)"
| "truthy (PStr s) = (s \<noteq> [])"
| "truthy (PList xs) = (xs \<noteq> [])"
| "truthy (PDict d) = (d \<noteq> [])"

text \<open>\<^verbatim>\<open>xs[i]\<close> for an index that is not negative.\<close>

definition idx :: "'a list \<Rightarrow> nat \<Rightarrow> exn + 'a" where
  "idx xs i = (if i < length xs then Inr (xs ! i) else Inl (IndexErr ''list index out of range''))"

section \<open>Dictionaries\<close>

text \<open>
  \<open>d[k] = v\<close> keeps the position of an existing key and appends a new one; \<open>del d[k]\<close> drops it.
\<close>

fun dict_set :: "('k \<times> 'v) list \<Rightarrow> 'k \<Rightarrow> 'v \<Rightarrow> ('k \<times> 'v) list" where
  "dict_set [] k v = [(k, v)]"
| "dict_set ((k', v') # d) k v = (if k' = k then (k, v) # d else (k', v') # dict_set d k v)"

definition dict_del :: "('k \<times> 'v) list \<Rightarrow> 'k \<Rightarrow> ('k \<times> 'v) list" where
  "dict_del d k = filter (\<lambda>(k', _). k' \<noteq> k) d"

definition dict_get :: "('k \<times> 'v) list \<Rightarrow> 'k \<Rightarrow> 'v \<Rightarrow> 'v" where
  "dict_get d k v = (case map_of d k of None \<Rightarrow> v | Some u \<Rightarrow> u)"

lemma map_of_dict_set [simp]: "map_of (dict_set d k v) = (map_of d)(k \<mapsto> v)"
  by (induction d k v rule: dict_set.induct) (auto simp: fun_eq_iff)

lemma map_of_dict_del [simp]: "map_of (dict_del d k) = (map_of d)(k := None)"
  by (induction d) (auto simp: dict_del_def fun_eq_iff)

lemma keys_dict_del [simp]: "map fst (dict_del d k) = filter (\<lambda>k'. k' \<noteq> k) (map fst d)"
  by (induction d) (auto simp: dict_del_def)

lemma keys_dict_set: "fst ` set (dict_set d k v) = insert k (fst ` set d)"
  by (induction d k v rule: dict_set.induct) auto

lemma set_dict_set: "set (dict_set d k v) \<subseteq> insert (k, v) (set d)"
  by (induction d k v rule: dict_set.induct) auto

lemma distinct_dict_set [simp]: "distinct (map fst d) \<Longrightarrow> distinct (map fst (dict_set d k v))"
  by (induction d k v rule: dict_set.induct) (auto simp: keys_dict_set image_iff)

lemma map_of_snoc: "map_of d k = None \<Longrightarrow> map_of (d @ e) k = map_of e k"
  by (simp add: map_add_def)

lemma dict_set_fresh: "k \<notin> fst ` set d \<Longrightarrow> dict_set d k v = d @ [(k, v)]"
  by (induction d k v rule: dict_set.induct) auto

section \<open>The state-and-exception monad\<close>

datatype 'a res = Ok 'a | Err exn

type_synonym ('s, 'a) M = "'s \<Rightarrow> 'a res \<times> 's"

definition ret :: "'a \<Rightarrow> ('s, 'a) M" where
  "ret a = (\<lambda>s. (Ok a, s))"

definition raise :: "exn \<Rightarrow> ('s, 'a) M" where
  "raise e = (\<lambda>s. (Err e, s))"

definition bindM :: "('s, 'a) M \<Rightarrow> ('a \<Rightarrow> ('s, 'b) M) \<Rightarrow> ('s, 'b) M" where
  "bindM m f = (\<lambda>s. case m s of (Ok a, s') \<Rightarrow> f a s' | (Err e, s') \<Rightarrow> (Err e, s'))"

definition seqM :: "('s, 'a) M \<Rightarrow> ('s, 'b) M \<Rightarrow> ('s, 'b) M" where
  "seqM m n = bindM m (\<lambda>_. n)"

text \<open>\<^verbatim>\<open>try: m except e: h(e)\<close>; the handler raises again what it does not handle.\<close>

definition catchM :: "('s, 'a) M \<Rightarrow> (exn \<Rightarrow> ('s, 'a) M) \<Rightarrow> ('s, 'a) M" where
  "catchM m h = (\<lambda>s. case m s of (Ok a, s') \<Rightarrow> (Ok a, s') | (Err e, s') \<Rightarrow> h e s')"

text \<open>\<^verbatim>\<open>try: m except e: h(e) else: k\<close>: what \<^verbatim>\<open>k\<close> raises is not handled by \<^verbatim>\<open>h\<close>.\<close>

definition try_else :: "('s, 'a) M \<Rightarrow> (exn \<Rightarrow> ('s, 'b) M) \<Rightarrow> ('a \<Rightarrow> ('s, 'b) M) \<Rightarrow> ('s, 'b) M" where
  "try_else m h k = (\<lambda>s. case m s of (Ok a, s') \<Rightarrow> k a s' | (Err e, s') \<Rightarrow> h e s')"

definition gets :: "('s \<Rightarrow> 'a) \<Rightarrow> ('s, 'a) M" where
  "gets f = (\<lambda>s. (Ok (f s), s))"

definition modify :: "('s \<Rightarrow> 's) \<Rightarrow> ('s, unit) M" where
  "modify f = (\<lambda>s. (Ok (), f s))"

definition whenM :: "bool \<Rightarrow> ('s, unit) M \<Rightarrow> ('s, unit) M" where
  "whenM b m = (if b then m else ret ())"

text \<open>A pure fallible computation, and an optional value whose absence is an exception.\<close>

definition lift :: "exn + 'a \<Rightarrow> ('s, 'a) M" where
  "lift x = (case x of Inl e \<Rightarrow> raise e | Inr a \<Rightarrow> ret a)"

definition the_or :: "exn \<Rightarrow> 'a option \<Rightarrow> ('s, 'a) M" where
  "the_or e x = (case x of None \<Rightarrow> raise e | Some a \<Rightarrow> ret a)"

subsection \<open>Loops and generators\<close>

text \<open>
  A loop body gets an accumulator and says whether the loop goes on (\<open>Next\<close>) or is left by
  \<^verbatim>\<open>break\<close> (\<open>Break\<close>). A generator is modelled by the loop over it: it runs its own code between
  the runs of the body, which is how Python interleaves them.
\<close>

datatype 'c ctl = Next 'c | Break 'c

fun ctl_val :: "'c ctl \<Rightarrow> 'c" where
  "ctl_val (Next c) = c"
| "ctl_val (Break c) = c"

type_synonym ('s, 'a, 'c) gen = "('a \<Rightarrow> 'c \<Rightarrow> ('s, 'c ctl) M) \<Rightarrow> 'c \<Rightarrow> ('s, 'c ctl) M"

fun iter :: "'a list \<Rightarrow> ('s, 'a, 'c) gen" where
  "iter [] body c = ret (Next c)"
| "iter (x # xs) body c =
     bindM (body x c) (\<lambda>r. case r of Next c' \<Rightarrow> iter xs body c' | Break c' \<Rightarrow> ret (Break c'))"

text \<open>\<^verbatim>\<open>for x in g: body(x)\<close> with no \<^verbatim>\<open>break\<close> and no accumulator.\<close>

definition for_each :: "('s, 'a, unit) gen \<Rightarrow> ('a \<Rightarrow> ('s, unit) M) \<Rightarrow> ('s, unit) M" where
  "for_each g body = seqM (g (\<lambda>x c. seqM (body x) (ret (Next ()))) ()) (ret ())"

text \<open>\<^verbatim>\<open>[f(x) for x in g]\<close>.\<close>

definition collect :: "('s, 'a, 'b list) gen \<Rightarrow> ('a \<Rightarrow> ('s, 'b) M) \<Rightarrow> ('s, 'b list) M" where
  "collect g f =
     bindM (g (\<lambda>x acc. bindM (f x) (\<lambda>y. ret (Next (acc @ [y])))) []) (\<lambda>r. ret (ctl_val r))"

text \<open>The first value of a generator that satisfies a test; \<open>None\<close> when the loop runs out.\<close>

definition find_first :: "('s, 'a, 'a option) gen \<Rightarrow> ('a \<Rightarrow> ('s, bool) M) \<Rightarrow> ('s, 'a option) M" where
  "find_first g p =
     bindM (g (\<lambda>x c. bindM (p x) (\<lambda>b. ret (if b then Break (Some x) else Next c))) None)
       (\<lambda>r. ret (ctl_val r))"

text \<open>\<^verbatim>\<open>any(g)\<close> for a generator of objects, which are all true: is there a first one?\<close>

definition any_gen :: "('s, 'a, 'a option) gen \<Rightarrow> ('s, bool) M" where
  "any_gen g = bindM (find_first g (\<lambda>_. ret True)) (\<lambda>x. ret (x \<noteq> None))"

text \<open>\<^verbatim>\<open>for i in range(n): if p(i): ...; break\<close>, the search loop of the index allocators.\<close>

function range_find :: "(int \<Rightarrow> bool) \<Rightarrow> int \<Rightarrow> int \<Rightarrow> int option" where
  "range_find p i n = (if i < n then if p i then Some i else range_find p (i + 1) n else None)"
  by pat_completeness auto
termination
  by (relation "measure (\<lambda>(p, i, n). nat (n - i))") auto

declare range_find.simps [simp del]

section \<open>Weakest preconditions\<close>

definition wp :: "('s, 'a) M \<Rightarrow> ('a \<Rightarrow> 's \<Rightarrow> bool) \<Rightarrow> (exn \<Rightarrow> 's \<Rightarrow> bool) \<Rightarrow> 's \<Rightarrow> bool" where
  "wp m Q E s = (case m s of (Ok a, s') \<Rightarrow> Q a s' | (Err e, s') \<Rightarrow> E e s')"

lemma wp_ret [wp]: "wp (ret a) Q E s = Q a s"
  by (simp add: wp_def ret_def)

lemma wp_raise [wp]: "wp (raise e) Q E s = E e s"
  by (simp add: wp_def raise_def)

lemma wp_bindM [wp]: "wp (bindM m f) Q E s = wp m (\<lambda>a. wp (f a) Q E) E s"
  by (simp add: wp_def bindM_def split: prod.splits res.splits)

lemma wp_seqM [wp]: "wp (seqM m n) Q E s = wp m (\<lambda>_. wp n Q E) E s"
  by (simp add: seqM_def wp_bindM)

lemma wp_catchM [wp]: "wp (catchM m h) Q E s = wp m Q (\<lambda>e. wp (h e) Q E) s"
  by (simp add: wp_def catchM_def split: prod.splits res.splits)

lemma wp_try_else [wp]: "wp (try_else m h k) Q E s = wp m (\<lambda>a. wp (k a) Q E) (\<lambda>e. wp (h e) Q E) s"
  by (simp add: wp_def try_else_def split: prod.splits res.splits)

lemma wp_gets [wp]: "wp (gets f) Q E s = Q (f s) s"
  by (simp add: wp_def gets_def)

lemma wp_modify [wp]: "wp (modify f) Q E s = Q () (f s)"
  by (simp add: wp_def modify_def)

lemma wp_whenM [wp]: "wp (whenM b m) Q E s = (if b then wp m Q E s else Q () s)"
  by (simp add: whenM_def wp_ret)

lemma wp_lift [wp]: "wp (lift x) Q E s = (case x of Inl e \<Rightarrow> E e s | Inr a \<Rightarrow> Q a s)"
  by (simp add: lift_def wp_ret wp_raise split: sum.splits)

lemma wp_the_or [wp]: "wp (the_or e x) Q E s = (case x of None \<Rightarrow> E e s | Some a \<Rightarrow> Q a s)"
  by (simp add: the_or_def wp_ret wp_raise split: option.splits)

lemma wp_if [wp]: "wp (if b then m else n) Q E s = (if b then wp m Q E s else wp n Q E s)"
  by simp

lemmas wp_eta = wp_ret [abs_def] wp_bindM [abs_def] wp_seqM [abs_def]

lemma seqM_assoc: "seqM (seqM a b) c = seqM a (seqM b c)"
  by (auto simp: seqM_def bindM_def fun_eq_iff split: prod.splits res.splits)

lemma bindM_ret: "bindM (ret a) f = f a"
  by (simp add: bindM_def ret_def)

lemma wp_mono:
  assumes "wp m Q E s" and "\<And>a s'. Q a s' \<Longrightarrow> Q' a s'" and "\<And>e s'. E e s' \<Longrightarrow> E' e s'"
  shows "wp m Q' E' s"
  using assms by (auto simp: wp_def split: prod.splits res.splits)

lemma wp_True [simp]: "wp m (\<lambda>_ _. True) (\<lambda>_ _. True) s"
  by (simp add: wp_def split: prod.splits res.splits)

lemma wp_cleanup [simp]: "wp (seqM m (raise e)) Q (\<lambda>_ _. True) s"
  by (simp add: wp_seqM wp_raise [abs_def])

lemma wp_seqI: "wp m (\<lambda>_. P) E s \<Longrightarrow> (\<And>s. P s \<Longrightarrow> wp n Q E s) \<Longrightarrow> wp (seqM m n) Q E s"
  unfolding wp_seqM by (erule wp_mono)

lemma wp_bindI: "wp m P E s \<Longrightarrow> (\<And>a s. P a s \<Longrightarrow> wp (f a) Q E s) \<Longrightarrow> wp (bindM m f) Q E s"
  unfolding wp_bindM by (erule wp_mono)

lemma wp_seq_any: "(\<And>s. wp n Q (\<lambda>_ _. True) s) \<Longrightarrow> wp (seqM m n) Q (\<lambda>_ _. True) s"
  by (rule wp_seqI [OF wp_True])

lemma wp_bind_any: "(\<And>a s. wp (f a) Q (\<lambda>_ _. True) s) \<Longrightarrow> wp (bindM m f) Q (\<lambda>_ _. True) s"
  by (rule wp_bindI [OF wp_True])

lemma wp_conj: "wp m Q E s \<Longrightarrow> wp m Q' E' s \<Longrightarrow> wp m (\<lambda>a s. Q a s \<and> Q' a s) (\<lambda>e s. E e s \<and> E' e s) s"
  by (auto simp: wp_def split: prod.splits res.splits)

lemma wpD: "wp m Q E s \<Longrightarrow> m s = (Ok a, s') \<Longrightarrow> Q a s'"
  by (simp add: wp_def)

lemma wpD_Err: "wp m Q E s \<Longrightarrow> m s = (Err e, s') \<Longrightarrow> E e s'"
  by (simp add: wp_def)

lemma run_eq: "m s = (Ok a, s') \<longleftrightarrow> wp m (\<lambda>b t. b = a \<and> t = s') (\<lambda>_ _. False) s"
  by (auto simp: wp_def split: prod.splits res.splits)

lemma run_eq_Err: "m s = (Err e, s') \<longleftrightarrow> wp m (\<lambda>_ _. False) (\<lambda>f t. f = e \<and> t = s') s"
  by (auto simp: wp_def split: prod.splits res.splits)

text \<open>The loop rule: an invariant of the accumulator and the state, kept by the body.\<close>

lemma wp_iter:
  assumes "I c s"
    and "\<And>x c s. x \<in> set xs \<Longrightarrow> I c s \<Longrightarrow>
      wp (body x c) (\<lambda>r s'. case r of Next c' \<Rightarrow> I c' s' | Break c' \<Rightarrow> Q (Break c') s') E s"
    and "\<And>c s. I c s \<Longrightarrow> Q (Next c) s"
  shows "wp (iter xs body c) Q E s"
  using assms
proof (induction xs arbitrary: c s)
  case Nil
  then show ?case by (simp add: wp)
next
  case (Cons x xs)
  have "wp (body x c) (\<lambda>r s'. case r of Next c' \<Rightarrow> I c' s' | Break c' \<Rightarrow> Q (Break c') s') E s"
    using Cons.prems by simp
  then show ?case
    unfolding iter.simps wp_bindM
    by (rule wp_mono) (auto split: ctl.splits simp: wp Cons)
qed

text \<open>The same with the elements visited so far as an argument of the invariant.\<close>

lemma wp_iter_visited:
  assumes "I [] c s"
    and "\<And>pre x c s. x \<in> set xs \<Longrightarrow> I pre c s \<Longrightarrow>
      wp (body x c) (\<lambda>r s'. case r of Next c' \<Rightarrow> I (pre @ [x]) c' s' | Break c' \<Rightarrow> Q (Break c') s') E s"
    and "\<And>c s. I xs c s \<Longrightarrow> Q (Next c) s"
  shows "wp (iter xs body c) Q E s"
  using assms
proof (induction xs arbitrary: I c s)
  case Nil
  then show ?case by (simp add: wp)
next
  case (Cons x xs)
  have "wp (body x c) (\<lambda>r s'. case r of Next c' \<Rightarrow> I ([] @ [x]) c' s' | Break c' \<Rightarrow> Q (Break c') s') E s"
    by (rule Cons.prems) (use Cons.prems in simp_all)
  then show ?case
    unfolding iter.simps wp_bindM
  proof (rule wp_mono)
    fix r s' assume r: "case r of Next c' \<Rightarrow> I ([] @ [x]) c' s' | Break c' \<Rightarrow> Q (Break c') s'"
    show "wp (case r of Next c' \<Rightarrow> iter xs body c' | Break c' \<Rightarrow> ret (Break c')) Q E s'"
    proof (cases r)
      case (Next c')
      have "wp (iter xs body c') Q E s'"
      proof (rule Cons.IH [where I = "\<lambda>pre. I (x # pre)"])
        fix pre y d t assume "y \<in> set xs" and "I (x # pre) d t"
        then show "wp (body y d) (\<lambda>r s'. case r of Next c' \<Rightarrow> I (x # pre @ [y]) c' s' | Break c' \<Rightarrow> Q (Break c') s') E t"
          using Cons.prems(2) [of y "x # pre" d t, unfolded append_Cons] by simp
      qed (use r Next Cons.prems(3) in simp_all)
      with Next show ?thesis by simp
    qed (use r in \<open>simp add: wp\<close>)
  qed
qed

lemma wp_iter_map:
  assumes "\<And>x acc s. x \<in> set xs \<Longrightarrow> wp (body x acc) (\<lambda>r _. r = Next (acc @ [h x])) (\<lambda>_ _. True) s"
  shows "wp (iter xs body []) (\<lambda>r _. r = Next (map h xs)) (\<lambda>_ _. True) s"
proof (rule wp_iter_visited [where I = "\<lambda>pre c _. c = map h pre"])
  fix pre x c t assume "x \<in> set xs" and "c = map h pre"
  then show "wp (body x c) (\<lambda>r s'. case r of Next c' \<Rightarrow> c' = map h (pre @ [x]) | Break c' \<Rightarrow> Break c' = Next (map h xs))
      (\<lambda>_ _. True) t"
    using assms [of x c t] by (auto elim!: wp_mono)
qed simp_all

text \<open>A loop whose body only reads is a map.\<close>

lemma collect_iter_pure:
  assumes "\<And>x. x \<in> set xs \<Longrightarrow> f x s = (Ok (g x), s)"
  shows "collect (iter xs) f s = (Ok (map g xs), s)"
proof -
  have "iter xs (\<lambda>x acc. bindM (f x) (\<lambda>y. ret (Next (acc @ [y])))) acc s = (Ok (Next (acc @ map g xs)), s)"
    for acc
    using assms
    by (induction xs arbitrary: acc) (auto simp: bindM_def ret_def)
  then show ?thesis by (simp add: collect_def bindM_def ret_def)
qed

text \<open>A loop whose body never raises never raises.\<close>

lemma for_each_iter_total:
  assumes "\<And>x s. x \<in> set xs \<Longrightarrow> I s \<Longrightarrow> wp (body x) (\<lambda>_. I) (\<lambda>_ _. False) s" and "I s"
  shows "wp (for_each (iter xs) body) (\<lambda>_. I) (\<lambda>_ _. False) s"
  unfolding for_each_def wp_seqM wp_ret
  by (rule wp_iter [where I = "\<lambda>_. I"]) (use assms in \<open>auto simp: wp_seqM wp_ret [abs_def]\<close>)

text \<open>A loop whose body raises the same error at some elements and does nothing at the others.\<close>

lemma for_each_raises:
  assumes "\<And>x. x \<in> set xs \<Longrightarrow> body x s = (if P x then (Err e, s) else (Ok (), s))" and "\<exists>x \<in> set xs. P x"
  shows "for_each (iter xs) body s = (Err e, s)"
proof -
  have "iter xs (\<lambda>x c. seqM (body x) (ret (Next ()))) c s = (Err e, s)" for c
    using assms
    by (induction xs arbitrary: c) (auto simp: bindM_def seqM_def ret_def)
  then show ?thesis by (simp add: for_each_def seqM_def bindM_def)
qed

section \<open>Relations every run respects\<close>

text \<open>
  \<open>stays R m\<close>: whatever the outcome of \<open>m\<close>, an exception included, the states before and after are
  related by \<open>R\<close>. For a reflexive and transitive \<open>R\<close> the property is closed under every
  combinator of the monad, so that it is proved of a method by unfolding it once.
\<close>

definition stays :: "('s \<Rightarrow> 's \<Rightarrow> bool) \<Rightarrow> ('s, 'a) M \<Rightarrow> bool" where
  "stays R m \<longleftrightarrow> (\<forall>s. R s (snd (m s)))"

lemma stays_wp: "stays R m \<longleftrightarrow> (\<forall>s. wp m (\<lambda>_. R s) (\<lambda>_. R s) s)"
proof -
  have "R s (snd (m s)) \<longleftrightarrow> wp m (\<lambda>_. R s) (\<lambda>_. R s) s" for s
    by (cases "m s"; cases "fst (m s)") (auto simp: wp_def)
  then show ?thesis by (simp add: stays_def)
qed

lemma stays_mono: "stays R m \<Longrightarrow> (\<And>s s'. R s s' \<Longrightarrow> R' s s') \<Longrightarrow> stays R' m"
  by (auto simp: stays_def)

lemma staysD: "stays R m \<Longrightarrow> m s = (r, s') \<Longrightarrow> R s s'"
  by (auto simp: stays_def dest: spec [of _ s])

lemma wp_and_stays:
  "stays R m \<Longrightarrow> wp m Q (\<lambda>_ _. True) s \<Longrightarrow> wp m (\<lambda>a s'. Q a s' \<and> R s s') (\<lambda>_ s'. R s s') s"
  by (auto simp: stays_def wp_def split: prod.splits res.splits dest: spec [of _ s])

text \<open>What the value of a run is known to satisfy when the run returns.\<close>

definition yields :: "('a \<Rightarrow> bool) \<Rightarrow> ('s, 'a) M \<Rightarrow> bool" where
  "yields P m \<longleftrightarrow> (\<forall>s. wp m (\<lambda>a _. P a) (\<lambda>_ _. True) s)"

lemma yields_ret: "P a \<Longrightarrow> yields P (ret a)"
  by (simp add: yields_def wp)

lemma yields_raise: "yields P (raise e)"
  by (simp add: yields_def wp)

lemma yields_bindM: "(\<And>a. yields P (f a)) \<Longrightarrow> yields P (bindM m f)"
  unfolding yields_def wp_bindM by (auto simp: wp_def [of m] split: prod.splits res.splits)

lemma yields_seqM: "yields P n \<Longrightarrow> yields P (seqM m n)"
  by (simp add: seqM_def yields_bindM)

lemma yields_if: "yields P m \<Longrightarrow> yields P n \<Longrightarrow> yields P (if b then m else n)"
  by simp

lemma yields_catchM:
  assumes "yields P m" and "\<And>e. yields P (h e)"
  shows "yields P (catchM m h)"
proof -
  have "wp m (\<lambda>a _. P a) (\<lambda>_ _. True) s" for s
    using assms(1) by (simp add: yields_def)
  then have "wp m (\<lambda>a _. P a) (\<lambda>e. wp (h e) (\<lambda>a _. P a) (\<lambda>_ _. True)) s" for s
    by (rule wp_mono) (use assms(2) in \<open>simp_all add: yields_def\<close>)
  then show ?thesis by (simp add: yields_def wp_catchM)
qed

lemma yields_bindM_on:
  assumes "yields Q m" and "\<And>a. Q a \<Longrightarrow> yields P (f a)"
  shows "yields P (bindM m f)"
proof -
  have "wp m (\<lambda>a _. Q a) (\<lambda>_ _. True) s" for s
    using assms(1) by (simp add: yields_def)
  then have "wp m (\<lambda>a. wp (f a) (\<lambda>a _. P a) (\<lambda>_ _. True)) (\<lambda>_ _. True) s" for s
    by (rule wp_mono) (use assms(2) in \<open>simp_all add: yields_def\<close>)
  then show ?thesis by (simp add: yields_def wp_bindM)
qed

lemma yields_mono: "yields P m \<Longrightarrow> (\<And>a. P a \<Longrightarrow> Q a) \<Longrightarrow> yields Q m"
  unfolding yields_def by (rule allI, rule wp_mono, erule spec) simp_all

lemmas yields_rules = yields_ret yields_raise yields_bindM yields_seqM yields_if

lemma yields_wp: "yields P m \<Longrightarrow> wp m Q E s \<Longrightarrow> wp m (\<lambda>a s'. P a \<and> Q a s') E s"
  by (auto simp: yields_def wp_def split: prod.splits res.splits dest: spec [of _ s])

locale step_rel =
  fixes R :: "'s \<Rightarrow> 's \<Rightarrow> bool"
  assumes refl: "R s s"
    and trans: "R s t \<Longrightarrow> R t u \<Longrightarrow> R s u"
begin

lemma ret_stays: "stays R (ret a)"
  by (simp add: stays_def ret_def refl)

lemma raise_stays: "stays R (raise e)"
  by (simp add: stays_def raise_def refl)

lemma gets_stays: "stays R (gets f)"
  by (simp add: stays_def gets_def refl)

lemma lift_stays: "stays R (lift x)"
  by (simp add: lift_def ret_stays raise_stays split: sum.splits)

lemma the_or_stays: "stays R (the_or e x)"
  by (simp add: the_or_def ret_stays raise_stays split: option.splits)

lemma bindM_stays: "stays R m \<Longrightarrow> (\<And>a. stays R (f a)) \<Longrightarrow> stays R (bindM m f)"
  unfolding stays_def bindM_def
  by (auto split: prod.splits res.splits) (metis snd_conv trans)+

lemma bindM_stays_on:
  assumes "stays R m" and "yields P m" and "\<And>a. P a \<Longrightarrow> stays R (f a)"
  shows "stays R (bindM m f)"
proof -
  have "R s (snd (bindM m f s))" for s
  proof -
    obtain r s' where m: "m s = (r, s')" by (cases "m s")
    have r: "R s s'" using assms(1) m by (auto simp: stays_def dest: spec [of _ s])
    show ?thesis
    proof (cases r)
      case (Ok a)
      then have "P a" using assms(2) m by (auto simp: yields_def wp_def dest: spec [of _ s])
      then have "R s' (snd (f a s'))" using assms(3) by (simp add: stays_def)
      with r Ok m show ?thesis by (auto simp: bindM_def intro: trans)
    qed (use r m in \<open>simp add: bindM_def\<close>)
  qed
  then show ?thesis by (simp add: stays_def)
qed

lemma seqM_stays: "stays R m \<Longrightarrow> stays R n \<Longrightarrow> stays R (seqM m n)"
  by (simp add: seqM_def bindM_stays)

lemma catchM_stays: "stays R m \<Longrightarrow> (\<And>e. stays R (h e)) \<Longrightarrow> stays R (catchM m h)"
  unfolding stays_def catchM_def
  by (auto split: prod.splits res.splits) (metis snd_conv trans)+

lemma try_else_stays:
  "stays R m \<Longrightarrow> (\<And>e. stays R (h e)) \<Longrightarrow> (\<And>a. stays R (k a)) \<Longrightarrow> stays R (try_else m h k)"
  unfolding stays_def try_else_def
  by (auto split: prod.splits res.splits) (metis snd_conv trans)+

lemma try_else_stays_on:
  assumes "stays R m" and "yields P m" and "\<And>e. stays R (h e)" and "\<And>a. P a \<Longrightarrow> stays R (k a)"
  shows "stays R (try_else m h k)"
proof -
  have "R s (snd (try_else m h k s))" for s
  proof (cases "fst (m s)")
    case (Ok a)
    then have m: "m s = (Ok a, snd (m s))" by (metis prod.collapse)
    have "P a" using assms(2) m by (auto simp: yields_def wp_def dest: spec [of _ s])
    then have "R (snd (m s)) (snd (k a (snd (m s))))" using assms(4) by (simp add: stays_def)
    moreover have "R s (snd (m s))" using assms(1) by (simp add: stays_def)
    ultimately show ?thesis by (subst try_else_def, subst m) (simp, metis trans)
  next
    case (Err e)
    then have m: "m s = (Err e, snd (m s))" by (metis prod.collapse)
    have "R (snd (m s)) (snd (h e (snd (m s))))" using assms(3) by (simp add: stays_def)
    moreover have "R s (snd (m s))" using assms(1) by (simp add: stays_def)
    ultimately show ?thesis by (subst try_else_def, subst m) (simp, metis trans)
  qed
  then show ?thesis by (simp add: stays_def)
qed

lemma whenM_stays: "(b \<Longrightarrow> stays R m) \<Longrightarrow> stays R (whenM b m)"
  by (simp add: whenM_def ret_stays)

lemma if_stays: "(b \<Longrightarrow> stays R m) \<Longrightarrow> (\<not> b \<Longrightarrow> stays R n) \<Longrightarrow> stays R (if b then m else n)"
  by simp

lemma option_stays:
  "stays R m \<Longrightarrow> (\<And>a. stays R (f a)) \<Longrightarrow> stays R (case x of None \<Rightarrow> m | Some a \<Rightarrow> f a)"
  by (simp split: option.splits)

lemma prod_stays: "(\<And>a b. stays R (f a b)) \<Longrightarrow> stays R (case x of (a, b) \<Rightarrow> f a b)"
  by (simp split: prod.splits)

lemma sum_stays: "(\<And>a. stays R (f a)) \<Longrightarrow> (\<And>b. stays R (g b)) \<Longrightarrow> stays R (case x of Inl a \<Rightarrow> f a | Inr b \<Rightarrow> g b)"
  by (simp split: sum.splits)

lemma iter_stays:
  assumes "\<And>x c. x \<in> set xs \<Longrightarrow> stays R (body x c)"
  shows "stays R (iter xs body c)"
  using assms
proof (induction xs arbitrary: c)
  case Nil
  then show ?case by (simp add: ret_stays)
next
  case (Cons x xs)
  then show ?case
    by (auto intro!: bindM_stays ret_stays split: ctl.splits)
qed

lemma for_each_stays:
  assumes "\<And>b. (\<And>x c. stays R (b x c)) \<Longrightarrow> stays R (g b ())" and "\<And>x. stays R (body x)"
  shows "stays R (for_each g body)"
  unfolding for_each_def by (intro seqM_stays assms ret_stays)

lemma collect_stays:
  assumes "\<And>b. (\<And>x c. stays R (b x c)) \<Longrightarrow> stays R (g b [])" and "\<And>x. stays R (f x)"
  shows "stays R (collect g f)"
  unfolding collect_def by (intro bindM_stays assms ret_stays)

lemma find_first_stays:
  assumes "\<And>b. (\<And>x c. stays R (b x c)) \<Longrightarrow> stays R (g b None)" and "\<And>x. stays R (p x)"
  shows "stays R (find_first g p)"
  unfolding find_first_def by (intro bindM_stays assms ret_stays)

lemma for_each_stays_on:
  assumes "\<And>b. (\<And>x c. P x \<Longrightarrow> stays R (b x c)) \<Longrightarrow> stays R (g b ())" and "\<And>x. P x \<Longrightarrow> stays R (body x)"
  shows "stays R (for_each g body)"
  unfolding for_each_def by (intro seqM_stays assms ret_stays)

lemmas base = ret_stays raise_stays gets_stays lift_stays the_or_stays

lemmas comb = bindM_stays seqM_stays catchM_stays try_else_stays whenM_stays if_stays
  option_stays prod_stays sum_stays iter_stays for_each_stays collect_stays find_first_stays

end

section \<open>Index allocators\<close>

lemma range_find_Some:
  "range_find p i n = Some j \<longleftrightarrow> i \<le> j \<and> j < n \<and> p j \<and> (\<forall>k. i \<le> k \<and> k < j \<longrightarrow> \<not> p k)"
proof (induction p i n rule: range_find.induct)
  case (1 p i n)
  show ?case
  proof (cases "i < n \<and> \<not> p i")
    case True
    then have "range_find p i n = range_find p (i + 1) n"
      by (simp add: range_find.simps [of p i n])
    moreover have "(\<forall>k. i \<le> k \<and> k < j \<longrightarrow> \<not> p k) \<longleftrightarrow> (\<forall>k. i + 1 \<le> k \<and> k < j \<longrightarrow> \<not> p k)"
      using True by (metis add1_zle_eq order_le_less)
    moreover have "p j \<Longrightarrow> i \<le> j \<longleftrightarrow> i + 1 \<le> j"
      using True by (metis add1_zle_eq order_le_less)
    ultimately show ?thesis
      using "1" True by auto
  next
    case False
    then show ?thesis by (auto simp: range_find.simps [of p i n])
  qed
qed

lemma range_find_None: "range_find p i n = None \<longleftrightarrow> (\<forall>j. i \<le> j \<and> j < n \<longrightarrow> \<not> p j)"
proof (induction p i n rule: range_find.induct)
  case (1 p i n)
  show ?case
  proof (cases "i < n \<and> \<not> p i")
    case True
    then have "range_find p i n = range_find p (i + 1) n"
      by (simp add: range_find.simps [of p i n])
    with "1" True show ?thesis
      by (metis add1_zle_eq order_le_less)
  next
    case False
    then show ?thesis by (auto simp: range_find.simps [of p i n])
  qed
qed

text \<open>
  The contract of an allocator of the indexes \<open>lo..<hi\<close>: it returns the least index that is not
  taken, and fails only when all of them are.
\<close>

locale slot_allocator =
  fixes alloc :: "int list \<Rightarrow> int option" and lo hi :: int
  assumes alloc_Some: "alloc taken = Some i \<longleftrightarrow>
      lo \<le> i \<and> i < hi \<and> i \<notin> set taken \<and> (\<forall>k. lo \<le> k \<and> k < i \<longrightarrow> k \<in> set taken)"
    and alloc_None: "alloc taken = None \<longleftrightarrow> {lo..<hi} \<subseteq> set taken"
begin

lemma fresh: "alloc taken = Some i \<Longrightarrow> i \<notin> set taken"
  by (simp add: alloc_Some)

lemma in_range: "alloc taken = Some i \<Longrightarrow> lo \<le> i \<and> i < hi"
  by (simp add: alloc_Some)

lemma least: "alloc taken = Some i \<Longrightarrow> lo \<le> k \<Longrightarrow> k < i \<Longrightarrow> k \<in> set taken"
  by (simp add: alloc_Some)

lemma available:
  assumes "int (length taken) < hi - lo"
  obtains i where "alloc taken = Some i"
proof (cases "alloc taken")
  case None
  then have "{lo..<hi} \<subseteq> set taken" by (simp add: alloc_None)
  then have "card {lo..<hi} \<le> card (set taken)" by (intro card_mono) auto
  also have "\<dots> \<le> length taken" by (rule card_length)
  finally show ?thesis using assms by simp
qed (rule that)

lemma cong: "set taken = set taken' \<Longrightarrow> alloc taken = alloc taken'"
  by (metis alloc_Some not_Some_eq alloc_None)

end

end
