(* ===== verification/PyStr.thy ===== *)
theory PyStr
  imports Prelude
begin

text \<open>
  The part of Python's string and number library the sources use, on ASCII strings: \<^verbatim>\<open>strip\<close>,
  \<^verbatim>\<open>lower\<close>, \<^verbatim>\<open>split\<close>, \<^verbatim>\<open>rsplit\<close>, \<^verbatim>\<open>join\<close>, \<^verbatim>\<open>replace\<close>, \<^verbatim>\<open>removeprefix\<close>, \<^verbatim>\<open>splitlines\<close>, \<^verbatim>\<open>partition\<close>,
  \<^verbatim>\<open>str\<close> and \<^verbatim>\<open>int\<close>, with the round trips the components rely on.
\<close>

section \<open>Character classes\<close>

definition is_ws :: "char \<Rightarrow> bool" where
  "is_ws c = (let n = (of_char c :: nat) in 9 \<le> n \<and> n \<le> 13 \<or> 28 \<le> n \<and> n \<le> 32)"

definition is_digit :: "char \<Rightarrow> bool" where
  "is_digit c = (let n = (of_char c :: nat) in 48 \<le> n \<and> n \<le> 57)"

text \<open>\<^verbatim>\<open>[0-9a-f]\<close> and \<^verbatim>\<open>[0-9a-fA-F]\<close>.\<close>

definition is_hex_lower :: "char \<Rightarrow> bool" where
  "is_hex_lower c = (let n = (of_char c :: nat) in 48 \<le> n \<and> n \<le> 57 \<or> 97 \<le> n \<and> n \<le> 102)"

definition is_hex :: "char \<Rightarrow> bool" where
  "is_hex c = (let n = (of_char c :: nat) in
     48 \<le> n \<and> n \<le> 57 \<or> 97 \<le> n \<and> n \<le> 102 \<or> 65 \<le> n \<and> n \<le> 70)"

definition newline :: char where
  "newline = CHR 0x0A"

lemma is_hex_lower_hex: "is_hex_lower c \<Longrightarrow> is_hex c"
  by (auto simp: is_hex_lower_def is_hex_def Let_def)

lemma is_digit_hex_lower: "is_digit c \<Longrightarrow> is_hex_lower c"
  by (auto simp: is_hex_lower_def is_digit_def Let_def)

lemma is_hex_not_ws: "is_hex c \<Longrightarrow> \<not> is_ws c"
  by (auto simp: is_ws_def is_hex_def Let_def)

lemma newline_ws [simp]: "is_ws newline"
  by (simp add: newline_def is_ws_def)

section \<open>Strip, lower, prefixes\<close>

definition lstrip :: "string \<Rightarrow> string" where
  "lstrip s = dropWhile is_ws s"

definition rstrip :: "string \<Rightarrow> string" where
  "rstrip s = rev (dropWhile is_ws (rev s))"

definition strip :: "string \<Rightarrow> string" where
  "strip s = rstrip (lstrip s)"

definition lower_char :: "char \<Rightarrow> char" where
  "lower_char c = (let n = (of_char c :: nat) in if 65 \<le> n \<and> n \<le> 90 then char_of (n + 32) else c)"

definition lower :: "string \<Rightarrow> string" where
  "lower s = map lower_char s"

definition startswith :: "string \<Rightarrow> string \<Rightarrow> bool" where
  "startswith s p = (take (length p) s = p)"

definition removeprefix :: "string \<Rightarrow> string \<Rightarrow> string" where
  "removeprefix s p = (if startswith s p then drop (length p) s else s)"

text \<open>\<^verbatim>\<open>s.replace(c, "")\<close> for a single character.\<close>

definition remove_char :: "char \<Rightarrow> string \<Rightarrow> string" where
  "remove_char c s = filter (\<lambda>d. d \<noteq> c) s"

lemma startswith_prefix: "startswith s p \<longleftrightarrow> prefix p s"
  by (metis append_eq_conv_conj prefixE prefixI startswith_def append_take_drop_id)

lemma startswith_append [simp]: "startswith (p @ s) p"
  by (simp add: startswith_def)

lemma removeprefix_append [simp]: "removeprefix (p @ s) p = s"
  by (simp add: removeprefix_def)

lemma strip_id:
  assumes "s \<noteq> [] \<Longrightarrow> \<not> is_ws (hd s)" and "s \<noteq> [] \<Longrightarrow> \<not> is_ws (last s)"
  shows "strip s = s"
proof (cases "s = []")
  case False
  then have "dropWhile is_ws s = s"
    using assms(1) by (cases s) auto
  moreover have "dropWhile is_ws (rev s) = rev s"
    using assms(2) False by (cases "rev s") (auto simp: hd_rev [symmetric])
  ultimately show ?thesis by (simp add: strip_def lstrip_def rstrip_def)
qed (simp add: strip_def lstrip_def rstrip_def)

lemma strip_no_ws: "\<forall>c \<in> set s. \<not> is_ws c \<Longrightarrow> strip s = s"
  by (rule strip_id) auto

lemma hd_strip: "strip s \<noteq> [] \<Longrightarrow> \<not> is_ws (hd (strip s))"
proof -
  define t where "t = lstrip s"
  assume "strip s \<noteq> []"
  then have ne: "rstrip t \<noteq> []" by (simp add: strip_def t_def)
  obtain u where u: "t = rstrip t @ u"
    by (metis rstrip_def rev_append rev_rev_ident takeWhile_dropWhile_id)
  then have "t \<noteq> []" and "hd t = hd (rstrip t)"
    using ne by (auto, metis hd_append2)
  moreover have "t \<noteq> [] \<Longrightarrow> \<not> is_ws (hd t)"
    by (simp add: t_def lstrip_def hd_dropWhile)
  ultimately show ?thesis by (simp add: strip_def t_def)
qed

lemma last_strip: "strip s \<noteq> [] \<Longrightarrow> \<not> is_ws (last (strip s))"
proof -
  assume "strip s \<noteq> []"
  then have "dropWhile is_ws (rev (lstrip s)) \<noteq> []"
    by (simp add: strip_def rstrip_def)
  then have "\<not> is_ws (hd (dropWhile is_ws (rev (lstrip s))))"
    by (rule hd_dropWhile)
  then show ?thesis
    by (simp add: strip_def rstrip_def last_rev)
qed

lemma strip_strip [simp]: "strip (strip s) = strip s"
  by (rule strip_id) (simp_all add: hd_strip last_strip)

lemma strip_snoc_ws: "is_ws c \<Longrightarrow> strip (s @ [c]) = strip s"
proof -
  assume c: "is_ws c"
  show ?thesis
  proof (cases "\<forall>x \<in> set s. is_ws x")
    case True
    then have "dropWhile is_ws (s @ [c]) = []" "dropWhile is_ws s = []" using c by auto
    then show ?thesis by (simp only: strip_def lstrip_def)
  next
    case False
    then have "dropWhile is_ws (s @ [c]) = dropWhile is_ws s @ [c]"
      by (simp add: dropWhile_append)
    then show ?thesis using c by (simp add: strip_def lstrip_def rstrip_def)
  qed
qed

lemma set_strip: "set (strip s) \<subseteq> set s"
  by (auto simp: strip_def lstrip_def rstrip_def dest!: set_dropWhileD)

lemma length_strip: "length (strip s) \<le> length s"
  by (metis (no_types, lifting) dual_order.trans length_dropWhile_le length_rev lstrip_def rstrip_def strip_def)

lemma lower_char_idem [simp]: "lower_char (lower_char c) = lower_char c"
  by (auto simp: lower_char_def Let_def)

lemma lower_char_newline [simp]: "lower_char c = newline \<longleftrightarrow> c = newline"
proof
  assume e: "lower_char c = newline"
  then have "of_char (lower_char c) = (10::nat)" by (simp add: newline_def)
  then have "lower_char c = c" by (auto simp: lower_char_def Let_def split: if_splits)
  with e show "c = newline" by simp
qed (simp add: newline_def lower_char_def)

lemma lower_lower [simp]: "lower (lower s) = lower s"
  by (simp add: lower_def)

lemma is_ws_lower_char [simp]: "is_ws (lower_char c) = is_ws c"
  by (auto simp: lower_char_def is_ws_def Let_def)

lemma lower_char_id: "of_char c < (65::nat) \<or> 90 < (of_char c :: nat) \<Longrightarrow> lower_char c = c"
  by (auto simp: lower_char_def Let_def)

lemma is_hex_lower_lower_char: "is_hex_lower c \<Longrightarrow> lower_char c = c"
  by (rule lower_char_id) (auto simp: is_hex_lower_def Let_def)

lemma strip_lower: "strip (lower s) = lower (strip s)"
  by (simp add: strip_def lstrip_def rstrip_def lower_def dropWhile_map rev_map o_def)

lemma lower_append [simp]: "lower (s @ t) = lower s @ lower t"
  by (simp add: lower_def)

section \<open>Splitting and joining\<close>

fun split_on :: "char \<Rightarrow> string \<Rightarrow> string list" where
  "split_on c [] = [[]]"
| "split_on c (x # xs) =
     (if x = c then [] # split_on c xs
      else (case split_on c xs of [] \<Rightarrow> [[x]] | y # ys \<Rightarrow> (x # y) # ys))"

fun join :: "string \<Rightarrow> string list \<Rightarrow> string" where
  "join sep [] = []"
| "join sep [x] = x"
| "join sep (x # y # ys) = x @ sep @ join sep (y # ys)"

text \<open>\<^verbatim>\<open>s.split()\<close>: runs of white space separate, and there are no empty words.\<close>

fun words_aux :: "string \<Rightarrow> string \<Rightarrow> string list" where
  "words_aux w [] = (if w = [] then [] else [w])"
| "words_aux w (c # cs) =
     (if is_ws c then (if w = [] then words_aux [] cs else w # words_aux [] cs)
      else words_aux (w @ [c]) cs)"

definition words :: "string \<Rightarrow> string list" where
  "words s = words_aux [] s"

text \<open>\<^verbatim>\<open>s.rsplit(c, 1)\<close> as a pair; \<open>None\<close> when there is no separator.\<close>

definition rsplit1 :: "char \<Rightarrow> string \<Rightarrow> (string \<times> string) option" where
  "rsplit1 c s =
     (if c \<in> set s
      then Some (rev (tl (dropWhile (\<lambda>d. d \<noteq> c) (rev s))), rev (takeWhile (\<lambda>d. d \<noteq> c) (rev s)))
      else None)"

text \<open>\<^verbatim>\<open>s.partition(c)[2]\<close>.\<close>

definition after_char :: "char \<Rightarrow> string \<Rightarrow> string" where
  "after_char c s = drop 1 (dropWhile (\<lambda>d. d \<noteq> c) s)"

text \<open>\<^verbatim>\<open>s.splitlines()\<close> for the line ends of text files (a carriage return and a line feed in a
  row are one line end).\<close>

definition is_line_end :: "char \<Rightarrow> bool" where
  "is_line_end c = (let n = (of_char c :: nat) in 10 \<le> n \<and> n \<le> 13 \<or> 28 \<le> n \<and> n \<le> 30)"

fun splitlines_aux :: "string \<Rightarrow> string \<Rightarrow> string list" where
  "splitlines_aux w [] = (if w = [] then [] else [w])"
| "splitlines_aux w [c] = (if is_line_end c then [w] else [w @ [c]])"
| "splitlines_aux w (c # d # cs) =
     (if is_line_end c
      then w # (if c = CHR 0x0D \<and> d = newline then splitlines_aux [] cs
                else splitlines_aux [] (d # cs))
      else splitlines_aux (w @ [c]) (d # cs))"

definition splitlines :: "string \<Rightarrow> string list" where
  "splitlines s = splitlines_aux [] s"

lemma split_on_ne [simp]: "split_on c s \<noteq> []"
  by (induction s) (auto split: list.splits)

lemma join_split_on [simp]: "join [c] (split_on c s) = s"
proof (induction s)
  case (Cons x xs)
  then show ?case
    by (cases "split_on c xs"; cases "tl (split_on c xs)") auto
qed simp

lemma split_on_no_sep: "c \<notin> set s \<Longrightarrow> split_on c s = [s]"
  by (induction s) auto

lemma split_on_append: "c \<notin> set s \<Longrightarrow> split_on c (s @ c # t) = s # split_on c t"
  by (induction s) auto

lemma split_on_join:
  "xs \<noteq> [] \<Longrightarrow> \<forall>x \<in> set xs. c \<notin> set x \<Longrightarrow> split_on c (join [c] xs) = xs"
  by (induction "[c]" xs rule: join.induct) (auto simp: split_on_no_sep split_on_append)

lemma set_split_on: "x \<in> set (split_on c s) \<Longrightarrow> d \<in> set x \<Longrightarrow> d \<in> set s"
  by (induction s arbitrary: x) (fastforce split: if_splits list.splits)+

lemma rsplit1_append: "c \<notin> set t \<Longrightarrow> rsplit1 c (s @ c # t) = Some (s, t)"
  by (simp add: rsplit1_def takeWhile_append dropWhile_append)

lemma after_char_append: "c \<notin> set s \<Longrightarrow> after_char c (s @ c # t) = t"
  by (simp add: after_char_def dropWhile_append)

section \<open>Numbers\<close>

definition digit :: "nat \<Rightarrow> char" where
  "digit d = char_of (48 + d)"

definition digit_val :: "char \<Rightarrow> nat" where
  "digit_val c = of_char c - 48"

fun str_of_nat :: "nat \<Rightarrow> string" where
  "str_of_nat n = (if n < 10 then [digit n] else str_of_nat (n div 10) @ [digit (n mod 10)])"

declare str_of_nat.simps [simp del]

definition str_of_int :: "int \<Rightarrow> string" where
  "str_of_int n = (if n < 0 then CHR ''-'' # str_of_nat (nat (- n)) else str_of_nat (nat n))"

text \<open>
  \<^verbatim>\<open>int(s)\<close> of a string: white space around it is ignored, a sign is allowed, and an underscore
  may stand between two digits.
\<close>

fun py_digits :: "nat \<Rightarrow> string \<Rightarrow> nat option" where
  "py_digits acc [] = Some acc"
| "py_digits acc (c # cs) =
     (if is_digit c then py_digits (10 * acc + digit_val c) cs
      else if c = CHR ''_'' then
        (case cs of
           [] \<Rightarrow> None
         | d # ds \<Rightarrow> if is_digit d then py_digits (10 * acc + digit_val d) ds else None)
      else None)"

fun py_nat :: "string \<Rightarrow> nat option" where
  "py_nat [] = None"
| "py_nat (c # cs) = (if is_digit c then py_digits (digit_val c) cs else None)"

definition py_int :: "string \<Rightarrow> int option" where
  "py_int s =
     (case strip s of
        [] \<Rightarrow> None
      | c # cs \<Rightarrow>
          if c = CHR ''-'' then map_option (\<lambda>n. - int n) (py_nat cs)
          else if c = CHR ''+'' then map_option int (py_nat cs)
          else map_option int (py_nat (c # cs)))"

lemma digit_val_digit: "d < 10 \<Longrightarrow> digit_val (digit d) = d"
  by (simp add: digit_val_def digit_def)

lemma is_digit_digit: "d < 10 \<Longrightarrow> is_digit (digit d)"
  by (auto simp: is_digit_def digit_def Let_def)

lemma str_of_nat_digits: "\<forall>c \<in> set (str_of_nat n). is_digit c"
proof (induction n rule: str_of_nat.induct)
  case (1 n)
  then show ?case
    by (cases "n < 10") (auto simp: str_of_nat.simps [of n] is_digit_digit)
qed

lemma str_of_nat_ne [simp]: "str_of_nat n \<noteq> []"
  by (simp add: str_of_nat.simps [of n])

lemma py_digits_append:
  "\<forall>c \<in> set s. is_digit c \<Longrightarrow> d < 10 \<Longrightarrow>
   py_digits acc (s @ [digit d]) = map_option (\<lambda>n. 10 * n + d) (py_digits acc s)"
  by (induction s arbitrary: acc) (auto simp: is_digit_digit digit_val_digit)

lemma py_nat_append:
  "s \<noteq> [] \<Longrightarrow> \<forall>c \<in> set s. is_digit c \<Longrightarrow> d < 10 \<Longrightarrow>
   py_nat (s @ [digit d]) = map_option (\<lambda>n. 10 * n + d) (py_nat s)"
  by (cases s) (auto simp: py_digits_append)

lemma py_nat_str_of_nat [simp]: "py_nat (str_of_nat n) = Some n"
proof (induction n rule: str_of_nat.induct)
  case (1 n)
  show ?case
  proof (cases "n < 10")
    case True
    then show ?thesis
      by (simp add: str_of_nat.simps [of n] is_digit_digit digit_val_digit)
  next
    case False
    then have "py_nat (str_of_nat n) = Some (10 * (n div 10) + n mod 10)"
      using "1" py_nat_append [of "str_of_nat (n div 10)" "n mod 10"] str_of_nat_digits [of "n div 10"]
      by (simp add: str_of_nat.simps [of n])
    then show ?thesis by simp
  qed
qed

lemma is_digit_chars: "is_digit c \<Longrightarrow> \<not> is_ws c \<and> c \<noteq> CHR ''-'' \<and> c \<noteq> CHR ''+''
    \<and> c \<noteq> CHR ''_'' \<and> c \<noteq> CHR ''/'' \<and> c \<noteq> CHR '':'' \<and> c \<noteq> CHR ''.''"
  by (auto simp: is_digit_def is_ws_def Let_def)

lemma str_of_int_chars:
  "c \<in> set (str_of_int n) \<Longrightarrow> \<not> is_ws c \<and> c \<noteq> CHR ''_'' \<and> c \<noteq> CHR ''/'' \<and> c \<noteq> CHR '':''"
  using str_of_nat_digits is_digit_chars
  by (auto simp: str_of_int_def is_ws_def split: if_splits)

lemma str_of_int_ne [simp]: "str_of_int n \<noteq> []"
  by (simp add: str_of_int_def)

theorem py_int_str_of_int [simp]: "py_int (str_of_int n) = Some n"
proof -
  have s: "strip (str_of_int n) = str_of_int n"
    by (rule strip_no_ws) (use str_of_int_chars in blast)
  show ?thesis
  proof (cases "n < 0")
    case True
    then show ?thesis using s by (simp add: py_int_def str_of_int_def)
  next
    case False
    moreover obtain c cs where c: "str_of_nat (nat n) = c # cs" and "is_digit c"
      by (metis list.exhaust list.set_intros(1) str_of_nat_digits str_of_nat_ne)
    ultimately show ?thesis
      using s is_digit_chars [of c] py_nat_str_of_nat [of "nat n"]
      by (auto simp: py_int_def str_of_int_def simp del: py_nat_str_of_nat)
  qed
qed

lemma str_of_int_inject [simp]: "str_of_int m = str_of_int n \<longleftrightarrow> m = n"
  by (metis option.inject py_int_str_of_int)

section \<open>Conversions of values\<close>

definition py_bool_str :: "bool \<Rightarrow> string" where
  "py_bool_str b = (if b then ''True'' else ''False'')"

text \<open>\<^verbatim>\<open>str(v)\<close>; inside a list or a dictionary a string is shown quoted (strings with quotes or
  escapes inside a list are outside the model).\<close>

fun py_repr :: "pyval \<Rightarrow> string" where
  "py_repr PNone = ''None''"
| "py_repr (PBool b) = py_bool_str b"
| "py_repr (PInt n) = str_of_int n"
| "py_repr (PStr s) = [CHR 0x27] @ s @ [CHR 0x27]"
| "py_repr (PList vs) = ''['' @ join '', '' (map py_repr vs) @ '']''"
| "py_repr (PDict d) =
     ''{'' @ join '', '' (map (\<lambda>(k, v). [CHR 0x27] @ k @ [CHR 0x27] @ '': '' @ py_repr v) d) @ ''}''"

fun py_str :: "pyval \<Rightarrow> string" where
  "py_str (PStr s) = s"
| "py_str v = py_repr v"

text \<open>\<^verbatim>\<open>int(v)\<close>.\<close>

fun to_int :: "pyval \<Rightarrow> exn + int" where
  "to_int (PInt n) = Inr n"
| "to_int (PBool b) = Inr (if b then 1 else 0)"
| "to_int (PStr s) =
     (case py_int s of None \<Rightarrow> Inl (ValueErr ''invalid literal for int()'') | Some n \<Rightarrow> Inr n)"
| "to_int _ = Inl (TypeErr ''int() argument must be a string or a number'')"

text \<open>
  \<^verbatim>\<open>float(v)\<close> as an exact fraction: digits with an optional decimal point and exponent, underscores between digits. \<open>None\<close> is no number;
  the names of the infinities and of not-a-number are told apart, as rounding them raises.
\<close>

definition py_mantissa :: "string \<Rightarrow> (nat \<times> nat) option" where
  "py_mantissa s =
     (let a = takeWhile (\<lambda>c. c \<noteq> CHR ''.'') s; b = drop (length a + 1) s; part = (\<lambda>x. if x = [] then Some 0 else py_nat x) in
      if a = s then map_option (\<lambda>n. (n, 0)) (py_nat s)
      else if a = [] \<and> b = [] then None
      else case (part a, part b) of
        (Some m, Some n) \<Rightarrow> let k = length (filter is_digit b) in Some (m * 10 ^ k + n, k)
      | _ \<Rightarrow> None)"

definition py_sign :: "string \<Rightarrow> int \<times> string" where
  "py_sign s = (case s of
      c # cs \<Rightarrow> if c = CHR ''-'' then (-1, cs) else if c = CHR ''+'' then (1, cs) else (1, s)
    | [] \<Rightarrow> (1, s))"

definition py_float :: "string \<Rightarrow> (int \<times> int) option" where
  "py_float s =
     (let (sg, t) = py_sign (strip s); m = takeWhile (\<lambda>c. c \<noteq> CHR ''e'' \<and> c \<noteq> CHR ''E'') t;
          (es, e) = py_sign (drop (length m + 1) t) in
      case (py_mantissa m, if m = t then Some 0 else py_nat e) of
        (Some (n, k), Some x) \<Rightarrow>
          if es = 1 then Some (sg * int n * 10 ^ x, 10 ^ k) else Some (sg * int n, 10 ^ (k + x))
      | _ \<Rightarrow> None)"

definition to_fraction :: "pyval \<Rightarrow> exn + (int \<times> int)" where
  "to_fraction v = (case v of
      PStr s \<Rightarrow>
        (case py_float s of
           Some x \<Rightarrow> Inr x
         | None \<Rightarrow>
             let t = lower (snd (py_sign (strip s))) in
             if t \<in> {''inf'', ''infinity''} then Inl (OverflowErr ''cannot convert float infinity to integer'')
             else if t = ''nan'' then Inl (ValueErr ''cannot convert float NaN to integer'')
             else Inl (ValueErr ''could not convert string to float''))
    | _ \<Rightarrow> (case to_int v of Inl _ \<Rightarrow> Inl (TypeErr ''float() argument must be a string or a real number'') | Inr n \<Rightarrow> Inr (n, 1)))"

text \<open>\<^verbatim>\<open>"%d" % v\<close>.\<close>

fun fmt_d :: "pyval \<Rightarrow> exn + string" where
  "fmt_d (PInt n) = Inr (str_of_int n)"
| "fmt_d (PBool b) = Inr (if b then ''1'' else ''0'')"
| "fmt_d _ = Inl (TypeErr ''%d format: a number is required'')"

text \<open>\<^verbatim>\<open>v.items()\<close> and \<^verbatim>\<open>for x in v\<close>; iterating a dictionary gives its keys, a string its characters.\<close>

fun py_items :: "pyval \<Rightarrow> exn + pydict" where
  "py_items (PDict d) = Inr d"
| "py_items _ = Inl (AttributeErr ''items'')"

fun py_elems :: "pyval \<Rightarrow> exn + pyval list" where
  "py_elems (PList vs) = Inr vs"
| "py_elems (PDict d) = Inr (map (\<lambda>(k, _). PStr k) d)"
| "py_elems (PStr s) = Inr (map (\<lambda>c. PStr [c]) s)"
| "py_elems _ = Inl (TypeErr ''object is not iterable'')"

text \<open>\<^verbatim>\<open>v == n\<close> for an integer: a Boolean equals 1 or 0.\<close>

fun py_eq_int :: "pyval \<Rightarrow> int \<Rightarrow> bool" where
  "py_eq_int (PInt m) n = (m = n)"
| "py_eq_int (PBool b) n = (n = (if b then 1 else 0))"
| "py_eq_int _ n = False"

text \<open>\<^verbatim>\<open>s.split(sep)\<close> for a separator that is not empty.\<close>

fun split_str_aux :: "string \<Rightarrow> nat \<Rightarrow> string \<Rightarrow> string \<Rightarrow> string list" where
  "split_str_aux sep skip acc [] = [rev acc]"
| "split_str_aux sep (Suc n) acc (c # cs) = split_str_aux sep n acc cs"
| "split_str_aux sep 0 acc (c # cs) =
     (if startswith (c # cs) sep then rev acc # split_str_aux sep (length sep - 1) [] cs
      else split_str_aux sep 0 (c # acc) cs)"

definition split_str :: "string \<Rightarrow> string \<Rightarrow> string list" where
  "split_str sep s = split_str_aux sep 0 [] s"

lemma split_str_aux_skip: "length u = n \<Longrightarrow> split_str_aux sep n acc (u @ s) = split_str_aux sep 0 acc s"
  by (induction u arbitrary: n) auto

lemma split_str_append:
  assumes "sep \<noteq> []" and "\<And>k. k < length u \<Longrightarrow> \<not> startswith (drop k u @ sep @ s) sep"
  shows "split_str_aux sep 0 acc (u @ sep @ s) = (rev acc @ u) # split_str sep s"
  using assms(2)
proof (induction u arbitrary: acc)
  case Nil
  obtain c t where sep: "sep = c # t" using assms(1) by (cases sep) auto
  then show ?case
    using split_str_aux_skip [of t "length t" sep "[]" s] startswith_append [of sep s] by (simp add: split_str_def)
next
  case (Cons x u)
  have "\<not> startswith (x # u @ sep @ s) sep" using Cons.prems [of 0] by simp
  moreover have "\<not> startswith (drop k u @ sep @ s) sep" if "k < length u" for k
    using Cons.prems [of "Suc k"] that by simp
  ultimately show ?case using Cons.IH by simp
qed

end
