(* ===== verification/ConfigFS.thy ===== *)
theory ConfigFS
  imports PyStr
begin

text \<open>
  The world the library acts on. The visible file system is a list of entries (a path is the list
  of its components, the order of the list is the order in which a directory is listed); what
  Python's \<^verbatim>\<open>pathlib\<close> and \<^verbatim>\<open>os\<close> observe of it is defined here. What changes it is the kernel's
  configfs implementation, which is not part of the repository: it is the parameter \<open>env\<close> of every
  operation, five system calls on the visible file system together with the other outside
  services (random UUIDs, host name, shell commands, module loading). Its documented behaviour is the locale
  \<open>configfs\<close>; \<open>lio\<close> is a concrete kernel with that behaviour.
\<close>

section \<open>Paths\<close>

definition comps :: "string \<Rightarrow> path" where
  "comps s = filter (\<lambda>x. x \<noteq> [] \<and> x \<noteq> ''.'') (split_on (CHR ''/'') s)"

text \<open>\<^verbatim>\<open>f"{p}/{s}"\<close>, and \<^verbatim>\<open>Path(p) / s\<close>, which starts again at an absolute \<^verbatim>\<open>s\<close>.\<close>

definition pjoin :: "path \<Rightarrow> string \<Rightarrow> path" where
  "pjoin p s = p @ comps s"

definition pdiv :: "path \<Rightarrow> string \<Rightarrow> path" where
  "pdiv p s = (if startswith s ''/'' then comps s else p @ comps s)"

definition path_str :: "path \<Rightarrow> string" where
  "path_str p = ''/'' @ join ''/'' p"

lemma comps_name: "CHR ''/'' \<notin> set s \<Longrightarrow> s \<noteq> [] \<Longrightarrow> s \<noteq> ''.'' \<Longrightarrow> comps s = [s]"
  by (simp add: comps_def split_on_no_sep)

lemma prefix_pjoin [simp]: "prefix p (pjoin p s)"
  by (simp add: pjoin_def)

lemma comps_int: "CHR ''/'' \<notin> set s \<Longrightarrow> s \<noteq> [] \<Longrightarrow> comps (s @ str_of_int n) = [s @ str_of_int n]"
  using str_of_int_chars [of _ n] str_of_int_ne [of n]
  by (intro comps_name) (auto simp: append_eq_Cons_conv)

lemma pjoin_name:
  "CHR ''/'' \<notin> set s \<Longrightarrow> s \<noteq> [] \<Longrightarrow> s \<noteq> ''.'' \<Longrightarrow> pjoin p s = p @ [s]"
  by (simp add: pjoin_def comps_name)

section \<open>The visible file system\<close>

text \<open>
  A file has its mode bits and what reading it gives, which for a kernel attribute may be an error.
\<close>

datatype node = Dir | File nat "errno + string" | Link path

type_synonym fsys = "(path \<times> node) list"

text \<open>A configfs link points at the directory of another item, so that one step resolves it.\<close>

definition realpath :: "fsys \<Rightarrow> path \<Rightarrow> path" where
  "realpath f p = (case map_of f p of Some (Link q) \<Rightarrow> q | _ \<Rightarrow> p)"

definition is_dir :: "fsys \<Rightarrow> path \<Rightarrow> bool" where
  "is_dir f p = (map_of f (realpath f p) = Some Dir)"

definition is_file :: "fsys \<Rightarrow> path \<Rightarrow> bool" where
  "is_file f p = (case map_of f (realpath f p) of Some (File _ _) \<Rightarrow> True | _ \<Rightarrow> False)"

definition is_symlink :: "fsys \<Rightarrow> path \<Rightarrow> bool" where
  "is_symlink f p = (case map_of f p of Some (Link _) \<Rightarrow> True | _ \<Rightarrow> False)"

definition path_exists :: "fsys \<Rightarrow> path \<Rightarrow> bool" where
  "path_exists f p = (map_of f (realpath f p) \<noteq> None)"

definition children :: "fsys \<Rightarrow> path \<Rightarrow> string list" where
  "children f p = remdups (map last (filter (\<lambda>q. q \<noteq> [] \<and> butlast q = p) (map fst f)))"

definition owner_readable :: "nat \<Rightarrow> bool" where
  "owner_readable m = (m div 256 mod 2 = 1)"

definition owner_writable :: "nat \<Rightarrow> bool" where
  "owner_writable m = (m div 128 mod 2 = 1)"

text \<open>The shape of an entry: everything but the contents of a file.\<close>

datatype shape = Absent | ADir | AFile nat | ALink path

definition shape :: "fsys \<Rightarrow> path \<Rightarrow> shape" where
  "shape f p = (case map_of f p of
      None \<Rightarrow> Absent | Some Dir \<Rightarrow> ADir | Some (File m _) \<Rightarrow> AFile m | Some (Link q) \<Rightarrow> ALink q)"

lemma shape_simps [simp]:
  "shape f p = Absent \<longleftrightarrow> map_of f p = None"
  "shape f p = ADir \<longleftrightarrow> map_of f p = Some Dir"
  "shape f p = ALink q \<longleftrightarrow> map_of f p = Some (Link q)"
  by (auto simp: shape_def split: option.splits node.splits)

lemma map_of_shape_cong:
  assumes "shape f' p = shape f p"
  shows "map_of f' p = None \<longleftrightarrow> map_of f p = None"
    and "map_of f' p = Some Dir \<longleftrightarrow> map_of f p = Some Dir"
    and "map_of f' p = Some (Link q) \<longleftrightarrow> map_of f p = Some (Link q)"
  by (metis assms shape_simps)+

lemma is_dir_shape: "is_dir f p \<longleftrightarrow> shape f p = ADir \<or> (\<exists>q. shape f p = ALink q \<and> shape f q = ADir)"
  by (auto simp: is_dir_def realpath_def split: option.splits node.splits)

lemma is_symlink_shape: "is_symlink f p \<longleftrightarrow> (\<exists>q. shape f p = ALink q)"
  by (auto simp: is_symlink_def split: option.splits node.splits)

lemma is_dir_plain: "map_of f p = Some Dir \<Longrightarrow> is_dir f p"
  by (simp add: is_dir_def realpath_def)

lemma children_iff: "n \<in> set (children f p) \<longleftrightarrow> map_of f (p @ [n]) \<noteq> None"
proof -
  have "n \<in> set (children f p) \<longleftrightarrow> (\<exists>q \<in> fst ` set f. q \<noteq> [] \<and> butlast q = p \<and> last q = n)"
    by (auto simp: children_def)
  also have "\<dots> \<longleftrightarrow> p @ [n] \<in> fst ` set f"
    by (metis append_butlast_last_id butlast_snoc last_snoc snoc_eq_iff_butlast)
  also have "\<dots> \<longleftrightarrow> map_of f (p @ [n]) \<noteq> None"
    by (simp add: map_of_eq_None_iff)
  finally show ?thesis .
qed

lemma distinct_children [simp]: "distinct (children f p)"
  by (simp add: children_def)

section \<open>The environment and the world\<close>

text \<open>
  What \<^verbatim>\<open>pyudev\<close> tells of a device: its subsystem, its \<^verbatim>\<open>DEVTYPE\<close>, if it has that property, its attributes, its kernel name, its
  device node and its parent.
\<close>

datatype udev = Udev (dev_subsystem: string) (dev_type: "string option") (dev_attrs: "(string \<times> string) list")
  (dev_sys_name: string) (dev_node: "string option") (dev_parent: "udev option")

text \<open>
  A file outside configfs, with its mode, what it contains and how much of that a crash of the machine
  cannot take away any more; and the operations on such files that the library uses.
\<close>

record dfile =
  df_mode :: nat
  df_content :: string
  df_durable :: string

type_synonym disk = "(path \<times> dfile) list"

datatype disk_op =
    DUnlink path
  | DCreate path nat
  | DAppend path string
  | DSync path
  | DReplace path path
  | DChmod path nat

record env =
  k_mkdir :: "fsys \<Rightarrow> path \<Rightarrow> errno + fsys"
  k_rmdir :: "fsys \<Rightarrow> path \<Rightarrow> errno + fsys"
  k_write :: "fsys \<Rightarrow> path \<Rightarrow> string \<Rightarrow> errno + fsys"
  k_symlink :: "fsys \<Rightarrow> path \<Rightarrow> path \<Rightarrow> errno + fsys"
  k_unlink :: "fsys \<Rightarrow> path \<Rightarrow> errno + fsys"
  k_uuid :: "nat \<Rightarrow> string"
  k_hostname :: string
  k_machine :: string
  k_is_mount :: "fsys \<Rightarrow> path \<Rightarrow> bool"
  k_shell :: "fsys \<Rightarrow> string \<Rightarrow> (int \<times> string) \<times> fsys"
  k_kmod :: "(fsys \<Rightarrow> string \<Rightarrow> fsys option) option"
  k_os_msg :: "errno \<Rightarrow> path \<Rightarrow> string"
  k_lock_file :: "fsys \<Rightarrow> errno option"
  k_udev_file :: "string \<Rightarrow> exn + udev"
  k_udev_name :: "string \<Rightarrow> string \<Rightarrow> exn + udev"
  k_udev_block :: "udev \<Rightarrow> udev list"
  k_open_excl :: "string \<Rightarrow> bool \<Rightarrow> errno option"
  k_pagesize :: int
  k_is_block :: "fsys \<Rightarrow> path \<Rightarrow> bool"
  k_disk_fault :: "disk \<Rightarrow> disk_op \<Rightarrow> errno option"

text \<open>
  The state: the file system, the module-level dictionary \<^verbatim>\<open>bs_cache\<close> of \<^verbatim>\<open>tcm.py\<close>, the number of
  UUIDs drawn so far, the list \<^verbatim>\<open>errors\<close> of \<^verbatim>\<open>RTSRoot.restore\<close> that its error function appends to, the files
  outside configfs, and the process's file mode creation mask.
\<close>

record world =
  fs :: fsys
  bs_cache :: "(string \<times> int) list"
  uuids :: nat
  errors :: "string list"
  disk_files :: disk
  cur_umask :: nat

type_synonym 'a W = "(world, 'a) M"

text \<open>\<^verbatim>\<open>str(e)\<close>.\<close>

fun exn_str :: "env \<Rightarrow> exn \<Rightarrow> string" where
  "exn_str K (RTSLibError m) = m"
| "exn_str K (RTSLibALUANotSupportedError m) = m"
| "exn_str K (RTSLibBrokenLink m) = m"
| "exn_str K (RTSLibNotInCFSError m) = m"
| "exn_str K (OSErr e p) = k_os_msg K e p"
| "exn_str K (ValueErr m) = m"
| "exn_str K (KeyErr m) = [CHR 0x27] @ m @ [CHR 0x27]"
| "exn_str K (IndexErr m) = m"
| "exn_str K (TypeErr m) = m"
| "exn_str K (AttributeErr m) = m"
| "exn_str K (UnboundLocalErr m) = m"
| "exn_str K (RuntimeErr m) = m"
| "exn_str K (ZeroDivisionErr m) = m"
| "exn_str K (OverflowErr m) = m"
| "exn_str K (PlainErr m) = m"
| "exn_str K (DeviceNotFoundErr m) = m"

definition kcall :: "(fsys \<Rightarrow> errno + fsys) \<Rightarrow> path \<Rightarrow> unit W" where
  "kcall c p = (\<lambda>w. case c (fs w) of
      Inl e \<Rightarrow> (Err (OSErr e p), w)
    | Inr f \<Rightarrow> (Ok (), w\<lparr>fs := f\<rparr>))"

definition mkdir :: "env \<Rightarrow> path \<Rightarrow> unit W" where
  "mkdir K p = kcall (\<lambda>f. k_mkdir K f p) p"

definition rmdir :: "env \<Rightarrow> path \<Rightarrow> unit W" where
  "rmdir K p = kcall (\<lambda>f. k_rmdir K f p) p"

definition write_text :: "env \<Rightarrow> path \<Rightarrow> string \<Rightarrow> unit W" where
  "write_text K p s = kcall (\<lambda>f. k_write K f p s) p"

definition symlink :: "env \<Rightarrow> path \<Rightarrow> path \<Rightarrow> unit W" where
  "symlink K src dst = kcall (\<lambda>f. k_symlink K f src dst) dst"

definition unlink :: "env \<Rightarrow> path \<Rightarrow> unit W" where
  "unlink K p = kcall (\<lambda>f. k_unlink K f p) p"

definition read_text :: "path \<Rightarrow> string W" where
  "read_text p = (\<lambda>w. case map_of (fs w) (realpath (fs w) p) of
      None \<Rightarrow> (Err (OSErr ENOENT p), w)
    | Some Dir \<Rightarrow> (Err (OSErr EISDIR p), w)
    | Some (Link _) \<Rightarrow> (Err (OSErr ENOENT p), w)
    | Some (File _ (Inl e)) \<Rightarrow> (Err (OSErr e p), w)
    | Some (File _ (Inr s)) \<Rightarrow> (Ok s, w))"

text \<open>\<^verbatim>\<open>Path(p).iterdir()\<close> and \<^verbatim>\<open>os.listdir(p)\<close>: the names are read when the iteration starts.\<close>

definition listdir :: "path \<Rightarrow> string list W" where
  "listdir p = (\<lambda>w. if is_dir (fs w) p then (Ok (children (fs w) (realpath (fs w) p)), w)
     else if path_exists (fs w) p then (Err (OSErr ENOTDIR p), w)
     else (Err (OSErr ENOENT p), w))"

definition iterdir :: "path \<Rightarrow> (world, string, 'c) gen" where
  "iterdir p body c = bindM (listdir p) (\<lambda>names. iter names body c)"

text \<open>\<^verbatim>\<open>Path(p).glob(pre + "*")\<close>: nothing when \<^verbatim>\<open>p\<close> is not a directory.\<close>

definition glob_prefix :: "path \<Rightarrow> string \<Rightarrow> (world, string, 'c) gen" where
  "glob_prefix p pre body c =
     bindM (gets (\<lambda>w. if is_dir (fs w) p
                      then filter (\<lambda>n. startswith n pre) (children (fs w) (realpath (fs w) p)) else []))
       (\<lambda>names. iter names body c)"

text \<open>\<^verbatim>\<open>str(uuid.uuid4())\<close>.\<close>

definition uuid4 :: "env \<Rightarrow> string W" where
  "uuid4 K = (\<lambda>w. (Ok (k_uuid K (uuids w)), w\<lparr>uuids := Suc (uuids w)\<rparr>))"

lemma wp_kcall [wp]:
  "wp (kcall c p) Q E w =
     (case c (fs w) of Inl e \<Rightarrow> E (OSErr e p) w | Inr f \<Rightarrow> Q () (w\<lparr>fs := f\<rparr>))"
  by (simp add: wp_def kcall_def split: sum.splits)

lemma wp_uuid4 [wp]: "wp (uuid4 K) Q E w = Q (k_uuid K (uuids w)) (w\<lparr>uuids := Suc (uuids w)\<rparr>)"
  by (simp add: wp_def uuid4_def)

lemma wp_read_text [wp]:
  "wp (read_text p) Q E w =
     (case map_of (fs w) (realpath (fs w) p) of
        Some (File _ (Inr s)) \<Rightarrow> Q s w
      | Some (File _ (Inl e)) \<Rightarrow> E (OSErr e p) w
      | Some Dir \<Rightarrow> E (OSErr EISDIR p) w
      | _ \<Rightarrow> E (OSErr ENOENT p) w)"
  by (simp add: wp_def read_text_def split: option.splits node.splits sum.splits)

lemma wp_listdir [wp]:
  "wp (listdir p) Q E w =
     (if is_dir (fs w) p then Q (children (fs w) (realpath (fs w) p)) w
      else if path_exists (fs w) p then E (OSErr ENOTDIR p) w else E (OSErr ENOENT p) w)"
  by (simp add: wp_def listdir_def)

lemma for_each_iterdir:
  "map_of (fs w) p = Some Dir \<Longrightarrow> for_each (iterdir p) body w = for_each (iter (children (fs w) p)) body w"
  by (simp add: for_each_def iterdir_def listdir_def is_dir_plain realpath_def seqM_def bindM_def)

section \<open>Frames\<close>

text \<open>
  \<open>frame A\<close>: outside the paths in \<open>A\<close> nothing appears, disappears or changes its kind.
\<close>

definition frame :: "(path \<Rightarrow> bool) \<Rightarrow> world \<Rightarrow> world \<Rightarrow> bool" where
  "frame A w w' \<longleftrightarrow> (\<forall>q. \<not> A q \<longrightarrow> shape (fs w') q = shape (fs w) q)"

abbreviation no_shape :: "path \<Rightarrow> bool" where
  "no_shape \<equiv> \<lambda>_. False"

interpretation fr: step_rel "frame A" for A
  by unfold_locales (auto simp: frame_def)

lemma frame_no_shape_is_dir: "frame no_shape w w' \<Longrightarrow> is_dir (fs w') p = is_dir (fs w) p"
  by (simp add: frame_def is_dir_shape del: shape_simps)

lemma frame_keeps_dir: "frame A w w' \<Longrightarrow> \<not> A p \<Longrightarrow> map_of (fs w) p = Some Dir \<Longrightarrow> map_of (fs w') p = Some Dir"
  unfolding frame_def using map_of_shape_cong(2) by blast

lemma frame_mono: "frame A w w' \<Longrightarrow> (\<And>q. A q \<Longrightarrow> B q) \<Longrightarrow> frame B w w'"
  by (auto simp: frame_def)

lemma stays_frame_mono: "stays (frame A) m \<Longrightarrow> (\<And>q. A q \<Longrightarrow> B q) \<Longrightarrow> stays (frame B) m"
  by (erule stays_mono) (rule frame_mono)

lemma stays_no_shape: "stays (frame no_shape) m \<Longrightarrow> stays (frame A) m"
  by (erule stays_frame_mono) simp

lemma stays_below: "stays (frame (prefix p)) m \<Longrightarrow> prefix q p \<Longrightarrow> stays (frame (prefix q)) m"
  by (erule stays_frame_mono) (rule prefix_order.trans)

text \<open>A set of paths that has everything below a path.\<close>

definition below :: "path \<Rightarrow> (path \<Rightarrow> bool) \<Rightarrow> bool" where
  "below p A \<longleftrightarrow> (\<forall>q. prefix p q \<longrightarrow> A q)"

lemma below_prefix: "prefix q p \<Longrightarrow> below p (prefix q)"
  unfolding below_def using prefix_order.trans by blast

lemma below_strict: "strict_prefix q p \<Longrightarrow> below p (strict_prefix q)"
  unfolding below_def using prefix_order.less_le_trans by blast

lemma below_down: "below p A \<Longrightarrow> prefix p q \<Longrightarrow> below q A"
  unfolding below_def using prefix_order.trans by blast

lemma below_self: "below p A \<Longrightarrow> A p"
  by (simp add: below_def)

lemma stays_below_mono: "stays (frame (prefix p)) m \<Longrightarrow> below p A \<Longrightarrow> stays (frame A) m"
  by (erule stays_frame_mono) (simp add: below_def)

lemma kcall_stays:
  assumes "\<And>f f' q. c f = Inr f' \<Longrightarrow> \<not> A q \<Longrightarrow> shape f' q = shape f q"
  shows "stays (frame A) (kcall c p)"
  using assms by (auto simp: stays_wp wp frame_def split: sum.splits)

lemma read_text_stays [pres]: "stays (frame A) (read_text p)"
  by (auto simp: stays_wp wp frame_def split: option.splits node.splits sum.splits)

lemma listdir_stays [pres]: "stays (frame A) (listdir p)"
  by (auto simp: stays_wp wp frame_def)

lemma uuid4_stays [pres]: "stays (frame A) (uuid4 K)"
  by (auto simp: stays_wp wp frame_def)

lemma iterdir_stays [pres]:
  "(\<And>n c. stays (frame A) (body n c)) \<Longrightarrow> stays (frame A) (iterdir p body c)"
  unfolding iterdir_def by (intro fr.comb pres)

lemma glob_prefix_stays [pres]:
  "(\<And>n c. stays (frame A) (body n c)) \<Longrightarrow> stays (frame A) (glob_prefix p pre body c)"
  unfolding glob_prefix_def by (intro fr.comb fr.base pres)


section \<open>What the kernel promises\<close>

text \<open>
  The behaviour of configfs the library relies on (Documentation/filesystems/configfs.rst):
  \<^verbatim>\<open>mkdir\<close> makes a directory that was not there, with default groups and attributes below it;
  \<^verbatim>\<open>rmdir\<close> takes the directory and all below it away; storing an attribute changes the contents of
  files only; a link appears and disappears alone.
\<close>

locale configfs =
  fixes K :: env
  assumes mkdir_new: "k_mkdir K f p = Inr f' \<Longrightarrow> map_of f p = None \<and> map_of f' p = Some Dir"
    and mkdir_default: "k_mkdir K f p = Inr f' \<Longrightarrow> prefix p q \<Longrightarrow> \<not> is_symlink f' q"
    and mkdir_frame: "k_mkdir K f p = Inr f' \<Longrightarrow> \<not> prefix p q \<Longrightarrow> shape f' q = shape f q"
    and rmdir_gone: "k_rmdir K f p = Inr f' \<Longrightarrow> prefix p q \<Longrightarrow> map_of f' q = None"
    and rmdir_frame: "k_rmdir K f p = Inr f' \<Longrightarrow> \<not> prefix p q \<Longrightarrow> shape f' q = shape f q"
    and write_frame: "k_write K f p s = Inr f' \<Longrightarrow> shape f' q = shape f q"
    and symlink_new: "k_symlink K f src dst = Inr f' \<Longrightarrow> map_of f' dst = Some (Link src)"
    and symlink_frame: "k_symlink K f src dst = Inr f' \<Longrightarrow> q \<noteq> dst \<Longrightarrow> shape f' q = shape f q"
    and unlink_gone: "k_unlink K f p = Inr f' \<Longrightarrow> map_of f' p = None"
    and unlink_frame: "k_unlink K f p = Inr f' \<Longrightarrow> q \<noteq> p \<Longrightarrow> shape f' q = shape f q"
begin

lemma mkdir_stays: "stays (frame (prefix p)) (mkdir K p)"
  unfolding mkdir_def by (rule kcall_stays) (rule mkdir_frame)

lemma rmdir_stays: "stays (frame (prefix p)) (rmdir K p)"
  unfolding rmdir_def by (rule kcall_stays) (rule rmdir_frame)

lemma write_text_stays: "stays (frame A) (write_text K p s)"
  unfolding write_text_def by (rule kcall_stays) (rule write_frame)

lemma symlink_stays: "stays (frame (\<lambda>q. q = dst)) (symlink K src dst)"
  unfolding symlink_def by (rule kcall_stays) (rule symlink_frame)

lemma unlink_stays: "stays (frame (\<lambda>q. q = p)) (unlink K p)"
  unfolding unlink_def by (rule kcall_stays) (rule unlink_frame)

lemma mkdir_stays_below: "prefix p q \<Longrightarrow> stays (frame (prefix p)) (mkdir K q)"
  by (rule stays_below [OF mkdir_stays])

lemma rmdir_stays_below: "prefix p q \<Longrightarrow> stays (frame (prefix p)) (rmdir K q)"
  by (rule stays_below [OF rmdir_stays])

lemma symlink_stays_below: "prefix p dst \<Longrightarrow> stays (frame (prefix p)) (symlink K src dst)"
  by (rule stays_frame_mono [OF symlink_stays]) simp

lemma unlink_stays_below: "prefix p q \<Longrightarrow> stays (frame (prefix p)) (unlink K q)"
  by (rule stays_frame_mono [OF unlink_stays]) simp

lemma unlink_below: "below q A \<Longrightarrow> stays (frame A) (unlink K q)"
  by (rule stays_below_mono [OF unlink_stays_below]) auto

lemma symlink_below: "below dst A \<Longrightarrow> stays (frame A) (symlink K src dst)"
  by (rule stays_below_mono [OF symlink_stays_below]) auto

lemmas kernel_stays = mkdir_stays_below rmdir_stays_below write_text_stays
  symlink_stays_below unlink_stays_below

lemma wp_mkdir:
  assumes "\<And>f'. k_mkdir K (fs w) p = Inr f' \<Longrightarrow> Q () (w\<lparr>fs := f'\<rparr>)"
    and "\<And>e. k_mkdir K (fs w) p = Inl e \<Longrightarrow> E (OSErr e p) w"
  shows "wp (mkdir K p) Q E w"
  using assms by (auto simp: mkdir_def wp split: sum.splits)

end

end
