(* ===== verification/Kernel.thy ===== *)
theory Kernel
  imports ConfigFS
begin

text \<open>
  A concrete kernel for the parameter \<open>env\<close>: the LIO configfs tree with the default groups and
  attributes the library reads, refusing to remove an item that still has children of its own or is
  the target of a link. It discharges the laws of \<open>configfs\<close> and is the instance at which the
  properties of the library are witnessed.
\<close>

section \<open>Default groups and attributes\<close>

definition lio_root :: path where
  "lio_root = [''sys'', ''kernel'', ''config'', ''target'']"

definition attr_file :: "string \<Rightarrow> string \<Rightarrow> path \<times> node" where
  "attr_file n v = ([n], File 420 (Inr v))"

definition group :: "string \<Rightarrow> (path \<times> node) list \<Rightarrow> (path \<times> node) list" where
  "group n es = ([n], Dir) # map (\<lambda>(p, x). (n # p, x)) es"

definition auth_attrs :: "(path \<times> node) list" where
  "auth_attrs = map (\<lambda>n. attr_file n ''NULL'')
     [''userid'', ''password'', ''userid_mutual'', ''password_mutual''] @
     [([''authenticate_target''], File 292 (Inr ''0''))]"

definition alua_attrs :: "(path \<times> node) list" where
  "alua_attrs = [attr_file ''tg_pt_gp_id'' ''0'', attr_file ''alua_access_state'' ''0'',
     attr_file ''alua_access_type'' ''Implicit and Explicit'', attr_file ''alua_access_status'' ''None'',
     attr_file ''preferred'' ''0'', attr_file ''members'' ''''] @
     map (\<lambda>n. attr_file n ''0'') [''alua_write_metadata'', ''nonop_delay_msecs'', ''trans_delay_msecs'', ''implicit_trans_secs'',
       ''alua_support_offline'', ''alua_support_standby'', ''alua_support_transitioning'',
       ''alua_support_active_nonoptimized'', ''alua_support_unavailable'', ''alua_support_active_optimized'']"

text \<open>The entries, relative to the new directory, that making it at a path below the root creates.\<close>

definition default_entries :: "path \<Rightarrow> (path \<times> node) list" where
  "default_entries p =
     (if take 4 p \<noteq> lio_root then []
      else (case drop 4 p of
          [fab] \<Rightarrow> (if fab = ''core'' then []
            else group ''discovery_auth'' (attr_file ''enforce_discovery_auth'' ''0'' # auth_attrs))
        | [a, b] \<Rightarrow> []
        | [a, b, c] \<Rightarrow>
            (if a = ''core''
             then [attr_file ''enable'' ''0'', attr_file ''control'' '''', attr_file ''udev_path'' '''',
                   attr_file ''info'' ''Status: ACTIVATED''] @
                  group ''attrib'' [attr_file ''emulate_write_cache'' ''0''] @
                  group ''wwn'' [attr_file ''vpd_unit_serial'' ''T10 VPD Unit Serial Number: ''] @
                  group ''alua'' (group ''default_tg_pt_gp'' alua_attrs)
             else [attr_file ''enable'' ''0'', attr_file ''nexus'' ''''] @
                  group ''lun'' [] @ group ''np'' [] @ group ''acls'' [] @
                  group ''attrib'' [attr_file ''authentication'' ''0''] @
                  group ''param'' [attr_file ''MaxConnections'' ''1''] @ group ''auth'' auth_attrs)
        | [a, b, c, d, e] \<Rightarrow>
            (if a = ''core'' then alua_attrs
             else if d = ''lun'' then [attr_file ''alua_tg_pt_gp'' ''TG Port Alias: default_tg_pt_gp'']
             else if d = ''np'' then [attr_file ''iser'' ''0'']
             else [attr_file ''cmdsn_depth'' ''16'', attr_file ''tag'' ''''] @
                  group ''attrib'' [attr_file ''nopin_timeout'' ''15''] @ group ''auth'' auth_attrs)
        | [a, b, c, d, e, f] \<Rightarrow> [attr_file ''write_protect'' ''0'']
        | _ \<Rightarrow> []))"

section \<open>The system calls\<close>

definition lio_mkdir :: "fsys \<Rightarrow> path \<Rightarrow> errno + fsys" where
  "lio_mkdir f p =
     (if map_of f p \<noteq> None then Inl EEXIST
      else if p = [] \<or> map_of f (butlast p) \<noteq> Some Dir then Inl ENOENT
      else Inr (filter (\<lambda>(q, _). \<not> prefix p q) f @
                (p, Dir) # map (\<lambda>(q, n). (p @ q, n))
                  (filter (\<lambda>(q, _). q \<noteq> []) (default_entries p))))"

definition lio_rmdir :: "fsys \<Rightarrow> path \<Rightarrow> errno + fsys" where
  "lio_rmdir f p =
     (if map_of f p \<noteq> Some Dir then Inl ENOENT
      else if \<exists>(q, n) \<in> set f. strict_prefix p q \<and>
                 drop (length p) q \<notin> fst ` set (default_entries p)
      then Inl ENOTEMPTY
      else if \<exists>(q, n) \<in> set f. (case n of Link r \<Rightarrow> prefix p r | _ \<Rightarrow> False) then Inl EBUSY
      else Inr (filter (\<lambda>(q, _). \<not> prefix p q) f))"

text \<open>What an attribute shows after a store.\<close>

definition lio_show :: "path \<Rightarrow> string \<Rightarrow> string" where
  "lio_show p s =
     (if p \<noteq> [] \<and> last p = ''vpd_unit_serial'' then ''T10 VPD Unit Serial Number: '' @ s else s)"

definition lio_write :: "fsys \<Rightarrow> path \<Rightarrow> string \<Rightarrow> errno + fsys" where
  "lio_write f p s =
     (case map_of f p of
        Some (File m _) \<Rightarrow>
          if owner_writable m then Inr (dict_set f p (File m (Inr (lio_show p s)))) else Inl EACCES
      | Some Dir \<Rightarrow> Inl EISDIR
      | _ \<Rightarrow> Inl EPERM)"

definition lio_symlink :: "fsys \<Rightarrow> path \<Rightarrow> path \<Rightarrow> errno + fsys" where
  "lio_symlink f src dst =
     (if map_of f dst \<noteq> None then Inl EEXIST
      else if map_of f src \<noteq> Some Dir then Inl ENOENT
      else if dst = [] \<or> map_of f (butlast dst) \<noteq> Some Dir then Inl ENOENT
      else Inr (f @ [(dst, Link src)]))"

definition lio_unlink :: "fsys \<Rightarrow> path \<Rightarrow> errno + fsys" where
  "lio_unlink f p = (if is_symlink f p then Inr (dict_del f p) else Inl EPERM)"

definition hex_digit :: "nat \<Rightarrow> char" where
  "hex_digit d = (if d < 10 then char_of (48 + d) else char_of (87 + d))"

text \<open>A source of UUIDs in the canonical form: the counter in the last field.\<close>

definition lio_uuid :: "nat \<Rightarrow> string" where
  "lio_uuid n = ''6ba7b810-9dad-41d1-80b4-00c04fd4'' @
     map (\<lambda>i. hex_digit (n div 16 ^ i mod 16)) [3, 2, 1, 0]"

text \<open>One disk, known by its device file and its kernel name.\<close>

definition lio_udev :: "string \<Rightarrow> exn + udev" where
  "lio_udev n = (if n \<in> {''/dev/sda'', ''sda''}
     then Inr (Udev ''block'' (Some ''disk'')
       [(''size'', ''2048''), (''queue/logical_block_size'', ''512''), (''device/type'', ''0'')] ''sda'' (Some ''/dev/sda'')
       (Some (Udev ''scsi'' (Some ''scsi_device'') [] ''0:0:0:0'' None None)))
     else Inl (DeviceNotFoundErr n))"

definition lio :: env where
  "lio = \<lparr>k_mkdir = lio_mkdir, k_rmdir = lio_rmdir, k_write = lio_write,
     k_symlink = lio_symlink, k_unlink = lio_unlink, k_uuid = lio_uuid,
     k_hostname = ''storage_1.example.org'', k_machine = ''x86_64'', 
     k_is_mount = (\<lambda>f p. True), k_shell = (\<lambda>f c. ((1, ''command not found''), f)),
     k_kmod = None, k_os_msg = (\<lambda>e p. path_str p),
     k_lock_file = (\<lambda>f. None), k_udev_file = lio_udev, k_udev_name = (\<lambda>sub n. lio_udev n),
     k_udev_block = (\<lambda>d. [d]), k_open_excl = (\<lambda>p rw. None), k_pagesize = 4096, k_is_block = (\<lambda>f p. p = [''dev'', ''sda'']),
     k_disk_fault = (\<lambda>d op. None)\<rparr>"

lemma lio_sel [simp]:
  "k_mkdir lio = lio_mkdir" "k_rmdir lio = lio_rmdir" "k_write lio = lio_write"
  "k_symlink lio = lio_symlink" "k_unlink lio = lio_unlink" "k_uuid lio = lio_uuid"
  "k_hostname lio = ''storage_1.example.org''" "k_machine lio = ''x86_64''"
  by (simp_all add: lio_def)

section \<open>It behaves like configfs\<close>

lemma map_of_filter_path:
  "map_of (filter (\<lambda>(q, _). P q) f) q = (if P q then map_of f q else None)"
  by (induction f) auto

lemma default_entries_no_link: "(q, n) \<in> set (default_entries p) \<Longrightarrow> n \<noteq> Link r"
  by (auto simp: default_entries_def group_def attr_file_def auth_attrs_def alua_attrs_def
      split: list.splits if_splits)

lemma map_of_below: "map_of (map (\<lambda>(q, n). (p @ q, n)) es) r =
    (if prefix p r then map_of es (drop (length p) r) else None)"
  by (induction es) (auto simp: prefix_def)

lemma lio_mkdir_Inr:
  assumes "lio_mkdir f p = Inr f'"
  shows "map_of f p = None" and "map_of f' p = Some Dir"
    and "prefix p q \<Longrightarrow> map_of f' q \<noteq> Some (Link r)"
    and "\<not> prefix p q \<Longrightarrow> map_of f' q = map_of f q"
proof -
  let ?es = "filter (\<lambda>(q, _). q \<noteq> []) (default_entries p)"
  have f': "f' = filter (\<lambda>(q, _). \<not> prefix p q) f @ (p, Dir) # map (\<lambda>(q, n). (p @ q, n)) ?es"
    and new: "map_of f p = None"
    using assms by (auto simp: lio_mkdir_def split: if_splits)
  have eq: "map_of f' q = (if \<not> prefix p q then map_of f q
      else if q = p then Some Dir else map_of ?es (drop (length p) q))" for q
    by (auto simp: f' map_add_def map_of_filter_path map_of_below split: option.splits)
  show "map_of f p = None" by (rule new)
  show "map_of f' p = Some Dir" by (simp add: eq)
  show "\<not> prefix p q \<Longrightarrow> map_of f' q = map_of f q" by (simp add: eq)
  show "prefix p q \<Longrightarrow> map_of f' q \<noteq> Some (Link r)"
    by (auto simp: eq dest!: map_of_SomeD default_entries_no_link)
qed

lemma lio_rmdir_Inr:
  assumes "lio_rmdir f p = Inr f'"
  shows "map_of f' q = (if prefix p q then None else map_of f q)"
  using assms by (auto simp: lio_rmdir_def map_of_filter_path split: if_splits)

lemma lio_write_Inr:
  assumes "lio_write f p s = Inr f'"
  shows "\<exists>m c. map_of f p = Some (File m c) \<and> map_of f' = (map_of f)(p \<mapsto> File m (Inr (lio_show p s)))"
  using assms by (auto simp: lio_write_def split: option.splits node.splits if_splits)

lemma lio_symlink_Inr:
  assumes "lio_symlink f src dst = Inr f'"
  shows "map_of f' = (map_of f)(dst \<mapsto> Link src)"
proof -
  have "map_of f dst = None" and "f' = f @ [(dst, Link src)]"
    using assms by (auto simp: lio_symlink_def split: if_splits)
  then show ?thesis by (auto simp: map_add_def fun_eq_iff split: option.splits)
qed

lemma lio_unlink_Inr: "lio_unlink f p = Inr f' \<Longrightarrow> map_of f' = (map_of f)(p := None)"
  by (auto simp: lio_unlink_def split: if_splits)

lemma shape_cong: "map_of f' q = map_of f q \<Longrightarrow> shape f' q = shape f q"
  by (simp add: shape_def)

interpretation lio_fs: configfs lio
proof
  fix f p f' q s src dst
  show "k_mkdir lio f p = Inr f' \<Longrightarrow> map_of f p = None \<and> map_of f' p = Some Dir"
    by (simp add: lio_mkdir_Inr)
  show "k_mkdir lio f p = Inr f' \<Longrightarrow> prefix p q \<Longrightarrow> \<not> is_symlink f' q"
    using lio_mkdir_Inr(3) by (auto simp: is_symlink_def split: option.splits node.splits)
  show "k_mkdir lio f p = Inr f' \<Longrightarrow> \<not> prefix p q \<Longrightarrow> shape f' q = shape f q"
    by (rule shape_cong) (simp add: lio_mkdir_Inr)
  show "k_rmdir lio f p = Inr f' \<Longrightarrow> prefix p q \<Longrightarrow> map_of f' q = None"
    by (simp add: lio_rmdir_Inr)
  show "k_rmdir lio f p = Inr f' \<Longrightarrow> \<not> prefix p q \<Longrightarrow> shape f' q = shape f q"
    by (rule shape_cong) (simp add: lio_rmdir_Inr)
  show "k_write lio f p s = Inr f' \<Longrightarrow> shape f' q = shape f q"
    using lio_write_Inr by (fastforce simp: shape_def)
  show "k_symlink lio f src dst = Inr f' \<Longrightarrow> map_of f' dst = Some (Link src)"
    by (simp add: lio_symlink_Inr)
  show "k_symlink lio f src dst = Inr f' \<Longrightarrow> q \<noteq> dst \<Longrightarrow> shape f' q = shape f q"
    by (rule shape_cong) (simp add: lio_symlink_Inr)
  show "k_unlink lio f p = Inr f' \<Longrightarrow> map_of f' p = None"
    by (simp add: lio_unlink_Inr)
  show "k_unlink lio f p = Inr f' \<Longrightarrow> q \<noteq> p \<Longrightarrow> shape f' q = shape f q"
    by (rule shape_cong) (simp add: lio_unlink_Inr)
qed

section \<open>A world to start from\<close>

text \<open>The tree after the core module and the iSCSI fabric module are loaded.\<close>

definition world0 :: world where
  "world0 = \<lparr>fs = [([''sys'', ''kernel'', ''config'', ''target''], Dir),
     ([''sys'', ''kernel'', ''config'', ''target'', ''core''], Dir),
     ([''sys'', ''kernel'', ''config'', ''target'', ''iscsi''], Dir),
     ([''sys'', ''kernel'', ''config'', ''target'', ''loopback''], Dir)], bs_cache = [], uuids = 0, errors = [],
     disk_files = [], cur_umask = 18\<rparr>"

end
