(* ===== verification/Utils.thy ===== *)
theory Utils
  imports Kernel
begin

text \<open>
  \<^verbatim>\<open>utils.py\<close>: reading and writing one attribute file, the authentication attributes with their
  \<open>NULL\<close> sentinel, applying dictionaries of attributes and parameters, and loading kernel modules.
  Methods that a caller's class provides (\<^verbatim>\<open>_check_self\<close>, \<^verbatim>\<open>set_attribute\<close>) are arguments.
\<close>

section \<open>Files\<close>

definition fwrite :: "env \<Rightarrow> path \<Rightarrow> string \<Rightarrow> unit W" where
  "fwrite K p s = write_text K p s"

definition fread :: "path \<Rightarrow> string W" where
  "fread p = bindM (read_text p) (\<lambda>s. ret (strip s))"

definition is_dirM :: "path \<Rightarrow> bool W" where
  "is_dirM p = gets (\<lambda>w. is_dir (fs w) p)"

definition is_fileM :: "path \<Rightarrow> bool W" where
  "is_fileM p = gets (\<lambda>w. is_file (fs w) p)"

definition is_symlinkM :: "path \<Rightarrow> bool W" where
  "is_symlinkM p = gets (\<lambda>w. is_symlink (fs w) p)"

definition realpathM :: "path \<Rightarrow> path W" where
  "realpathM p = gets (\<lambda>w. realpath (fs w) p)"

lemmas fileM_defs = is_dirM_def is_fileM_def is_symlinkM_def realpathM_def

lemma fread_stays [pres]: "stays (frame A) (fread p)"
  unfolding fread_def by (intro fr.comb fr.base pres)

lemma fileM_stays [pres]:
  "stays (frame A) (is_dirM p)" "stays (frame A) (is_fileM p)"
  "stays (frame A) (is_symlinkM p)" "stays (frame A) (realpathM p)"
  by (simp_all add: fileM_defs fr.gets_stays)

context configfs
begin

lemma fwrite_stays: "stays (frame A) (fwrite K p s)"
  unfolding fwrite_def by (rule write_text_stays)

end

section \<open>Dictionaries and error handling\<close>

definition dict_remove :: "('k \<times> 'v) list \<Rightarrow> 'k list \<Rightarrow> ('k \<times> 'v) list" where
  "dict_remove d items = foldl (\<lambda>d k. if k \<in> fst ` set d then dict_del d k else d) d items"

lemma map_of_dict_remove:
  "map_of (dict_remove d ks) = (\<lambda>k. if k \<in> set ks then None else map_of d k)"
proof (induction ks arbitrary: d)
  case (Cons k ks)
  have "map_of (if k \<in> fst ` set d then dict_del d k else d) = (map_of d)(k := None)"
    by (auto simp: fun_eq_iff map_of_eq_None_iff)
  with Cons [of "if k \<in> fst ` set d then dict_del d k else d"] show ?case
    by (auto simp: dict_remove_def fun_eq_iff map_of_eq_None_iff split: if_splits)
qed (simp add: dict_remove_def)

lemma keys_dict_remove: "fst ` set (dict_remove d ks) = fst ` set d - set ks"
proof -
  have "dom (map_of (dict_remove d ks)) = dom (map_of d) - set ks"
    by (auto simp: map_of_dict_remove split: if_splits)
  then show ?thesis by (simp add: dom_map_of_conv_image_fst)
qed

text \<open>\<^verbatim>\<open>with ignored(E): m\<close>; the exceptions that \<^verbatim>\<open>E\<close> names are swallowed.\<close>

definition ignored :: "(exn \<Rightarrow> bool) \<Rightarrow> unit W \<Rightarrow> unit W" where
  "ignored ex m = catchM m (\<lambda>e. if ex e then ret () else raise e)"

lemma ignored_stays [pres]: "stays (frame A) m \<Longrightarrow> stays (frame A) (ignored ex m)"
  unfolding ignored_def by (intro fr.comb fr.base pres)

section \<open>Authentication attributes\<close>

definition get_auth_attr :: "unit W \<Rightarrow> path \<Rightarrow> string \<Rightarrow> bool \<Rightarrow> string option W" where
  "get_auth_attr check self_path attribute ignore =
     seqM check
       (try_else (fread (pjoin self_path attribute))
          (\<lambda>e. if \<not> ignore then raise e else ret None)
          (\<lambda>value. ret (Some (if value = ''NULL'' then '''' else value))))"

definition set_auth_attr :: "env \<Rightarrow> unit W \<Rightarrow> path \<Rightarrow> pyval \<Rightarrow> string \<Rightarrow> bool \<Rightarrow> unit W" where
  "set_auth_attr K check self_path value attribute ignore =
     seqM check
       (case value of
          PStr s \<Rightarrow>
            (let v = strip s in
             if v = ''NULL'' then raise (RTSLibError ([CHR 0x27] @ ''NULL'' @ [CHR 0x27] @ '' is not a permitted value''))
             else if length v > 255
             then raise (RTSLibError (''Value longer than maximum length of '' @ str_of_int 255))
             else catchM (fwrite K (pjoin self_path attribute) (if v = '''' then ''NULL'' else v))
                    (\<lambda>e. if \<not> ignore then raise e else ret ()))
        | _ \<Rightarrow> raise (AttributeErr ''strip''))"

section \<open>Applying attributes and parameters\<close>

text \<open>
  \<^verbatim>\<open>err_func\<close> gets the message of every \<^verbatim>\<open>RTSLibError\<close>; other exceptions are not caught.
\<close>

definition set_attributes :: "env \<Rightarrow> (string \<Rightarrow> pyval \<Rightarrow> unit W) \<Rightarrow> pydict \<Rightarrow> (string \<Rightarrow> unit W) \<Rightarrow> unit W" where
  "set_attributes K set_attribute attr_dict err_func =
     for_each (iter attr_dict) (\<lambda>(name, value).
       catchM (set_attribute name value)
         (\<lambda>e. if is_rtslib_error e then err_func (exn_str K e) else raise e))"

definition set_parameters :: "env \<Rightarrow> (string \<Rightarrow> pyval \<Rightarrow> unit W) \<Rightarrow> pydict \<Rightarrow> (string \<Rightarrow> unit W) \<Rightarrow> unit W" where
  "set_parameters K set_parameter param_dict err_func =
     for_each (iter param_dict) (\<lambda>(name, value).
       catchM (set_parameter name value)
         (\<lambda>e. if is_rtslib_error e then err_func (exn_str K e) else raise e))"

section \<open>Kernel modules\<close>

definition proc_modules :: path where
  "proc_modules = [''proc'', ''modules'']"

definition list_loaded_kernel_modules :: "string list W" where
  "list_loaded_kernel_modules =
     bindM (fread proc_modules)
       (\<lambda>s. ret (map (\<lambda>line. hd (split_on (CHR '' '') line))
                  (filter (\<lambda>line. line \<noteq> []) (split_on newline s))))"

definition run_shell :: "env \<Rightarrow> string \<Rightarrow> (int \<times> string) W" where
  "run_shell K cmd = (\<lambda>w. let (r, f) = k_shell K (fs w) cmd in (Ok r, w\<lparr>fs := f\<rparr>))"

definition modprobe :: "env \<Rightarrow> string \<Rightarrow> unit W" where
  "modprobe K module =
     bindM list_loaded_kernel_modules (\<lambda>mods.
       if module \<in> set mods then ret ()
       else (case k_kmod K of
          None \<Rightarrow>
            bindM (run_shell K (''modprobe '' @ module)) (\<lambda>(rc, err).
              if rc \<noteq> 0 then raise (RTSLibError (rstrip err)) else ret ())
        | Some load \<Rightarrow>
            (\<lambda>w. case load (fs w) module of
               None \<Rightarrow> (Err (RTSLibError (''Could not load module: '' @ module)), w)
             | Some f \<Rightarrow> (Ok (), w\<lparr>fs := f\<rparr>))))"

text \<open>
  The command is a plain string literal in the source, not an f-string: the braces reach the shell.
\<close>

definition mount_configfs :: "env \<Rightarrow> unit W" where
  "mount_configfs K =
     (let config_dir = [''sys'', ''kernel'', ''config''] in
      bindM (gets (\<lambda>w. k_is_mount K (fs w) config_dir)) (\<lambda>mounted.
        if mounted then ret ()
        else bindM (run_shell K ''mount -t configfs none {config_dir}'') (\<lambda>(rc, err).
          if rc = 0 then ret ()
          else bindM (gets (\<lambda>w. k_is_mount K (fs w) config_dir)) (\<lambda>mounted2.
            if \<not> mounted2 then raise (RTSLibError ''Cannot mount configfs'') else ret ()))))"

lemma wp_run_shell [wp]:
  "wp (run_shell K cmd) Q E w = Q (fst (k_shell K (fs w) cmd)) (w\<lparr>fs := snd (k_shell K (fs w) cmd)\<rparr>)"
  by (simp add: wp_def run_shell_def split: prod.splits)

section \<open>The authentication attributes as a store\<close>

text \<open>An attribute that shows what was stored in it: the text differs from the stored one at most by white space at the
  ends, such as the newline that the kernel's show functions append.\<close>

definition echoes :: "env \<Rightarrow> path \<Rightarrow> fsys \<Rightarrow> bool" where
  "echoes K p f \<longleftrightarrow> (\<forall>s f'. k_write K f p s = Inr f' \<longrightarrow>
      (\<exists>m t. map_of f' (realpath f' p) = Some (File m (Inr t)) \<and> strip t = strip s))"

lemma fread_after_fwrite:
  assumes "echoes K p (fs w)" and "fwrite K p s w = (Ok (), w')"
  shows "fread p w' = (Ok (strip s), w')"
proof -
  obtain f' where f': "k_write K (fs w) p s = Inr f'" and w': "w' = w\<lparr>fs := f'\<rparr>"
    using assms(2)
    by (auto simp: fwrite_def write_text_def kcall_def split: sum.splits)
  then obtain m t where "map_of f' (realpath f' p) = Some (File m (Inr t))" "strip t = strip s"
    using assms(1) unfolding echoes_def by blast
  then show ?thesis
    unfolding run_eq by (simp add: fread_def wp w')
qed

lemma set_auth_attr_Ok:
  assumes "set_auth_attr K check p (PStr s) attribute False w = (Ok (), w')"
    and "check w = (Ok (), w)"
  shows "strip s \<noteq> ''NULL''" and "length (strip s) \<le> 255"
    and "fwrite K (pjoin p attribute) (if strip s = '''' then ''NULL'' else strip s) w = (Ok (), w')"
  using assms
  by (auto simp: set_auth_attr_def seqM_def bindM_def raise_def catchM_def Let_def
      split: if_splits prod.splits res.splits)

end
