(* ===== verification/Wwn.thy ===== *)
theory Wwn
  imports Utils
begin

text \<open>
  World-wide names (\<^verbatim>\<open>utils.py\<close>): generating, cleaning and validating them. The regular
  expressions of \<^verbatim>\<open>normalize_wwn\<close> are matchers on the rest of the string; \<open>at_end\<close> is Python's
  \<^verbatim>\<open>$\<close>, which also matches before a final newline. The theory shows that a normalised name is a
  fixed point of normalisation, which notations of a hexadecimal name are accepted and what they normalise to,
  and that generated names are normal.
\<close>

section \<open>Generation\<close>

text \<open>\<^verbatim>\<open>s[-n:]\<close>, and \<^verbatim>\<open>uuid.uuid4().hex\<close> from the canonical form of the UUID.\<close>

definition last_n :: "nat \<Rightarrow> string \<Rightarrow> string" where
  "last_n n s = drop (length s - n) s"

definition uuid_hex :: "string \<Rightarrow> string" where
  "uuid_hex s = remove_char (CHR ''-'') s"

definition generate_wwn :: "env \<Rightarrow> string \<Rightarrow> string W" where
  "generate_wwn K type0 =
     (let wwn_type = lower type0 in
      if wwn_type = ''free'' then uuid4 K
      else if wwn_type = ''unit_serial'' then uuid4 K
      else if wwn_type = ''iqn'' then
        (let localname = remove_char (CHR ''_'') (hd (split_on (CHR ''.'') (k_hostname K)));
             localarch = remove_char (CHR ''_'') (k_machine K);
             pre = lower (strip (''iqn.2003-01.org.linux-iscsi.'' @ localname @ ''.'' @ localarch))
         in bindM (uuid4 K) (\<lambda>u. ret (pre @ '':'' @ ''sn.'' @ drop 24 u)))
      else if wwn_type = ''naa'' then bindM (uuid4 K) (\<lambda>u. ret (''naa.5001405'' @ last_n 9 (uuid_hex u)))
      else if wwn_type = ''eui'' then bindM (uuid4 K) (\<lambda>u. ret (''eui.001405'' @ last_n 10 (uuid_hex u)))
      else raise (ValueErr (''Unknown WWN type: '' @ wwn_type)))"

lemma generate_wwn_stays [pres]: "stays (frame A) (generate_wwn K t)"
  unfolding generate_wwn_def Let_def by (intro fr.comb fr.base pres)

section \<open>Colons\<close>

fun pairs :: "string \<Rightarrow> string list" where
  "pairs [] = []"
| "pairs [c] = [[c]]"
| "pairs (c # d # cs) = [c, d] # pairs cs"

definition colonize :: "string \<Rightarrow> string" where
  "colonize s = join '':'' (pairs s)"

lemma remove_char_join_pairs:
  assumes "c \<notin> set s"
  shows "remove_char c (join [c] (pairs s)) = s"
  using assms
proof (induction s rule: pairs.induct)
  case (3 a b cs)
  then show ?case by (cases "pairs cs") (auto simp: remove_char_def)
qed (auto simp: remove_char_def)

section \<open>Cleaning and testing\<close>

definition cleanse_wwn :: "string \<Rightarrow> string \<Rightarrow> string" where
  "cleanse_wwn wwn_type wwn0 =
     (let wwn = lower (strip wwn0) in
      if wwn_type \<in> {''naa'', ''eui'', ''ib''} then
        (let wwn = removeprefix wwn ''0x'';
             wwn = remove_char (CHR ''-'') wwn;
             wwn = remove_char (CHR '':'') wwn
         in if \<not> (startswith wwn ''naa.'' \<or> startswith wwn ''eui.'' \<or> startswith wwn ''ib.'')
            then wwn_type @ ''.'' @ wwn else wwn)
      else wwn)"

text \<open>A matcher takes what its part of the expression matches off the front.\<close>

type_synonym matcher = "string \<Rightarrow> string option"

definition m_lit :: "string \<Rightarrow> matcher" where
  "m_lit l s = (if startswith s l then Some (drop (length l) s) else None)"

fun m_class :: "(char \<Rightarrow> bool) \<Rightarrow> nat \<Rightarrow> matcher" where
  "m_class p 0 s = Some s"
| "m_class p (Suc n) [] = None"
| "m_class p (Suc n) (c # cs) = (if p c then m_class p n cs else None)"

fun m_seq :: "matcher list \<Rightarrow> matcher" where
  "m_seq [] s = Some s"
| "m_seq (m # ms) s = (case m s of None \<Rightarrow> None | Some r \<Rightarrow> m_seq ms r)"

definition at_end :: "string \<Rightarrow> bool" where
  "at_end s = (s = [] \<or> s = [newline])"

definition matches_to_end :: "matcher list \<Rightarrow> string \<Rightarrow> bool" where
  "matches_to_end ms s = (case m_seq ms s of None \<Rightarrow> False | Some r \<Rightarrow> at_end r)"

definition naa_first :: "char \<Rightarrow> bool" where
  "naa_first c = (c \<in> {CHR ''1'', CHR ''2'', CHR ''5''} \<or>
     (let n = (of_char c :: nat) in 99 \<le> n \<and> n \<le> 102 \<or> 67 \<le> n \<and> n \<le> 70))"

definition iqn_test :: "string \<Rightarrow> bool" where
  "iqn_test w =
     ((case m_seq [m_lit ''iqn.'', m_class is_digit 4, m_lit ''-'',
                   m_class (\<lambda>c. c \<in> {CHR ''0'', CHR ''1''}) 1, m_class is_digit 1, m_lit ''.''] w of
         None \<Rightarrow> False
       | Some r \<Rightarrow> CHR ''.'' \<in> set (takeWhile (\<lambda>c. c \<noteq> newline) r)) \<and>
      CHR '' '' \<notin> set w \<and> CHR ''_'' \<notin> set w)"

definition naa_test :: "string \<Rightarrow> bool" where
  "naa_test w = matches_to_end [m_lit ''naa.'', m_class naa_first 1, m_class is_hex 15] w"

definition eui_test :: "string \<Rightarrow> bool" where
  "eui_test w = matches_to_end [m_lit ''eui.'', m_class is_hex_lower 16] w"

definition ib_test :: "string \<Rightarrow> bool" where
  "ib_test w = matches_to_end [m_lit ''ib.'', m_class is_hex_lower 32] w"

definition unit_serial_test :: "string \<Rightarrow> bool" where
  "unit_serial_test w = matches_to_end [m_class is_hex 8, m_lit ''-'', m_class is_hex 4, m_lit ''-'',
     m_class is_hex 4, m_lit ''-'', m_class is_hex 4, m_lit ''-'', m_class is_hex 12] w"

definition wwn_test :: "string \<Rightarrow> string \<Rightarrow> exn + bool" where
  "wwn_test t w =
     (if t = ''free'' then Inr True
      else if t = ''iqn'' then Inr (iqn_test w)
      else if t = ''naa'' then Inr (naa_test w)
      else if t = ''eui'' then Inr (eui_test w)
      else if t = ''ib'' then Inr (ib_test w)
      else if t = ''unit_serial'' then Inr (unit_serial_test w)
      else Inl (KeyErr t))"

fun normalize_loop :: "string list \<Rightarrow> string \<Rightarrow> exn + (string \<times> string) option" where
  "normalize_loop [] wwn = Inr None"
| "normalize_loop (t # ts) wwn =
     (let clean_wwn = cleanse_wwn t wwn in
      case wwn_test t clean_wwn of
        Inl e \<Rightarrow> Inl e
      | Inr found \<Rightarrow> if found then Inr (Some (clean_wwn, t)) else normalize_loop ts wwn)"

definition normalize_wwn :: "string list \<Rightarrow> string \<Rightarrow> exn + string \<times> string" where
  "normalize_wwn wwn_types wwn =
     (case normalize_loop wwn_types wwn of
        Inl e \<Rightarrow> Inl e
      | Inr None \<Rightarrow> Inl (RTSLibError (''WWN not valid as: '' @ join '', '' wwn_types))
      | Inr (Some r) \<Rightarrow> Inr r)"

section \<open>Matchers\<close>

lemma m_lit_Some: "m_lit l s = Some r \<longleftrightarrow> s = l @ r"
  by (auto simp: m_lit_def startswith_def) (metis append_take_drop_id)

lemma m_class_Some:
  "m_class p n s = Some r \<longleftrightarrow> (\<exists>u. s = u @ r \<and> length u = n \<and> (\<forall>c \<in> set u. p c))"
proof (induction p n s rule: m_class.induct)
  case (3 p n c cs)
  show ?case
  proof
    assume "m_class p (Suc n) (c # cs) = Some r"
    then obtain u where "cs = u @ r" "length u = n" "\<forall>c \<in> set u. p c" "p c"
      using 3 by (auto split: if_splits)
    then show "\<exists>u. c # cs = u @ r \<and> length u = Suc n \<and> (\<forall>c \<in> set u. p c)"
      by (intro exI [of _ "c # u"]) auto
  next
    assume "\<exists>u. c # cs = u @ r \<and> length u = Suc n \<and> (\<forall>c \<in> set u. p c)"
    then show "m_class p (Suc n) (c # cs) = Some r"
      using 3 by (auto simp: length_Suc_conv)
  qed
qed auto

lemma m_class_append [simp]:
  "length u = n \<Longrightarrow> \<forall>c \<in> set u. p c \<Longrightarrow> m_class p n (u @ r) = Some r"
  by (auto simp: m_class_Some)

lemma m_lit_append [simp]: "m_lit l (l @ r) = Some r"
  by (simp add: m_lit_Some)

lemma m_seq_Some:
  "m_seq (m # ms) s = Some r \<longleftrightarrow> (\<exists>t. m s = Some t \<and> m_seq ms t = Some r)"
  by (auto split: option.splits)

declare m_seq.simps(2) [simp del]

lemma matches_to_end_iff: "matches_to_end ms s \<longleftrightarrow> (\<exists>r. m_seq ms s = Some r \<and> at_end r)"
  by (auto simp: matches_to_end_def split: option.splits)

text \<open>The hexadecimal types, with the trailing part that only a newline can make non-empty.\<close>

lemma naa_test_iff:
  "naa_test w \<longleftrightarrow>
   (\<exists>c u r. w = ''naa.'' @ c # u @ r \<and> naa_first c \<and> length u = 15 \<and> (\<forall>x \<in> set u. is_hex x) \<and> at_end r)"
  (is "?l \<longleftrightarrow> ?r")
proof
  assume ?l
  then obtain t s u v r where "w = ''naa.'' @ t" "t = u @ s" "length u = 1" "\<forall>c \<in> set u. naa_first c"
      "s = v @ r" "length v = 15" "\<forall>c \<in> set v. is_hex c" "at_end r"
    by (auto simp: naa_test_def matches_to_end_iff m_seq_Some m_lit_Some m_class_Some
        simp del: One_nat_def)
  then have "\<exists>c. w = ''naa.'' @ c # v @ r \<and> naa_first c"
    by (auto simp: length_Suc_conv)
  with \<open>length v = 15\<close> \<open>\<forall>c \<in> set v. is_hex c\<close> \<open>at_end r\<close> show ?r by blast
next
  assume ?r
  then obtain c u r where w: "w = ''naa.'' @ c # u @ r" and "naa_first c" "length u = 15"
      "\<forall>x \<in> set u. is_hex x" "at_end r"
    by blast
  then have "m_seq [m_lit ''naa.'', m_class naa_first 1, m_class is_hex 15] w = Some r"
    unfolding m_seq_Some m_lit_Some by (intro exI conjI) auto
  with \<open>at_end r\<close> show ?l by (auto simp: naa_test_def matches_to_end_iff)
qed

lemma hex_test_iff:
  "matches_to_end [m_lit l, m_class p n] w \<longleftrightarrow>
   (\<exists>u r. w = l @ u @ r \<and> length u = n \<and> (\<forall>x \<in> set u. p x) \<and> at_end r)"
  by (auto simp: matches_to_end_iff m_seq_Some m_lit_Some m_class_Some)

lemma naa_first_hex: "naa_first c \<Longrightarrow> is_hex c"
  by (auto simp: naa_first_def is_hex_def Let_def)

section \<open>Normal forms\<close>

lemma lower_char_cleanse:
  assumes "\<forall>c \<in> set t. lower_char c = c" and "c \<in> set (cleanse_wwn t w)"
  shows "lower_char c = c"
proof -
  have l: "lower_char x = x" if "x \<in> set (lower (strip w))" for x
    using that by (auto simp: lower_def)
  have "c \<in> set (removeprefix (lower (strip w)) ''0x'') \<Longrightarrow> c \<in> set (lower (strip w))"
    by (auto simp: removeprefix_def split: if_splits dest: in_set_dropD)
  moreover have "lower_char (CHR ''.'') = CHR ''.''"
    by (simp add: lower_char_id)
  ultimately show ?thesis
    using assms l by (auto simp: cleanse_wwn_def Let_def remove_char_def split: if_splits)
qed

lemma newline_cleanse:
  assumes "newline \<notin> set w" and "newline \<notin> set t"
  shows "newline \<notin> set (cleanse_wwn t w)"
proof -
  have n: "newline \<notin> set (lower (strip w))"
    using assms(1) set_strip [of w] by (auto simp: lower_def) (metis lower_char_newline subsetD)
  then have "newline \<notin> set (removeprefix (lower (strip w)) ''0x'')"
    by (auto simp: removeprefix_def split: if_splits dest: in_set_dropD)
  moreover have "newline \<noteq> CHR ''.''" by (simp add: newline_def)
  ultimately show ?thesis
    using assms(2) n by (auto simp: cleanse_wwn_def Let_def remove_char_def)
qed

text \<open>A prefixed name with hexadecimal digits after the prefix is already clean.\<close>

lemma cleanse_prefixed:
  assumes t: "t \<in> {''naa'', ''eui'', ''ib''}"
    and p: "p \<in> {''naa.'', ''eui.'', ''ib.''}" and u: "\<forall>c \<in> set u. is_hex_lower c"
  shows "cleanse_wwn t (p @ u) = p @ u"
proof -
  have u': "\<not> is_ws c \<and> lower_char c = c \<and> c \<noteq> CHR ''-'' \<and> c \<noteq> CHR '':''" if "c \<in> set u" for c
    using u that is_hex_not_ws is_hex_lower_hex is_hex_lower_lower_char
    by (auto simp: is_hex_lower_def)
  have p': "\<not> is_ws c \<and> lower_char c = c \<and> c \<noteq> CHR ''-'' \<and> c \<noteq> CHR '':''" if "c \<in> set p" for c
    using p that by (auto simp: is_ws_def lower_char_id)
  have "strip (p @ u) = p @ u"
    by (rule strip_no_ws) (use u' p' in auto)
  moreover have "lower (p @ u) = p @ u"
    using u' p' by (auto simp: lower_def map_idI)
  moreover have "removeprefix (p @ u) ''0x'' = p @ u"
    using p by (auto simp: removeprefix_def startswith_def)
  moreover have "remove_char (CHR ''-'') (p @ u) = p @ u" "remove_char (CHR '':'') (p @ u) = p @ u"
    using u' p' by (auto simp: remove_char_def filter_id_conv)
  moreover have "startswith (p @ u) ''naa.'' \<or> startswith (p @ u) ''eui.'' \<or> startswith (p @ u) ''ib.''"
    using p by (auto simp: startswith_def)
  ultimately show ?thesis using t by (simp add: cleanse_wwn_def Let_def)
qed

lemma cleanse_plain_idem:
  "t \<notin> {''naa'', ''eui'', ''ib''} \<Longrightarrow> cleanse_wwn t (cleanse_wwn t w) = cleanse_wwn t w"
  by (simp add: cleanse_wwn_def strip_lower)

lemma of_char_lower_char:
  "of_char (lower_char c) = (let n = (of_char c :: nat) in if 65 \<le> n \<and> n \<le> 90 then n + 32 else n)"
  by (simp add: lower_char_def Let_def)

lemma hex_lowered: "is_hex c \<Longrightarrow> lower_char c = c \<Longrightarrow> is_hex_lower c"
  using of_char_lower_char [of c]
  by (auto simp: is_hex_def is_hex_lower_def Let_def split: if_splits)

text \<open>What a successful test says of a cleaned name without a newline.\<close>

lemma prefixed_normal:
  assumes "wwn_test t (cleanse_wwn t w) = Inr True" and "t \<in> {''naa'', ''eui'', ''ib''}"
    and "newline \<notin> set w"
  shows "\<exists>u. cleanse_wwn t w = t @ ''.'' @ u \<and> (\<forall>c \<in> set u. is_hex_lower c)"
proof -
  let ?c = "cleanse_wwn t w"
  have t: "\<forall>c \<in> set t. lower_char c = c" "newline \<notin> set t"
    using assms(2) by (auto simp: lower_char_id newline_def)
  have low: "lower_char c = c" if "c \<in> set ?c" for c
    using lower_char_cleanse [OF t(1) that] .
  have "newline \<notin> set ?c" by (rule newline_cleanse [OF assms(3) t(2)])
  then have no_end: "r = []" if "?c = l @ r" and "at_end r" for l r
    using that by (auto simp: at_end_def)
  consider "t = ''naa''" | "t = ''eui''" | "t = ''ib''" using assms(2) by blast
  then show ?thesis
  proof cases
    case 1
    then obtain c u r where e: "?c = ''naa.'' @ c # u @ r" and h: "naa_first c" "\<forall>x \<in> set u. is_hex x"
        and r: "at_end r"
      using assms(1) by (auto simp: wwn_test_def naa_test_iff)
    have "?c = (''naa.'' @ c # u) @ r" using e by simp
    then have "r = []" using no_end r by blast
    with e have e': "?c = ''naa.'' @ (c # u)" by simp
    have "\<forall>x \<in> set (c # u). is_hex_lower x"
      using h low naa_first_hex hex_lowered e' by auto
    with 1 e' show ?thesis by auto
  next
    case 2
    then obtain u r where e: "?c = ''eui.'' @ u @ r" and "\<forall>x \<in> set u. is_hex_lower x" and "at_end r"
      using assms(1) by (auto simp: wwn_test_def eui_test_def ib_test_def hex_test_iff)
    moreover have "r = []" using no_end [of "''eui.'' @ u" r] e \<open>at_end r\<close> by simp
    ultimately show ?thesis using 2 by auto
  next
    case 3
    then obtain u r where e: "?c = ''ib.'' @ u @ r" and "\<forall>x \<in> set u. is_hex_lower x" and "at_end r"
      using assms(1) by (auto simp: wwn_test_def eui_test_def ib_test_def hex_test_iff)
    moreover have "r = []" using no_end [of "''ib.'' @ u" r] e \<open>at_end r\<close> by simp
    ultimately show ?thesis using 3 by auto
  qed
qed

lemma cleanse_normal:
  assumes "wwn_test t (cleanse_wwn t w) = Inr True" and "newline \<notin> set w"
  shows "cleanse_wwn t (cleanse_wwn t w) = cleanse_wwn t w"
proof (cases "t \<in> {''naa'', ''eui'', ''ib''}")
  case True
  with prefixed_normal [OF assms(1) True assms(2)]
  obtain u where u: "cleanse_wwn t w = (t @ ''.'') @ u" and "\<forall>c \<in> set u. is_hex_lower c"
    by auto
  moreover have "t @ ''.'' \<in> {''naa.'', ''eui.'', ''ib.''}" using True by auto
  ultimately show ?thesis using True cleanse_prefixed [of t "t @ ''.''" u] by metis
qed (simp add: cleanse_plain_idem)

text \<open>The prefixes tell the prefixed types and the iSCSI names apart.\<close>

lemma wwn_test_prefix:
  assumes "wwn_test t c = Inr True" and "t \<in> {''naa'', ''eui'', ''ib'', ''iqn''}"
  shows "startswith c (t @ ''.'')"
proof -
  have "startswith c ''iqn.''" if "iqn_test c"
    using that by (auto simp: iqn_test_def m_seq_Some m_lit_Some startswith_def split: option.splits)
  moreover have "startswith c ''naa.''"
    if "naa_test c"
    using that by (auto simp: naa_test_iff startswith_def)
  moreover have "startswith c ''eui.''" if "eui_test c"
    using that by (auto simp: eui_test_def hex_test_iff startswith_def)
  moreover have "startswith c ''ib.''" if "ib_test c"
    using that by (auto simp: ib_test_def hex_test_iff startswith_def)
  ultimately show ?thesis using assms by (auto simp: wwn_test_def)
qed

lemma normalize_wwn_Inr:
  "normalize_wwn ts w = Inr (c, t) \<longleftrightarrow> normalize_loop ts w = Inr (Some (c, t))"
  by (auto simp: normalize_wwn_def split: sum.splits option.splits)

lemma normalize_loop_Some:
  "normalize_loop ts w = Inr (Some (c, t)) \<Longrightarrow>
   t \<in> set ts \<and> c = cleanse_wwn t w \<and> wwn_test t c = Inr True"
  by (induction ts) (auto simp: Let_def split: sum.splits if_splits)

lemma normalize_single:
  assumes "wwn_test t (cleanse_wwn t w) = Inr True" and "newline \<notin> set w"
  shows "normalize_wwn [t] (cleanse_wwn t w) = Inr (cleanse_wwn t w, t)"
  using assms by (simp add: normalize_wwn_Inr cleanse_normal Let_def)

section \<open>Generated names\<close>

text \<open>The canonical text of a UUID, as \<^verbatim>\<open>str(uuid.uuid4())\<close> documents it.\<close>

definition canonical_uuid :: "string \<Rightarrow> bool" where
  "canonical_uuid u \<longleftrightarrow> (\<exists>a b c d e. u = a @ ''-'' @ b @ ''-'' @ c @ ''-'' @ d @ ''-'' @ e \<and>
     length a = 8 \<and> length b = 4 \<and> length c = 4 \<and> length d = 4 \<and> length e = 12 \<and>
     (\<forall>x \<in> set (a @ b @ c @ d @ e). is_hex_lower x))"

lemma canonical_uuid_parts:
  assumes "canonical_uuid u"
  shows "length (uuid_hex u) = 32" and "\<forall>x \<in> set (uuid_hex u). is_hex_lower x"
    and "length (drop 24 u) = 12" and "\<forall>x \<in> set (drop 24 u). is_hex_lower x"
    and "\<forall>x \<in> set u. \<not> is_ws x \<and> lower_char x = x" and "unit_serial_test u"
proof -
  obtain a b c d e where u: "u = a @ ''-'' @ b @ ''-'' @ c @ ''-'' @ d @ ''-'' @ e"
    and len: "length a = 8" "length b = 4" "length c = 4" "length d = 4" "length e = 12"
    and hex: "\<forall>x \<in> set (a @ b @ c @ d @ e). is_hex_lower x"
    using assms by (auto simp: canonical_uuid_def)
  have nd: "filter (\<lambda>d. d \<noteq> CHR ''-'') v = v" if "\<forall>x \<in> set v. is_hex_lower x" for v
    using that by (auto simp: filter_id_conv is_hex_lower_def)
  have "uuid_hex u = a @ b @ c @ d @ e"
    using hex by (simp add: uuid_hex_def remove_char_def u nd)
  then show "length (uuid_hex u) = 32" and "\<forall>x \<in> set (uuid_hex u). is_hex_lower x"
    using len hex by auto
  have "drop 24 u = e" using len by (simp add: u)
  then show "length (drop 24 u) = 12" and "\<forall>x \<in> set (drop 24 u). is_hex_lower x"
    using len hex by auto
  show "\<forall>x \<in> set u. \<not> is_ws x \<and> lower_char x = x"
    using hex is_hex_not_ws is_hex_lower_hex is_hex_lower_lower_char
    by (auto simp: u is_ws_def lower_char_id)
  have "m_seq [m_class is_hex 8, m_lit ''-'', m_class is_hex 4, m_lit ''-'', m_class is_hex 4,
      m_lit ''-'', m_class is_hex 4, m_lit ''-'', m_class is_hex 12] u = Some []"
    unfolding m_seq_Some m_lit_Some u
    using len hex is_hex_lower_hex
    by (intro exI conjI) (auto simp: m_class_Some m_lit_def startswith_def)
  then show "unit_serial_test u" by (simp add: unit_serial_test_def matches_to_end_def at_end_def)
qed

lemma last_n_append: "n \<le> length s \<Longrightarrow> length (last_n n s) = n" "set (last_n n s) \<subseteq> set s"
  by (auto simp: last_n_def dest: in_set_dropD)

lemma cleanse_plain_id:
  assumes "t \<notin> {''naa'', ''eui'', ''ib''}" and "\<forall>x \<in> set s. \<not> is_ws x \<and> lower_char x = x"
  shows "cleanse_wwn t s = s"
  using assms by (simp add: cleanse_wwn_def strip_no_ws lower_def map_idI)

text \<open>A name that is clean and passes its test is its own normal form.\<close>

lemma normalize_clean:
  "cleanse_wwn t x = x \<Longrightarrow> wwn_test t x = Inr True \<Longrightarrow> normalize_wwn [t] x = Inr (x, t)"
  by (simp add: normalize_wwn_Inr Let_def)

lemma iqn_test_generated:
  assumes "\<forall>x \<in> set s. x \<noteq> CHR '' '' \<and> x \<noteq> CHR ''_''"
  shows "iqn_test (''iqn.2003-01.org.linux-iscsi.'' @ s)"
proof -
  have "m_seq [m_lit ''iqn.'', m_class is_digit 4, m_lit ''-'',
      m_class (\<lambda>c. c \<in> {CHR ''0'', CHR ''1''}) 1, m_class is_digit 1, m_lit ''.'']
      (''iqn.2003-01.org.linux-iscsi.'' @ s) = Some (''org.linux-iscsi.'' @ s)"
    by (simp add: m_seq.simps m_lit_def startswith_def is_digit_def eval_nat_numeral)
  moreover have "CHR ''.'' \<in> set (takeWhile (\<lambda>c. c \<noteq> newline) (''org.linux-iscsi.'' @ s))"
    by (simp add: newline_def)
  ultimately show ?thesis
    using assms by (auto simp: iqn_test_def)
qed

lemma normalize_generated_hex:
  assumes "t \<in> {''naa'', ''eui''}" and "\<forall>x \<in> set u. is_hex_lower x"
    and "wwn_test t (t @ ''.'' @ u) = Inr True"
  shows "normalize_wwn [t] (t @ ''.'' @ u) = Inr (t @ ''.'' @ u, t)"
proof -
  have "cleanse_wwn t ((t @ ''.'') @ u) = (t @ ''.'') @ u"
    by (rule cleanse_prefixed) (use assms in auto)
  with assms(3) show ?thesis by (simp add: normalize_clean)
qed

lemma generated_iqn:
  assumes u: "canonical_uuid u" and n: "\<forall>x \<in> set n. \<not> is_ws x" and a: "\<forall>x \<in> set a. \<not> is_ws x"
    and "pre = lower (strip (''iqn.2003-01.org.linux-iscsi.'' @ remove_char (CHR ''_'') n @ ''.'' @
      remove_char (CHR ''_'') a))" and x: "x = pre @ '':'' @ ''sn.'' @ drop 24 u"
  shows "normalize_wwn [''iqn''] x = Inr (x, ''iqn'')"
proof -
  let ?b = "''iqn.2003-01.org.linux-iscsi.''"
  let ?r = "remove_char (CHR ''_'') n @ ''.'' @ remove_char (CHR ''_'') a"
  have r: "\<not> is_ws c \<and> c \<noteq> CHR ''_''" if "c \<in> set ?r" for c
    using that n a by (auto simp: remove_char_def is_ws_def)
  have ws: "strip (?b @ ?r) = ?b @ ?r"
    by (rule strip_no_ws) (use r in \<open>auto simp: is_ws_def\<close>)
  have lb: "lower ?b = ?b" by (simp add: lower_def lower_char_id)
  have pre: "pre = ?b @ lower ?r" by (simp only: assms(4) ws lower_append lb)
  define s where "s = lower ?r @ '':sn.'' @ drop 24 u"
  have x': "x = ?b @ s" by (simp add: x pre s_def)
  have e: "\<forall>c \<in> set (drop 24 u). is_hex_lower c" by (rule canonical_uuid_parts(4) [OF u])
  have lr: "\<not> is_ws c \<and> lower_char c = c \<and> c \<noteq> CHR ''_''" if c: "c \<in> set (lower ?r)" for c
  proof -
    obtain d where d: "c = lower_char d" "d \<in> set ?r" using c by (auto simp: lower_def)
    then have "\<not> is_ws d" "d \<noteq> CHR ''_''" using r by blast+
    moreover have "lower_char d = CHR ''_'' \<Longrightarrow> d = CHR ''_''"
      using of_char_lower_char [of d] by (auto simp: lower_char_def Let_def split: if_splits)
    ultimately show ?thesis using d by auto
  qed
  have s: "\<not> is_ws c \<and> lower_char c = c \<and> c \<noteq> CHR ''_''" if "c \<in> set s" for c
    using that lr e is_hex_not_ws is_hex_lower_hex is_hex_lower_lower_char
    by (auto simp: s_def is_ws_def lower_char_id is_hex_lower_def)
  then have "cleanse_wwn ''iqn'' x = x"
    unfolding x' by (intro cleanse_plain_id) (auto simp: is_ws_def lower_char_id)
  moreover have "iqn_test x"
    unfolding x' by (rule iqn_test_generated) (use s [of "CHR '' ''"] s in \<open>auto simp: is_ws_def\<close>)
  ultimately show ?thesis by (simp add: normalize_clean wwn_test_def)
qed

lemma canonical_lio_uuid: "canonical_uuid (lio_uuid n)"
proof -
  have hd: "is_hex_lower (hex_digit (m mod 16))" for m
    by (auto simp: hex_digit_def is_hex_lower_def Let_def)
  let ?e = "''00c04fd4'' @ map (\<lambda>i. hex_digit (n div 16 ^ i mod 16)) [3, 2, 1, 0]"
  have "lio_uuid n = ''6ba7b810'' @ ''-'' @ ''9dad'' @ ''-'' @ ''41d1'' @ ''-'' @ ''80b4'' @ ''-'' @ ?e"
    by (simp add: lio_uuid_def)
  moreover have "\<forall>x \<in> set (''6ba7b810'' @ ''9dad'' @ ''41d1'' @ ''80b4'' @ ?e). is_hex_lower x"
    using hd by (auto simp: is_hex_lower_def)
  ultimately show ?thesis
    unfolding canonical_uuid_def by (intro exI conjI) (assumption, simp_all)
qed

section \<open>Properties\<close>

text \<open>
  C28. Every name the library generates for a type (a random UUID for free and unit-serial names, an
  IQN from the host name, an NAA or EUI number from the UUID's digits) is already in normal form
  and valid for that type, and drawing it uses exactly one UUID.
\<close>

theorem generate_wwn_normal:
  assumes u: "canonical_uuid (k_uuid K (uuids w))"
    and host: "\<forall>x \<in> set (k_hostname K). \<not> is_ws x" and mach: "\<forall>x \<in> set (k_machine K). \<not> is_ws x"
    and t: "t \<in> {''free'', ''unit_serial'', ''iqn'', ''naa'', ''eui''}"
  shows "\<exists>x. generate_wwn K t w = (Ok x, w\<lparr>uuids := Suc (uuids w)\<rparr>) \<and> normalize_wwn [t] x = Inr (x, t)"
proof -
  let ?u = "k_uuid K (uuids w)"
  note parts = canonical_uuid_parts [OF u]
  consider "t \<in> {''free'', ''unit_serial''}" | "t = ''iqn''" | "t = ''naa''" | "t = ''eui''"
    using t by blast
  then show ?thesis
  proof cases
    case 1
    moreover have "normalize_wwn [t] ?u = Inr (?u, t)"
      using 1 parts(5,6) by (intro normalize_clean cleanse_plain_id) (auto simp: wwn_test_def)
    ultimately show ?thesis
      by (auto simp: generate_wwn_def uuid4_def lower_def lower_char_def)
  next
    case 2
    have "\<forall>x \<in> set (hd (split_on (CHR ''.'') (k_hostname K))). \<not> is_ws x"
      using host set_split_on hd_in_set [OF split_on_ne] by blast
    from generated_iqn [OF u this mach refl refl] show ?thesis
      by (simp add: 2 generate_wwn_def Let_def bindM_def uuid4_def ret_def lower_def lower_char_def)
  next
    case 3
    let ?h = "''5001405'' @ last_n 9 (uuid_hex ?u)"
    have h: "\<forall>x \<in> set ?h. is_hex_lower x" "length (last_n 9 (uuid_hex ?u)) = 9"
      using parts(1,2) last_n_append [of 9 "uuid_hex ?u"] by (auto simp: is_hex_lower_def)
    then have "naa_test (''naa.'' @ ?h)"
      unfolding naa_test_iff
      by (intro exI [of _ "CHR ''5''"] exI [of _ "''001405'' @ last_n 9 (uuid_hex ?u)"] exI [of _ "[]"])
        (auto simp: naa_first_def at_end_def is_hex_lower_hex)
    with normalize_generated_hex [OF _ h(1), of "''naa''"] 3 show ?thesis
      by (simp add: generate_wwn_def Let_def bindM_def uuid4_def ret_def lower_def lower_char_def wwn_test_def)
  next
    case 4
    let ?h = "''001405'' @ last_n 10 (uuid_hex ?u)"
    have h: "\<forall>x \<in> set ?h. is_hex_lower x" "length (last_n 10 (uuid_hex ?u)) = 10"
      using parts(1,2) last_n_append [of 10 "uuid_hex ?u"] by (auto simp: is_hex_lower_def)
    then have "eui_test (''eui.'' @ ?h)"
      unfolding eui_test_def hex_test_iff
      by (intro exI [of _ ?h] exI [of _ "[]"]) (auto simp: at_end_def)
    with normalize_generated_hex [OF _ h(1), of "''eui''"] 4 show ?thesis
      by (simp add: generate_wwn_def Let_def bindM_def uuid4_def ret_def lower_def lower_char_def wwn_test_def)
  qed
qed

theorem generate_wwn_normal_witness:
  "\<exists>x. generate_wwn lio ''iqn'' world0 = (Ok x, world0\<lparr>uuids := Suc (uuids world0)\<rparr>) \<and>
     normalize_wwn [''iqn''] x = Inr (x, ''iqn'')"
  by (rule generate_wwn_normal) (auto simp: canonical_lio_uuid is_ws_def)

text \<open>The digits of a name of each of the hexadecimal types.\<close>

definition hex_name :: "string \<Rightarrow> string \<Rightarrow> bool" where
  "hex_name t h = ((\<forall>c \<in> set h. is_hex_lower c) \<and>
     (t = ''naa'' \<and> length h = 16 \<and> naa_first (hd h) \<or> t = ''eui'' \<and> length h = 16 \<or> t = ''ib'' \<and> length h = 32))"

lemma hex_name_test:
  assumes "t \<in> {''naa'', ''eui'', ''ib''}" and "\<forall>c \<in> set x. lower_char c = c"
  shows "wwn_test t x = Inr True \<longleftrightarrow> (\<exists>h r. hex_name t h \<and> at_end r \<and> x = t @ ''.'' @ h @ r)"
proof -
  have naa: "naa_test x \<longleftrightarrow> (\<exists>h r. hex_name ''naa'' h \<and> at_end r \<and> x = ''naa'' @ ''.'' @ h @ r)"
  proof
    assume "naa_test x"
    then obtain c u r where x: "x = ''naa.'' @ c # u @ r" "naa_first c" "length u = 15" "\<forall>y \<in> set u. is_hex y" "at_end r"
      unfolding naa_test_iff by blast
    then have "\<forall>y \<in> set (c # u). is_hex_lower y" using assms(2) naa_first_hex hex_lowered by auto
    with x show "\<exists>h r. hex_name ''naa'' h \<and> at_end r \<and> x = ''naa'' @ ''.'' @ h @ r"
      by (intro exI [of _ "c # u"] exI [of _ r]) (simp add: hex_name_def)
  next
    assume "\<exists>h r. hex_name ''naa'' h \<and> at_end r \<and> x = ''naa'' @ ''.'' @ h @ r"
    then obtain h r where x: "hex_name ''naa'' h" "at_end r" "x = ''naa'' @ ''.'' @ h @ r" by blast
    then obtain c u where "h = c # u" "length u = 15" by (cases h) (auto simp: hex_name_def)
    with x show "naa_test x" unfolding naa_test_iff by (intro exI [of _ c] exI [of _ u] exI [of _ r]) (auto simp: hex_name_def is_hex_lower_hex)
  qed
  have "eui_test x \<longleftrightarrow> (\<exists>h r. hex_name ''eui'' h \<and> at_end r \<and> x = ''eui'' @ ''.'' @ h @ r)"
    "ib_test x \<longleftrightarrow> (\<exists>h r. hex_name ''ib'' h \<and> at_end r \<and> x = ''ib'' @ ''.'' @ h @ r)"
    unfolding eui_test_def ib_test_def hex_test_iff by (auto simp: hex_name_def)
  with naa assms(1) show ?thesis by (auto simp: wwn_test_def)
qed

lemma hex_name_bare:
  assumes "hex_name t h" and "p \<in> {''naa.'', ''eui.'', ''ib.''}"
  shows "\<not> startswith (h @ r) p"
proof
  assume "startswith (h @ r) p"
  moreover have "length p \<le> length h" using assms by (auto simp: hex_name_def)
  ultimately have "take (length p) h = p" by (simp add: startswith_def)
  then have "set p \<subseteq> set h" by (metis set_take_subset)
  moreover have "CHR ''.'' \<in> set p" using assms(2) by auto
  ultimately have "is_hex_lower (CHR ''.'')" using assms(1) by (auto simp: hex_name_def)
  then show False by (simp add: is_hex_lower_def)
qed

text \<open>
  C29. The accepted notations of the hexadecimal WWN types (NAA and EUI-64 names of 16 digits, the former beginning with 1, 2, 5 or c to f,
  and InfiniBand GIDs of 32). A string is accepted as such a name exactly when, in lower case, without white space around it, without
  a leading \<^verbatim>\<open>0x\<close> and without its colons and dashes, wherever they stand, it is the digits alone or the digits behind the type's own
  prefix; its normal form is then the prefix and the digits, so that all notations of the same digits have one normal form. A
  newline behind the digits, left over when it was followed by colons or dashes, is accepted too and kept. Everything else is refused with the library's error.
\<close>

theorem normalize_hex_notations:
  assumes "t \<in> {''naa'', ''eui'', ''ib''}"
  shows "(normalize_wwn [t] s = Inr (x, t') \<longleftrightarrow> t' = t \<and> (\<exists>h r. hex_name t h \<and> at_end r \<and> x = t @ ''.'' @ h @ r \<and>
       remove_char (CHR '':'') (remove_char (CHR ''-'') (removeprefix (lower (strip s)) ''0x'')) \<in> {h @ r, x})) \<and>
    ((\<exists>y. normalize_wwn [t] s = Inr y) \<or> normalize_wwn [t] s = Inl (RTSLibError (''WWN not valid as: '' @ t)))"
proof -
  define b where "b = remove_char (CHR '':'') (remove_char (CHR ''-'') (removeprefix (lower (strip s)) ''0x''))"
  let ?pre = "\<lambda>y. startswith y ''naa.'' \<or> startswith y ''eui.'' \<or> startswith y ''ib.''"
  have clean: "cleanse_wwn t s = (if ?pre b then b else t @ ''.'' @ b)"
    using assms by (auto simp: cleanse_wwn_def Let_def b_def)
  have "\<forall>c \<in> set t. lower_char c = c" using assms by (auto simp: lower_char_id)
  then have low: "\<forall>c \<in> set (cleanse_wwn t s). lower_char c = c" using lower_char_cleanse by blast
  note test = hex_name_test [OF assms low]
  have found: "\<exists>v. wwn_test t y = Inr v" for y using assms by (auto simp: wwn_test_def)
  have acc: "normalize_wwn [t] s = Inr (x, t') \<longleftrightarrow> t' = t \<and> x = cleanse_wwn t s \<and> wwn_test t (cleanse_wwn t s) = Inr True"
    using found [of "cleanse_wwn t s"] by (auto simp: normalize_wwn_Inr Let_def split: if_splits)
  have "x = cleanse_wwn t s \<and> wwn_test t (cleanse_wwn t s) = Inr True \<longleftrightarrow>
      (\<exists>h r. hex_name t h \<and> at_end r \<and> x = t @ ''.'' @ h @ r \<and> b \<in> {h @ r, x})"
  proof
    assume "x = cleanse_wwn t s \<and> wwn_test t (cleanse_wwn t s) = Inr True"
    with test clean show "\<exists>h r. hex_name t h \<and> at_end r \<and> x = t @ ''.'' @ h @ r \<and> b \<in> {h @ r, x}"
      by (auto split: if_splits)
  next
    assume "\<exists>h r. hex_name t h \<and> at_end r \<and> x = t @ ''.'' @ h @ r \<and> b \<in> {h @ r, x}"
    then obtain h r where h: "hex_name t h" "at_end r" "x = t @ ''.'' @ h @ r" "b = h @ r \<or> b = x" by blast
    have "x = cleanse_wwn t s"
    proof (cases "b = h @ r")
      case True
      then show ?thesis using hex_name_bare [OF h(1)] h(3) unfolding clean by simp
    next
      case False
      then have "b = (t @ ''.'') @ h @ r" using h by simp
      then have "?pre b" using assms by (auto simp: startswith_def)
      then show ?thesis using False h(4) unfolding clean by simp
    qed
    moreover from this h(1-3) have "wwn_test t (cleanse_wwn t s) = Inr True" unfolding test by blast
    ultimately show "x = cleanse_wwn t s \<and> wwn_test t (cleanse_wwn t s) = Inr True" by (rule conjI)
  qed
  moreover have "(\<exists>y. normalize_wwn [t] s = Inr y) \<or> normalize_wwn [t] s = Inl (RTSLibError (''WWN not valid as: '' @ t))"
  proof -
    obtain v where "wwn_test t (cleanse_wwn t s) = Inr v" using found by blast
    then show ?thesis by (cases v) (simp_all add: normalize_wwn_def Let_def)
  qed
  ultimately show ?thesis unfolding acc b_def by blast
qed

theorem normalize_hex_notations_witness:
  "normalize_wwn [''naa''] '' 0x50:01-40:51:2345ABCD '' = Inr (''naa.500140512345abcd'', ''naa'') \<and>
   normalize_wwn [''naa''] ''naa.5001-4051-2345-ABCD'' = Inr (''naa.500140512345abcd'', ''naa'')"
proof -
  have h: "hex_name ''naa'' ''500140512345abcd''" "at_end []" by code_simp+
  have acc: "normalize_wwn [''naa''] s = Inr (''naa.500140512345abcd'', ''naa'')"
    if "remove_char (CHR '':'') (remove_char (CHR ''-'') (removeprefix (lower (strip s)) ''0x'')) \<in> {''500140512345abcd'', ''naa.500140512345abcd''}"
    for s
    by (rule iffD2 [OF conjunct1 [OF normalize_hex_notations [of "''naa''" s "''naa.500140512345abcd''" "''naa''"]]], simp, rule conjI [OF refl],
        rule exI [of _ "''500140512345abcd''"], rule exI [of _ "[]"]) (use h that in simp)
  have "remove_char (CHR '':'') (remove_char (CHR ''-'') (removeprefix (lower (strip '' 0x50:01-40:51:2345ABCD '')) ''0x'')) \<in>
      {''500140512345abcd'', ''naa.500140512345abcd''}"
    "remove_char (CHR '':'') (remove_char (CHR ''-'') (removeprefix (lower (strip ''naa.5001-4051-2345-ABCD'')) ''0x'')) \<in>
      {''500140512345abcd'', ''naa.500140512345abcd''}"
    by code_simp+
  from acc [OF this(1)] acc [OF this(2)] show ?thesis by (rule conjI)
qed

end
