(* ===== verification/Node.thy ===== *)
theory Node
  imports Wwn "HOL-Library.Char_ord" "HOL-Library.List_Lexorder"
begin

text \<open>
  \<^verbatim>\<open>node.py\<close>: the base class \<^verbatim>\<open>CFSNode\<close>. A node is its path; the name of the class, which only the
  messages use, is an argument. The theory shows the contract of the three creation modes, that
  errors of the kernel come out as the library's own
  error, and what a node's dump contains.
\<close>

section \<open>The class\<close>

definition configfs_dir :: path where
  "configfs_dir = [''sys'', ''kernel'', ''config'', ''target'']"

definition exists :: "path \<Rightarrow> bool W" where
  "exists self = is_dirM self"

definition check_self :: "string \<Rightarrow> path \<Rightarrow> unit W" where
  "check_self cls self =
     bindM (exists self) (\<lambda>ex.
       if \<not> ex then raise (RTSLibNotInCFSError (''This '' @ cls @ '' does not exist in configFS'')) else ret ())"

text \<open>\<^verbatim>\<open>a.samefile(b)\<close> looks both paths up and fails when one is missing.\<close>

definition samefile :: "path \<Rightarrow> path \<Rightarrow> bool W" where
  "samefile a b = (\<lambda>w.
     if \<not> path_exists (fs w) a then (Err (OSErr ENOENT a), w)
     else if \<not> path_exists (fs w) b then (Err (OSErr ENOENT b), w)
     else (Ok (realpath (fs w) a = realpath (fs w) b), w))"

text \<open>Is the existing path an adapter directory of \<^verbatim>\<open>core\<close> with nothing in it?\<close>

definition stale_hba :: "path \<Rightarrow> bool W" where
  "stale_hba self =
     bindM (realpathM self) (\<lambda>r.
       bindM (samefile (butlast r) (configfs_dir @ [''core''])) (\<lambda>same.
         if same then bindM (listdir self) (\<lambda>names. ret (names = [])) else ret False))"

definition create_in_cfs_ine :: "env \<Rightarrow> string \<Rightarrow> path \<Rightarrow> string \<Rightarrow> unit W" where
  "create_in_cfs_ine K cls self mode =
     (if mode \<notin> {''any'', ''lookup'', ''create''} then raise (RTSLibError (''Invalid mode: '' @ mode))
      else bindM (exists self) (\<lambda>ex.
        seqM
          (if ex \<and> mode = ''create'' then
             bindM (stale_hba self) (\<lambda>stale.
               if stale then rmdir K self
               else raise (RTSLibError (''This '' @ cls @ '' already exists in configFS'')))
           else if \<not> ex \<and> mode = ''lookup'' then
             raise (RTSLibNotInCFSError (''No such '' @ cls @ '' in configfs: '' @ path_str self))
           else ret ())
          (bindM (exists self) (\<lambda>ex2.
             if \<not> ex2 then
               catchM (mkdir K self) (\<lambda>e.
                 raise (RTSLibError (''Could not create '' @ cls @ '' in configFS: '' @ exn_str K e)))
             else ret ()))))"

definition file_mode :: "fsys \<Rightarrow> path \<Rightarrow> nat" where
  "file_mode f p = (case map_of f (realpath f p) of Some (File m _) \<Rightarrow> m | _ \<Rightarrow> 0)"

definition list_files :: "path \<Rightarrow> bool option \<Rightarrow> bool option \<Rightarrow> string list W" where
  "list_files p writable readable = gets (\<lambda>w.
     if \<not> is_dir (fs w) p then []
     else (let names = filter (\<lambda>n. is_file (fs w) (p @ [n])) (children (fs w) (realpath (fs w) p)) in
       sort (if writable = None \<and> readable = None then names
             else filter (\<lambda>n. let m = file_mode (fs w) (p @ [n]) in
                    \<not> (writable \<noteq> None \<and> the writable \<noteq> owner_writable m) \<and>
                    \<not> (readable \<noteq> None \<and> the readable \<noteq> owner_readable m)) names)))"

definition list_parameters :: "string \<Rightarrow> path \<Rightarrow> bool option \<Rightarrow> bool option \<Rightarrow> string list W" where
  "list_parameters cls self writable readable =
     seqM (check_self cls self) (list_files (self @ [''param'']) writable readable)"

definition list_attributes :: "string \<Rightarrow> path \<Rightarrow> bool option \<Rightarrow> bool option \<Rightarrow> string list W" where
  "list_attributes cls self writable readable =
     seqM (check_self cls self) (list_files (self @ [''attrib'']) writable readable)"

definition set_attribute :: "env \<Rightarrow> string \<Rightarrow> path \<Rightarrow> string \<Rightarrow> pyval \<Rightarrow> unit W" where
  "set_attribute K cls self attribute value =
     seqM (check_self cls self)
       (let p = pdiv (self @ [''attrib'']) attribute in
        bindM (is_fileM p) (\<lambda>isf.
          if \<not> isf then raise (RTSLibError (''Cannot find attribute: '' @ attribute))
          else catchM (fwrite K p (py_str value)) (\<lambda>e.
            raise (RTSLibError (''Cannot set attribute '' @ attribute @ '': '' @ exn_str K e)))))"

definition get_attribute :: "string \<Rightarrow> path \<Rightarrow> string \<Rightarrow> string W" where
  "get_attribute cls self attribute =
     seqM (check_self cls self)
       (let p = pdiv (self @ [''attrib'']) attribute in
        bindM (is_fileM p) (\<lambda>isf.
          if \<not> isf then raise (RTSLibError (''Cannot find attribute: '' @ attribute))
          else fread p))"

definition set_parameter :: "env \<Rightarrow> string \<Rightarrow> path \<Rightarrow> string \<Rightarrow> pyval \<Rightarrow> unit W" where
  "set_parameter K cls self parameter value =
     seqM (check_self cls self)
       (let p = pdiv (self @ [''param'']) parameter in
        bindM (is_fileM p) (\<lambda>isf.
          if \<not> isf then raise (RTSLibError (''Cannot find parameter: '' @ parameter))
          else catchM (fwrite K p (py_str value @ [newline])) (\<lambda>e.
            raise (RTSLibError (''Cannot set parameter '' @ parameter @ '': '' @ exn_str K e)))))"

definition get_parameter :: "string \<Rightarrow> path \<Rightarrow> string \<Rightarrow> string W" where
  "get_parameter cls self parameter =
     seqM (check_self cls self)
       (let p = pdiv (self @ [''param'']) parameter in
        bindM (is_fileM p) (\<lambda>isf.
          if \<not> isf then raise (RTSLibError (''Cannot find RFC-3720 parameter: '' @ parameter))
          else fread p))"

definition node_delete :: "env \<Rightarrow> path \<Rightarrow> unit W" where
  "node_delete K self = bindM (exists self) (\<lambda>ex. if ex then rmdir K self else ret ())"

definition node_dump :: "string \<Rightarrow> path \<Rightarrow> pydict W" where
  "node_dump cls self =
     bindM (bindM (list_attributes cls self (Some True) (Some True)) (\<lambda>items.
       collect (iter items) (\<lambda>item.
         bindM (get_attribute cls self item) (\<lambda>s.
           case py_int s of
             Some n \<Rightarrow> ret (item, PInt n)
           | None \<Rightarrow> bindM (get_attribute cls self item) (\<lambda>s'. ret (item, PStr s'))))))
     (\<lambda>attrs. bindM (bindM (list_parameters cls self (Some True) (Some True)) (\<lambda>items.
       collect (iter items) (\<lambda>item.
         bindM (get_parameter cls self item) (\<lambda>s. ret (item, PStr s)))))
     (\<lambda>params.
        ret ((if attrs \<noteq> [] then [(''attributes'', PDict attrs)] else []) @
             (if params \<noteq> [] then [(''parameters'', PDict params)] else []))))"

section \<open>Which paths a method touches\<close>

lemma exists_stays [pres]: "stays (frame A) (exists p)"
  unfolding exists_def by (intro fr.comb fr.base pres)

lemma check_self_stays [pres]: "stays (frame A) (check_self cls p)"
  unfolding check_self_def by (intro fr.comb fr.base pres)

lemma samefile_stays [pres]: "stays (frame A) (samefile a b)"
  by (simp add: stays_def samefile_def fr.refl)

lemma stale_hba_stays [pres]: "stays (frame A) (stale_hba p)"
  unfolding stale_hba_def by (intro fr.comb fr.base pres)

lemma list_files_stays [pres]: "stays (frame A) (list_files p x y)"
  unfolding list_files_def by (intro fr.comb fr.base pres)

lemma list_attributes_stays [pres]: "stays (frame A) (list_attributes cls p x y)"
  unfolding list_attributes_def by (intro fr.comb fr.base pres)

lemma list_parameters_stays [pres]: "stays (frame A) (list_parameters cls p x y)"
  unfolding list_parameters_def by (intro fr.comb fr.base pres)

lemma get_attribute_stays [pres]: "stays (frame A) (get_attribute cls p a)"
  unfolding get_attribute_def Let_def by (intro fr.comb fr.base pres)

lemma get_parameter_stays [pres]: "stays (frame A) (get_parameter cls p a)"
  unfolding get_parameter_def Let_def by (intro fr.comb fr.base pres)

lemma node_dump_stays [pres]: "stays (frame A) (node_dump cls p)"
  unfolding node_dump_def by (intro fr.comb fr.base pres)

context configfs
begin

lemma create_stays: "prefix q p \<Longrightarrow> stays (frame (prefix q)) (create_in_cfs_ine K cls p mode)"
  unfolding create_in_cfs_ine_def by (intro fr.comb fr.base pres kernel_stays)

lemma set_attribute_stays: "stays (frame A) (set_attribute K cls p a v)"
  unfolding set_attribute_def Let_def by (intro fr.comb fr.base pres fwrite_stays)

lemma set_parameter_stays: "stays (frame A) (set_parameter K cls p a v)"
  unfolding set_parameter_def Let_def by (intro fr.comb fr.base pres fwrite_stays)

lemma node_delete_stays: "prefix q p \<Longrightarrow> stays (frame (prefix q)) (node_delete K p)"
  unfolding node_delete_def by (intro fr.comb fr.base pres kernel_stays)

lemma create_below: "below p A \<Longrightarrow> stays (frame A) (create_in_cfs_ine K cls p mode)"
  by (rule stays_below_mono [OF create_stays]) auto

lemma node_delete_below: "below p A \<Longrightarrow> stays (frame A) (node_delete K p)"
  by (rule stays_below_mono [OF node_delete_stays]) auto

lemma node_delete_all_gone:
  assumes "map_of (fs w) p = Some Dir"
  shows "wp (node_delete K p) (\<lambda>_ w'. \<forall>q. prefix p q \<longrightarrow> map_of (fs w') q = None) (\<lambda>_ _. True) w"
  using assms rmdir_gone [of "fs w" p]
  by (auto simp: node_delete_def exists_def is_dirM_def wp rmdir_def is_dir_plain split: sum.splits)

lemma node_delete_gone:
  assumes "node_delete K p w = (Ok (), w')"
  shows "\<not> is_dir (fs w') p"
proof (cases "is_dir (fs w) p")
  case True
  then obtain f' where "k_rmdir K (fs w) p = Inr f'" "w' = w\<lparr>fs := f'\<rparr>"
    using assms by (auto simp: node_delete_def exists_def is_dirM_def gets_def bindM_def rmdir_def
        kcall_def split: sum.splits)
  with rmdir_gone [of "fs w" p f' p] show ?thesis by (simp add: is_dir_def realpath_def)
next
  case False
  with assms show ?thesis
    by (auto simp: node_delete_def exists_def is_dirM_def gets_def bindM_def ret_def)
qed

end

lemma wp_exists [wp]: "wp (exists p) Q E w = Q (is_dir (fs w) p) w"
  by (simp add: exists_def is_dirM_def wp)

lemma wp_check_self [wp]:
  "wp (check_self cls p) Q E w = (if is_dir (fs w) p then Q () w
     else E (RTSLibNotInCFSError (''This '' @ cls @ '' does not exist in configFS'')) w)"
  by (simp add: check_self_def wp)

lemma wp_samefile [wp]:
  "wp (samefile a b) Q E w =
     (if \<not> path_exists (fs w) a then E (OSErr ENOENT a) w
      else if \<not> path_exists (fs w) b then E (OSErr ENOENT b) w
      else Q (realpath (fs w) a = realpath (fs w) b) w)"
  by (simp add: wp_def samefile_def)

lemma wp_stale_hba:
  assumes "children (fs w) (realpath (fs w) p) = [] \<Longrightarrow>
        realpath (fs w) (butlast (realpath (fs w) p)) = realpath (fs w) (configfs_dir @ [''core'']) \<Longrightarrow> Q True w"
    and "Q False w" and "\<And>e. E e w"
  shows "wp (stale_hba p) Q E w"
  using assms
  by (cases "children (fs w) (realpath (fs w) p) = []") (auto simp: stale_hba_def realpathM_def wp)

lemma pdiv_name: "CHR ''/'' \<notin> set a \<Longrightarrow> a \<noteq> [] \<Longrightarrow> a \<noteq> ''.'' \<Longrightarrow> pdiv p a = p @ [a]"
  by (auto simp: pdiv_def comps_name startswith_prefix prefix_def)

context configfs
begin

lemma create_post:
  "wp (create_in_cfs_ine K cls p mode)
    (\<lambda>_ w'. is_dir (fs w') p \<and> bs_cache w' = bs_cache w \<and>
       (is_dir (fs w) p \<and> mode \<noteq> ''create'' \<longrightarrow> w' = w) \<and> (mode = ''lookup'' \<longrightarrow> is_dir (fs w) p) \<and>
       (mode = ''create'' \<and> is_dir (fs w) p \<longrightarrow> children (fs w) (realpath (fs w) p) = [] \<and>
          realpath (fs w) (butlast (realpath (fs w) p)) = realpath (fs w) (configfs_dir @ [''core''])))
    (\<lambda>_ w'. bs_cache w' = bs_cache w \<and> (mode = ''lookup'' \<longrightarrow> w' = w \<and> \<not> is_dir (fs w) p)) w"
proof -
  have new: "is_dir f' p" if "k_mkdir K f p = Inr f'" for f f'
    using mkdir_new [OF that] by (simp add: is_dir_plain)
  have gone: "\<not> is_dir f' p" if "k_rmdir K f p = Inr f'" for f f'
    using rmdir_gone [OF that, of p] by (simp add: is_dir_def realpath_def)
  show ?thesis
    unfolding create_in_cfs_ine_def wp_if wp_bindM wp_exists
    by (auto simp: wp mkdir_def rmdir_def new gone intro!: wp_stale_hba split: sum.splits)
qed

end

section \<open>Error functions\<close>

text \<open>The two error functions of \<^verbatim>\<open>RTSRoot.restore\<close>: the one that collects and the one that aborts.\<close>

definition err_collect :: "string \<Rightarrow> unit W" where
  "err_collect err_str = modify (\<lambda>w. w\<lparr>errors := errors w @ [err_str @ '', skipped'']\<rparr>)"

definition err_abort :: "string \<Rightarrow> unit W" where
  "err_abort err_str = raise (RTSLibError err_str)"

lemma err_stays [pres]: "stays (frame A) (err_collect s)" "stays (frame A) (err_abort s)"
  by (simp_all add: err_collect_def err_abort_def stays_def modify_def raise_def frame_def)

section \<open>Attribute values\<close>

definition content :: "fsys \<Rightarrow> path \<Rightarrow> string option" where
  "content f p = (case map_of f (realpath f p) of Some (File _ (Inr s)) \<Rightarrow> Some s | _ \<Rightarrow> None)"

definition attr_val :: "string \<Rightarrow> pyval" where
  "attr_val s = (case py_int s of Some n \<Rightarrow> PInt n | None \<Rightarrow> PStr s)"

lemma fread_content: "content (fs w) p = Some s \<Longrightarrow> fread p w = (Ok (strip s), w)"
  by (auto simp: content_def fread_def read_text_def bindM_def ret_def
      split: option.splits node.splits sum.splits)

lemma content_is_file: "content f p = Some s \<Longrightarrow> is_file f p"
  by (auto simp: content_def is_file_def split: option.splits node.splits)

lemma get_attribute_content:
  assumes "is_dir (fs w) p" and "content (fs w) (pdiv (p @ [''attrib'']) a) = Some s"
  shows "get_attribute cls p a w = (Ok (strip s), w)"
  unfolding run_eq
  using assms content_is_file [OF assms(2)] fread_content [OF assms(2)]
  by (simp add: get_attribute_def Let_def wp is_fileM_def) (simp add: wp_def)

lemma get_parameter_content:
  assumes "is_dir (fs w) p" and "content (fs w) (pdiv (p @ [''param'']) a) = Some s"
  shows "get_parameter cls p a w = (Ok (strip s), w)"
  unfolding run_eq
  using assms content_is_file [OF assms(2)] fread_content [OF assms(2)]
  by (simp add: get_parameter_def Let_def wp is_fileM_def) (simp add: wp_def)

lemma fwrite_Ok: "fwrite K p s w = (Ok (), w') \<longleftrightarrow> (\<exists>f'. k_write K (fs w) p s = Inr f' \<and> w' = w\<lparr>fs := f'\<rparr>)"
  by (auto simp: fwrite_def write_text_def kcall_def split: sum.splits)

lemma set_attribute_Ok:
  assumes "set_attribute K cls p a v w = (Ok (), w')"
  shows "is_dir (fs w) p" and "is_file (fs w) (pdiv (p @ [''attrib'']) a)"
    and "fwrite K (pdiv (p @ [''attrib'']) a) (py_str v) w = (Ok (), w')"
  using assms
  by (auto simp: set_attribute_def check_self_def exists_def fileM_defs seqM_def bindM_def gets_def
      raise_def ret_def catchM_def Let_def split: if_splits prod.splits res.splits)

lemma set_parameter_Ok:
  assumes "set_parameter K cls p a v w = (Ok (), w')"
  shows "is_dir (fs w) p" and "is_file (fs w) (pdiv (p @ [''param'']) a)"
    and "fwrite K (pdiv (p @ [''param'']) a) (py_str v @ [newline]) w = (Ok (), w')"
  using assms
  by (auto simp: set_parameter_def check_self_def exists_def fileM_defs seqM_def bindM_def gets_def
      raise_def ret_def catchM_def Let_def split: if_splits prod.splits res.splits)

text \<open>The attribute and parameter files a dump shows.\<close>

definition rw_names :: "fsys \<Rightarrow> path \<Rightarrow> string list" where
  "rw_names f p = (if \<not> is_dir f p then [] else sort (filter (\<lambda>n. is_file f (p @ [n]) \<and>
     owner_writable (file_mode f (p @ [n])) \<and> owner_readable (file_mode f (p @ [n])))
     (children f (realpath f p))))"

lemma list_files_rw: "list_files p (Some True) (Some True) w = (Ok (rw_names (fs w) p), w)"
  by (simp add: list_files_def gets_def rw_names_def Let_def conj_comms cong: filter_cong)

definition text_at :: "fsys \<Rightarrow> path \<Rightarrow> string" where
  "text_at f p = (case content f p of Some s \<Rightarrow> strip s | None \<Rightarrow> [])"

definition plain_readable :: "fsys \<Rightarrow> path \<Rightarrow> bool" where
  "plain_readable f p \<longleftrightarrow> (\<forall>n \<in> set (rw_names f p).
     pdiv p n = p @ [n] \<and> content f (p @ [n]) \<noteq> None)"

lemma get_attribute_text:
  assumes "is_dir (fs w) p" and "plain_readable (fs w) (p @ [''attrib''])"
    and "n \<in> set (rw_names (fs w) (p @ [''attrib'']))"
  shows "get_attribute cls p n w = (Ok (text_at (fs w) (p @ [''attrib'', n])), w)"
proof -
  from assms(2,3) obtain s where "pdiv (p @ [''attrib'']) n = p @ [''attrib'', n]"
      and "content (fs w) (p @ [''attrib'', n]) = Some s"
    by (auto simp: plain_readable_def)
  with assms(1) show ?thesis by (simp add: get_attribute_content text_at_def)
qed

lemma get_parameter_text:
  assumes "is_dir (fs w) p" and "plain_readable (fs w) (p @ [''param''])"
    and "n \<in> set (rw_names (fs w) (p @ [''param'']))"
  shows "get_parameter cls p n w = (Ok (text_at (fs w) (p @ [''param'', n])), w)"
proof -
  from assms(2,3) obtain s where "pdiv (p @ [''param'']) n = p @ [''param'', n]"
      and "content (fs w) (p @ [''param'', n]) = Some s"
    by (auto simp: plain_readable_def)
  with assms(1) show ?thesis by (simp add: get_parameter_content text_at_def)
qed

lemma check_self_Ok: "is_dir (fs w) p \<Longrightarrow> check_self cls p w = (Ok (), w)"
  by (simp add: check_self_def exists_def is_dirM_def bindM_def gets_def ret_def)

lemma strip_str_of_int: "strip (str_of_int n) = str_of_int n"
  by (rule strip_no_ws) (use str_of_int_chars in blast)

lemma echoes_lio: "last p \<noteq> ''vpd_unit_serial'' \<Longrightarrow> echoes lio p f"
proof -
  assume a: "last p \<noteq> ''vpd_unit_serial''"
  have "\<exists>m t. map_of f' (realpath f' p) = Some (File m (Inr t)) \<and> strip t = strip s" if h: "lio_write f p s = Inr f'" for s f'
  proof -
    obtain m where f': "map_of f' = (map_of f)(p \<mapsto> File m (Inr (lio_show p s)))"
      using lio_write_Inr [OF h] by blast
    then have "realpath f' p = p" by (simp add: realpath_def)
    with f' a show ?thesis by (simp add: lio_show_def)
  qed
  then show ?thesis by (simp add: echoes_def)
qed

section \<open>Reading\<close>

interpretation ro: step_rel "(=) :: world \<Rightarrow> world \<Rightarrow> bool"
  by unfold_locales auto

named_theorems reads "programs that leave the world as it was"

lemma read_text_reads [reads]: "stays (=) (read_text p)"
  by (auto simp: stays_wp wp split: option.splits node.splits sum.splits)

lemma listdir_reads [reads]: "stays (=) (listdir p)"
  by (auto simp: stays_wp wp)

lemma fread_reads [reads]: "stays (=) (fread p)"
  unfolding fread_def by (intro ro.comb ro.base reads)

lemma fileM_reads [reads]: "stays (=) (is_dirM p)" "stays (=) (is_fileM p)" "stays (=) (is_symlinkM p)" "stays (=) (realpathM p)"
  by (simp_all add: fileM_defs ro.gets_stays)

lemma check_self_reads [reads]: "stays (=) (check_self cls p)"
  unfolding check_self_def exists_def by (intro ro.comb ro.base reads)

lemma get_attribute_reads [reads]: "stays (=) (get_attribute cls p a)"
  unfolding get_attribute_def Let_def by (intro ro.comb ro.base reads)

lemma get_parameter_reads [reads]: "stays (=) (get_parameter cls p a)"
  unfolding get_parameter_def Let_def by (intro ro.comb ro.base reads)

lemma list_files_reads [reads]: "stays (=) (list_files p x y)"
  unfolding list_files_def by (rule ro.gets_stays)

lemma list_attributes_reads [reads]: "stays (=) (list_attributes cls p x y)"
  unfolding list_attributes_def by (intro ro.comb ro.base reads)

lemma list_parameters_reads [reads]: "stays (=) (list_parameters cls p x y)"
  unfolding list_parameters_def by (intro ro.comb ro.base reads)

lemma node_dump_reads [reads]: "stays (=) (node_dump cls p)"
  unfolding node_dump_def by (intro ro.comb ro.base reads)

text \<open>The sections of a dump.\<close>

lemma node_dump_keys:
  "wp (node_dump cls p) (\<lambda>d _. fst ` set d \<subseteq> {''attributes'', ''parameters''} \<and>
     (rw_names (fs w) (p @ [''param'']) = [] \<longrightarrow> ''parameters'' \<notin> fst ` set d)) (\<lambda>_ _. True) w"
proof -
  let ?Q = "\<lambda>d (_::world). fst ` set d \<subseteq> {''attributes'', ''parameters''} \<and>
     (rw_names (fs w) (p @ [''param'']) = [] \<longrightarrow> ''parameters'' \<notin> fst ` set d)"
  have params: "wp (bindM (list_parameters cls p (Some True) (Some True)) (\<lambda>items.
        collect (iter items) (\<lambda>item. bindM (get_parameter cls p item) (\<lambda>s. ret (item, PStr s)))))
      (\<lambda>ps _. rw_names (fs w) (p @ [''param'']) = [] \<longrightarrow> ps = []) (\<lambda>_ _. True) w"
    by (cases "rw_names (fs w) (p @ [''param'']) = []")
      (auto simp: wp wp_def [of "list_files _ _ _"] list_parameters_def list_files_rw collect_def wp_eta)
  have attrs: "stays (=) (bindM (list_attributes cls p (Some True) (Some True)) (\<lambda>items.
       collect (iter items) (\<lambda>item. bindM (get_attribute cls p item) (\<lambda>s.
           case py_int s of Some n \<Rightarrow> ret (item, PInt n)
           | None \<Rightarrow> bindM (get_attribute cls p item) (\<lambda>s'. ret (item, PStr s'))))))"
    by (intro ro.comb ro.base reads)
  show ?thesis
    unfolding node_dump_def
  proof (rule wp_bindI [where P = "\<lambda>_ u. u = w"])
    fix attrs and u :: world assume "u = w"
    then show "wp (bindM (bindM (list_parameters cls p (Some True) (Some True)) (\<lambda>items.
        collect (iter items) (\<lambda>item. bindM (get_parameter cls p item) (\<lambda>s. ret (item, PStr s)))))
      (\<lambda>params. ret ((if attrs \<noteq> [] then [(''attributes'', PDict attrs)] else []) @
             (if params \<noteq> [] then [(''parameters'', PDict params)] else [])))) ?Q (\<lambda>_ _. True) u"
      by (simp only:) (rule wp_bindI [OF params], auto simp: wp)
  qed (rule wp_mono [OF attrs [unfolded stays_wp, rule_format]]; simp)
qed

section \<open>Properties\<close>

text \<open>
  C23. The creation modes. After a successful \<^verbatim>\<open>_create_in_cfs_ine\<close> the node is there; \<open>lookup\<close> succeeds
  only on an existing node, \<open>create\<close> only on a new one (or on an empty adapter directory, which it
  replaces), and looking up or re-using an existing node changes nothing. In every outcome,
  errors included, nothing outside the node's own directory appears or disappears.
\<close>

theorem create_in_cfs_ine_modes:
  assumes "configfs K"
  shows "wp (create_in_cfs_ine K cls p mode)
    (\<lambda>_ w'. is_dir (fs w') p \<and> frame (prefix p) w w' \<and>
       (is_dir (fs w) p \<and> mode \<noteq> ''create'' \<longrightarrow> w' = w) \<and>
       (mode = ''lookup'' \<longrightarrow> is_dir (fs w) p) \<and>
       (mode = ''create'' \<and> is_dir (fs w) p \<longrightarrow> children (fs w) (realpath (fs w) p) = [] \<and>
          realpath (fs w) (butlast (realpath (fs w) p)) = realpath (fs w) (configfs_dir @ [''core''])))
    (\<lambda>e w'. frame (prefix p) w w' \<and> (mode = ''lookup'' \<longrightarrow> w' = w \<and> \<not> is_dir (fs w) p)) w"
proof -
  have "stays (frame (prefix p)) (create_in_cfs_ine K cls p mode)"
    by (rule configfs.create_stays [OF assms]) simp
  then have "wp (create_in_cfs_ine K cls p mode) (\<lambda>_. frame (prefix p) w) (\<lambda>_. frame (prefix p) w) w"
    by (simp add: stays_wp)
  from wp_conj [OF configfs.create_post [OF assms] this] show ?thesis
    by (rule wp_mono) auto
qed

theorem create_in_cfs_ine_modes_witness:
  "wp (create_in_cfs_ine lio ''Target'' (configfs_dir @ [''iscsi'', ''iqn.2003-01.org.a:b'']) ''create'')
    (\<lambda>_ w'. is_dir (fs w') (configfs_dir @ [''iscsi'', ''iqn.2003-01.org.a:b''])) (\<lambda>_ _. False) world0"
proof -
  have ok: "fst (create_in_cfs_ine lio ''Target'' (configfs_dir @ [''iscsi'', ''iqn.2003-01.org.a:b'']) ''create''
      world0) = Ok ()"
    by code_simp
  from create_in_cfs_ine_modes [OF lio_fs.configfs_axioms, of "''Target''"
      "configfs_dir @ [''iscsi'', ''iqn.2003-01.org.a:b'']" "''create''" world0] ok
  show ?thesis by (simp add: wp_def split: prod.splits res.splits)
qed

text \<open>
  Storing an attribute either succeeds or raises one of the library's own errors and leaves
  the world as it was: no exception of the operating system leaks out of \<^verbatim>\<open>set_attribute\<close>.
\<close>

theorem set_attribute_errors:
  "wp (set_attribute K cls p a v) (\<lambda>_ w'. is_dir (fs w) p \<and> is_file (fs w) (pdiv (p @ [''attrib'']) a))
     (\<lambda>e w'. is_rtslib_error e \<and> w' = w) w"
  by (auto simp: set_attribute_def wp is_fileM_def fwrite_def write_text_def Let_def split: sum.splits)

text \<open>
  C33. Applying a dictionary of attributes with the collecting error function never raises,
  whatever the dictionary holds, keeps the shape of the file system and only appends to the list
  of errors.
\<close>

theorem set_attributes_total:
  assumes "configfs K"
  shows "wp (set_attributes K (set_attribute K cls p) d err_collect)
    (\<lambda>_ w'. frame no_shape w w' \<and> prefix (errors w) (errors w')) (\<lambda>_ _. False) w"
  unfolding set_attributes_def
proof (rule for_each_iter_total)
  fix x :: "string \<times> pyval" and s
  assume I: "frame no_shape w s \<and> prefix (errors w) (errors s)"
  obtain n v where x: "x = (n, v)" by (cases x)
  have fr: "wp (set_attribute K cls p n v) (\<lambda>_. frame no_shape s) (\<lambda>_. frame no_shape s) s"
    using configfs.set_attribute_stays [OF assms] by (simp add: stays_wp)
  have er: "wp (set_attribute K cls p n v) (\<lambda>_ w'. errors w' = errors s) (\<lambda>e w'. is_rtslib_error e \<and> w' = s) s"
    by (auto simp: set_attribute_def wp is_fileM_def fwrite_def write_text_def Let_def split: sum.splits)
  show "wp (case x of (name, value) \<Rightarrow> catchM (set_attribute K cls p name value)
       (\<lambda>e. if is_rtslib_error e then err_collect (exn_str K e) else raise e))
     (\<lambda>_ w'. frame no_shape w w' \<and> prefix (errors w) (errors w')) (\<lambda>_ _. False) s"
    unfolding x prod.case wp_catchM
    by (rule wp_mono [OF wp_conj [OF fr er]])
      (use I in \<open>auto simp: err_collect_def wp frame_def\<close>)
qed (simp add: frame_def)

theorem set_attributes_total_witness:
  "wp (set_attributes lio (set_attribute lio ''TPG'' (configfs_dir @ [''iscsi'']))
      [(''nosuch'', PInt 1)] err_collect)
    (\<lambda>_ w'. frame no_shape world0 w' \<and> prefix (errors world0) (errors w')) (\<lambda>_ _. False) world0"
  by (rule set_attributes_total [OF lio_fs.configfs_axioms])

definition attrib_world :: world where
  "attrib_world = world0\<lparr>fs := fs world0 @
     [([''sys'', ''kernel'', ''config'', ''target'', ''iscsi'', ''attrib''], Dir),
      ([''sys'', ''kernel'', ''config'', ''target'', ''iscsi'', ''attrib'', ''a''], File 420 (Inr ''1'')),
      ([''sys'', ''kernel'', ''config'', ''target'', ''iscsi'', ''param'', ''a''], File 420 (Inr ''1''))]\<rparr>"

text \<open>
  C31. The dump of a node holds exactly its attribute and parameter files that are readable and
  writable, in sorted order, an attribute with a number in it as that number; an empty section is
  left out and dumping changes nothing.
\<close>

theorem node_dump_contents:
  assumes "is_dir (fs w) p" and "plain_readable (fs w) (p @ [''attrib''])"
    and "plain_readable (fs w) (p @ [''param''])"
  shows "node_dump cls p w =
    (let as = rw_names (fs w) (p @ [''attrib'']); ps = rw_names (fs w) (p @ [''param'']) in
     (Ok ((if as \<noteq> [] then [(''attributes'',
             PDict (map (\<lambda>n. (n, attr_val (text_at (fs w) (p @ [''attrib'', n])))) as))] else []) @
          (if ps \<noteq> [] then [(''parameters'',
             PDict (map (\<lambda>n. (n, PStr (text_at (fs w) (p @ [''param'', n])))) ps))] else [])), w))"
proof -
  let ?as = "rw_names (fs w) (p @ [''attrib''])" and ?ps = "rw_names (fs w) (p @ [''param''])"
  have a: "collect (iter ?as) (\<lambda>item. bindM (get_attribute cls p item) (\<lambda>s. case py_int s of
        Some n \<Rightarrow> ret (item, PInt n)
      | None \<Rightarrow> bindM (get_attribute cls p item) (\<lambda>s'. ret (item, PStr s')))) w =
    (Ok (map (\<lambda>n. (n, attr_val (text_at (fs w) (p @ [''attrib'', n])))) ?as), w)"
    by (rule collect_iter_pure)
      (use get_attribute_text [OF assms(1,2)] in \<open>auto simp: bindM_def ret_def attr_val_def split: option.splits\<close>)
  have b: "collect (iter ?ps) (\<lambda>item. bindM (get_parameter cls p item) (\<lambda>s. ret (item, PStr s))) w =
    (Ok (map (\<lambda>n. (n, PStr (text_at (fs w) (p @ [''param'', n])))) ?ps), w)"
    by (rule collect_iter_pure)
      (use get_parameter_text [OF assms(1,3)] in \<open>auto simp: bindM_def ret_def\<close>)
  show ?thesis
    unfolding node_dump_def bindM_def list_attributes_def list_parameters_def seqM_def
    by (simp add: check_self_Ok assms(1) list_files_rw a [unfolded bindM_def] b [unfolded bindM_def]
        ret_def Let_def)
qed

theorem node_dump_contents_witness:
  "node_dump ''TPG'' (configfs_dir @ [''iscsi'']) attrib_world =
     (Ok [(''attributes'', PDict [(''a'', PInt 1)])], attrib_world)"
proof -
  have "rw_names (fs attrib_world) (configfs_dir @ [''iscsi'', ''attrib'']) = [''a'']"
    "rw_names (fs attrib_world) (configfs_dir @ [''iscsi'', ''param'']) = []"
    "attr_val (text_at (fs attrib_world) (configfs_dir @ [''iscsi'', ''attrib'', ''a''])) = PInt 1"
    by code_simp+
  moreover have "is_dir (fs attrib_world) (configfs_dir @ [''iscsi''])"
    "plain_readable (fs attrib_world) ((configfs_dir @ [''iscsi'']) @ [''attrib''])"
    "plain_readable (fs attrib_world) ((configfs_dir @ [''iscsi'']) @ [''param''])"
    by code_simp+
  ultimately show ?thesis
    using node_dump_contents [of attrib_world "configfs_dir @ [''iscsi'']" "''TPG''"] by simp
qed

end
