(* ===== verification/Udev.thy ===== *)
theory Udev
  imports Node
begin

text \<open>
  The block device helpers of \<^verbatim>\<open>utils.py\<close>, over what \<^verbatim>\<open>pyudev\<close> tells of devices (the parameters
  \<open>k_udev_file\<close>, \<open>k_udev_name\<close> and \<open>k_udev_block\<close> of the environment) and what opening a device
  exclusively gives (\<open>k_open_excl\<close>). Paths of devices are taken from the root.
\<close>

section \<open>Reading attributes\<close>

text \<open>\<^verbatim>\<open>attributes.asint(name)\<close>.\<close>

definition asint :: "udev \<Rightarrow> string \<Rightarrow> exn + int" where
  "asint d a = (case map_of (dev_attrs d) a of None \<Rightarrow> Inl (KeyErr a) | Some s \<Rightarrow> to_int (PStr s))"

fun is_not_found :: "exn \<Rightarrow> bool" where
  "is_not_found (DeviceNotFoundErr _) = True"
| "is_not_found _ = False"

text \<open>\<^verbatim>\<open>os.path.realpath(str(path))\<close> of a device file.\<close>

definition realdev :: "string \<Rightarrow> string W" where
  "realdev p = gets (\<lambda>w. path_str (realpath (fs w) (comps p)))"

section \<open>In use, sizes and types\<close>

definition is_dev_in_use :: "env \<Rightarrow> string \<Rightarrow> bool W" where
  "is_dev_in_use K p =
     bindM (realdev p) (\<lambda>rp.
       try_else
         (bindM (lift (k_udev_file K rp)) (\<lambda>device.
            case k_open_excl K rp (dev_subsystem device = ''scsi_generic'') of
              Some e \<Rightarrow> raise (OSErr e (comps rp))
            | None \<Rightarrow> ret ()))
         (\<lambda>e. if is_oserror e then ret True else raise e)
         (\<lambda>_. ret False))"

definition get_size_for_dev :: "udev \<Rightarrow> exn + int" where
  "get_size_for_dev device =
     (case asint device ''size'' of
        Inl e \<Rightarrow> if is_keyerror e \<or> is_valueerror e then Inr 0 else Inl e
      | Inr sect_size \<Rightarrow>
          (case (case dev_type device of
                   None \<Rightarrow> Inl (KeyErr ''DEVTYPE'')
                 | Some t \<Rightarrow>
                     if t = ''partition''
                     then (case dev_parent device of None \<Rightarrow> Inl (AttributeErr ''attributes'') | Some d \<Rightarrow> Inr d)
                     else Inr device) of
             Inl e \<Rightarrow> Inl e
           | Inr d \<Rightarrow>
               (case asint d ''queue/logical_block_size'' of
                  Inl e \<Rightarrow> if is_keyerror e \<or> is_valueerror e then Inr 0 else Inl e
                | Inr logical_block_size \<Rightarrow>
                    if logical_block_size = 0 then Inl (ZeroDivisionErr ''integer division or modulo by zero'')
                    else Inr ((sect_size * 512) div logical_block_size))))"

definition get_size_for_blk_dev :: "env \<Rightarrow> string \<Rightarrow> int W" where
  "get_size_for_blk_dev K p =
     bindM (realdev p) (\<lambda>rp. bindM (lift (k_udev_file K rp)) (\<lambda>device. lift (get_size_for_dev device)))"

text \<open>The search for \<open>^([a-z0-9_\-!]+?)(\d+)$\<close>: the whole match and its first group.\<close>

definition disk_char :: "char \<Rightarrow> bool" where
  "disk_char c = (c \<in> {CHR ''_'', CHR ''-'', CHR ''!''} \<or> is_digit c \<or> CHR ''a'' \<le> c \<and> c \<le> CHR ''z'')"

definition partition_match :: "string \<Rightarrow> (string \<times> string) option" where
  "partition_match name =
     (let m = (if name \<noteq> [] \<and> last name = newline then butlast name else name);
          digits = takeWhile is_digit (rev m); stem = rev (drop (length digits) (rev m)) in
      if digits \<noteq> [] \<and> length m \<ge> 2 \<and> list_all disk_char m
      then Some (m, if stem = [] then take 1 m else stem) else None)"

definition get_size_for_disk_name :: "env \<Rightarrow> string \<Rightarrow> exn + int" where
  "get_size_for_disk_name K name =
     (let get_size = (\<lambda>n. case k_udev_name K ''block'' n of Inl e \<Rightarrow> Inl e | Inr d \<Rightarrow> get_size_for_dev d);
          name' = map (\<lambda>c. if c = CHR ''/'' then CHR ''!'' else c) name in
      (case get_size name' of
         Inr n \<Rightarrow> Inr n
       | Inl e \<Rightarrow>
           if \<not> is_not_found e then Inl e
           else (case partition_match name' of
               None \<Rightarrow> Inl e
             | Some (m, disk) \<Rightarrow>
                 if last disk = CHR ''p'' \<and> length disk < 2 then Inl (IndexErr ''string index out of range'')
                 else get_size m)))"

definition get_blockdev_type :: "env \<Rightarrow> string \<Rightarrow> exn + int option" where
  "get_blockdev_type K p =
     (case k_udev_file K p of
        Inl e \<Rightarrow> if is_oserror e \<or> is_not_found e \<or> is_valueerror e then Inr None else Inl e
      | Inr device \<Rightarrow>
          if dev_subsystem device \<noteq> ''block'' then Inr None
          else (case asint device ''device/type'' of
              Inr n \<Rightarrow> Inr (Some n)
            | Inl e \<Rightarrow> if is_keyerror e \<or> is_valueerror e then Inr (Some 0) else Inl e))"

section \<open>SCSI addresses\<close>

text \<open>\<^verbatim>\<open>device.find_parent(subsystem=...)\<close>.\<close>

fun find_parent :: "string \<Rightarrow> udev option \<Rightarrow> udev option" where
  "find_parent sub None = None"
| "find_parent sub (Some (Udev s t at n nd p)) = (if s = sub then Some (Udev s t at n nd p) else find_parent sub p)"

fun ints :: "string list \<Rightarrow> int list option" where
  "ints [] = Some []"
| "ints (s # ss) = (case (py_int s, ints ss) of (Some n, Some ns) \<Rightarrow> Some (n # ns) | _ \<Rightarrow> None)"

text \<open>The bare \<^verbatim>\<open>except\<close> turns every failure into the library's error.\<close>

definition convert_scsi_path_to_hctl :: "env \<Rightarrow> string \<Rightarrow> int list W" where
  "convert_scsi_path_to_hctl K p =
     bindM (realdev p) (\<lambda>rp.
       let err = raise (RTSLibError ''Could not convert scsi path to hctl'') in
       case k_udev_file K rp of
         Inl e \<Rightarrow> err
       | Inr device \<Rightarrow>
           (case find_parent ''scsi'' (dev_parent device) of
              None \<Rightarrow> err
            | Some parent \<Rightarrow>
                (case ints (split_on (CHR '':'') (dev_sys_name parent)) of None \<Rightarrow> err | Some ns \<Rightarrow> ret ns)))"

definition convert_scsi_hctl_to_path :: "env \<Rightarrow> int \<Rightarrow> int \<Rightarrow> int \<Rightarrow> int \<Rightarrow> exn + string" where
  "convert_scsi_hctl_to_path K host controller target lun =
     (case k_udev_name K ''scsi'' (join '':'' (map str_of_int [host, controller, target, lun])) of
        Inl e \<Rightarrow> Inl (if is_not_found e then RTSLibError ''Could not find path for SCSI hctl'' else e)
      | Inr scsi_device \<Rightarrow>
          (case k_udev_block K scsi_device of
             [] \<Rightarrow> Inr ''''
           | dev # _ \<Rightarrow>
               (case dev_node dev of
                  None \<Rightarrow> Inl (RTSLibError ''Could not find path for SCSI hctl'')
                | Some p \<Rightarrow> Inr p)))"

section \<open>Properties\<close>

lemma realdev_stays [pres]: "stays (frame A) (realdev p)"
  unfolding realdev_def by (rule fr.gets_stays)

lemma is_dev_in_use_stays [pres]: "stays (frame A) (is_dev_in_use K p)"
  unfolding is_dev_in_use_def by (intro fr.comb fr.base pres)

lemma get_size_for_blk_dev_stays [pres]: "stays (frame A) (get_size_for_blk_dev K p)"
  unfolding get_size_for_blk_dev_def by (intro fr.comb fr.base pres)

lemma convert_scsi_path_to_hctl_stays [pres]: "stays (frame A) (convert_scsi_path_to_hctl K p)"
  unfolding convert_scsi_path_to_hctl_def Let_def by (intro fr.comb fr.base pres)

text \<open>
  C35. The size of a device in logical blocks is exact: a partition is measured with the block size of its
  disk, the blocks fit into the device's 512-byte sectors and one more block would not. A
  device without a size, or whose disk has no block size, counts as empty instead of raising; only a device with a size and without the
  property \<^verbatim>\<open>DEVTYPE\<close> raises, a \<^verbatim>\<open>KeyError\<close>.
\<close>

theorem dev_size_exact:
  assumes "asint device ''size'' = Inr sects" and "dev_type device = Some t" and "t = ''partition'' \<Longrightarrow> dev_parent device = Some disk"
    and "t \<noteq> ''partition'' \<Longrightarrow> disk = device"
  shows "(asint disk ''queue/logical_block_size'' = Inr lbs \<and> lbs > 0 \<longrightarrow>
       (\<exists>n. get_size_for_dev device = Inr n \<and> n * lbs \<le> sects * 512 \<and> sects * 512 < (n + 1) * lbs)) \<and>
    (map_of (dev_attrs disk) ''queue/logical_block_size'' = None \<longrightarrow> get_size_for_dev device = Inr 0) \<and>
    (\<forall>d. map_of (dev_attrs d) ''size'' = None \<longrightarrow> get_size_for_dev d = Inr 0) \<and>
    (\<forall>d n. asint d ''size'' = Inr n \<and> dev_type d = None \<longrightarrow> get_size_for_dev d = Inl (KeyErr ''DEVTYPE''))"
proof -
  have eq: "get_size_for_dev device = (case asint disk ''queue/logical_block_size'' of
      Inl e \<Rightarrow> if is_keyerror e \<or> is_valueerror e then Inr 0 else Inl e
    | Inr l \<Rightarrow> if l = 0 then Inl (ZeroDivisionErr ''integer division or modulo by zero'') else Inr ((sects * 512) div l))"
    using assms by (auto simp: get_size_for_dev_def)
  have "(sects * 512) div lbs * lbs \<le> sects * 512 \<and> sects * 512 < ((sects * 512) div lbs + 1) * lbs" if "lbs > 0"
  proof -
    have "(sects * 512) div lbs * lbs + (sects * 512) mod lbs = sects * 512" by (rule div_mult_mod_eq)
    moreover have "0 \<le> (sects * 512) mod lbs" "(sects * 512) mod lbs < lbs" using that by simp_all
    moreover have "((sects * 512) div lbs + 1) * lbs = (sects * 512) div lbs * lbs + lbs" by (simp add: distrib_right)
    ultimately show ?thesis by linarith
  qed
  moreover have "get_size_for_dev d = Inr 0" if "map_of (dev_attrs d) ''size'' = None" for d
    using that by (simp add: get_size_for_dev_def asint_def)
  moreover have "get_size_for_dev d = Inl (KeyErr ''DEVTYPE'')" if "asint d ''size'' = Inr n" "dev_type d = None" for d n
    using that by (simp add: get_size_for_dev_def)
  ultimately show ?thesis unfolding eq by (auto simp: asint_def)
qed

theorem dev_size_exact_witness:
  "get_size_for_dev (Udev ''block'' (Some ''partition'') [(''size'', ''9'')] ''sda1'' None
     (Some (Udev ''block'' (Some ''disk'') [(''queue/logical_block_size'', ''4096'')] ''sda'' None None))) = Inr 1"
proof -
  let ?disk = "Udev ''block'' (Some ''disk'') [(''queue/logical_block_size'', ''4096'')] ''sda'' None None"
  let ?part = "Udev ''block'' (Some ''partition'') [(''size'', ''9'')] ''sda1'' None (Some ?disk)"
  have pre: "asint ?part ''size'' = Inr 9" "asint ?disk ''queue/logical_block_size'' = Inr 4096"
    by code_simp+
  have "\<exists>n. get_size_for_dev ?part = Inr n \<and> n * 4096 \<le> 9 * 512 \<and> 9 * 512 < (n + 1) * (4096 :: int)"
    using dev_size_exact [of ?part 9 "''partition''" ?disk 4096] pre by simp
  then obtain n where n: "get_size_for_dev ?part = Inr n" "n * 4096 \<le> 9 * 512" "9 * 512 < (n + 1) * (4096 :: int)"
    by blast
  from n(2) have "n < 2" by linarith
  moreover from n(3) have "9 * 512 < n * 4096 + 4096" by (simp add: distrib_right)
  then have "0 < n" by linarith
  ultimately have "n = 1" by linarith
  with n show ?thesis by simp
qed

end
