(* ===== verification/Fabric.thy ===== *)
theory Fabric
  imports Udev
begin

text \<open>
  \<^verbatim>\<open>fabric.py\<close>: the fabric modules, their features and WWN types, the conversion between normalised
  names and the directory names a fabric uses in configfs, and the discovery authentication
  settings. The contract of a fabric's name conversion is the locale \<open>wwn_codec\<close>; every fabric of
  the library satisfies it, so that listing a fabric's directories gives back the names its
  targets were created with. Listing the targets is in \<open>Target\<close>, the hardware scans behind
  \<^verbatim>\<open>wwns\<close> are in \<open>Sysfs\<close>.
\<close>

section \<open>Fabric modules\<close>

datatype fabric_class = ISCSI | Loopback | SBP | Qla2xxx | Efct | SRPT | FCoE | USBGadget
  | Vhost | XenPvScsi | Ibmvscsis

record fabric =
  fm_class :: fabric_class
  fm_name :: string
  fm_path :: path
  fm_features :: "string list"
  fm_wwn_types :: "string list"
  fm_kernel_module :: string

definition base_fabric :: "fabric_class \<Rightarrow> string \<Rightarrow> fabric" where
  "base_fabric c name = \<lparr>fm_class = c, fm_name = name, fm_path = pjoin configfs_dir name,
     fm_features = [''discovery_auth'', ''acls'', ''auth'', ''nps'', ''tpgts'', ''cpus_allowed_list''],
     fm_wwn_types = [''free''], fm_kernel_module = name @ ''_target_mod''\<rparr>"

definition iscsi_fabric :: fabric where
  "iscsi_fabric = (base_fabric ISCSI ''iscsi'')\<lparr>fm_wwn_types := [''iqn'', ''naa'', ''eui'']\<rparr>"

definition loopback_fabric :: fabric where
  "loopback_fabric = (base_fabric Loopback ''loopback'')\<lparr>fm_features := [''nexus''],
     fm_wwn_types := [''naa''], fm_kernel_module := ''tcm_loop''\<rparr>"

definition sbp_fabric :: fabric where
  "sbp_fabric = (base_fabric SBP ''sbp'')\<lparr>fm_features := [],
     fm_wwn_types := [''eui''], fm_kernel_module := ''sbp_target''\<rparr>"

definition qla2xxx_fabric :: fabric where
  "qla2xxx_fabric = (base_fabric Qla2xxx ''qla2xxx'')\<lparr>fm_features := [''acls''],
     fm_wwn_types := [''naa''], fm_kernel_module := ''tcm_qla2xxx''\<rparr>"

definition efct_fabric :: fabric where
  "efct_fabric = (base_fabric Efct ''efct'')\<lparr>fm_features := [''acls''],
     fm_wwn_types := [''naa''], fm_kernel_module := ''efct''\<rparr>"

definition srpt_fabric :: fabric where
  "srpt_fabric = (base_fabric SRPT ''srpt'')\<lparr>fm_features := [''acls''],
     fm_wwn_types := [''ib''], fm_kernel_module := ''ib_srpt''\<rparr>"

definition fcoe_fabric :: fabric where
  "fcoe_fabric = (base_fabric FCoE ''tcm_fc'')\<lparr>fm_features := [''acls''],
     fm_kernel_module := ''tcm_fc'', fm_wwn_types := [''naa''], fm_path := configfs_dir @ [''fc'']\<rparr>"

definition usb_gadget_fabric :: fabric where
  "usb_gadget_fabric = (base_fabric USBGadget ''usb_gadget'')\<lparr>fm_features := [''nexus''],
     fm_wwn_types := [''naa''], fm_kernel_module := ''tcm_usb_gadget''\<rparr>"

definition vhost_fabric :: fabric where
  "vhost_fabric = (base_fabric Vhost ''vhost'')\<lparr>fm_features := [''nexus'', ''acls'', ''tpgts''],
     fm_wwn_types := [''naa''], fm_kernel_module := ''tcm_vhost''\<rparr>"

definition xen_pvscsi_fabric :: fabric where
  "xen_pvscsi_fabric = (base_fabric XenPvScsi ''xen-pvscsi'')\<lparr>fm_path := configfs_dir @ [''xen-pvscsi''],
     fm_features := [''nexus'', ''tpgts''], fm_wwn_types := [''naa''], fm_kernel_module := ''xen-scsiback''\<rparr>"

definition ibmvscsis_fabric :: fabric where
  "ibmvscsis_fabric = (base_fabric Ibmvscsis ''ibmvscsis'')\<lparr>fm_features := [],
     fm_kernel_module := ''ibmvscsis''\<rparr>"

definition fabric_modules :: "(string \<times> fabric) list" where
  "fabric_modules = [(''srpt'', srpt_fabric), (''iscsi'', iscsi_fabric), (''loopback'', loopback_fabric),
     (''qla2xxx'', qla2xxx_fabric), (''efct'', efct_fabric), (''sbp'', sbp_fabric),
     (''tcm_fc'', fcoe_fabric), (''vhost'', vhost_fabric), (''xen-pvscsi'', xen_pvscsi_fabric),
     (''ibmvscsis'', ibmvscsis_fabric)]"

definition FabricModule :: "string \<Rightarrow> exn + fabric" where
  "FabricModule name = (case map_of fabric_modules name of None \<Rightarrow> Inl (KeyErr name) | Some fm \<Rightarrow> Inr fm)"

text \<open>\<^verbatim>\<open>self.__class__.__name__\<close>, for the messages.\<close>

fun fm_cls :: "fabric \<Rightarrow> string" where
  "fm_cls fm = (case fm_class fm of
      ISCSI \<Rightarrow> ''ISCSIFabricModule'' | Loopback \<Rightarrow> ''LoopbackFabricModule'' | SBP \<Rightarrow> ''SBPFabricModule''
    | Qla2xxx \<Rightarrow> ''Qla2xxxFabricModule'' | Efct \<Rightarrow> ''EfctFabricModule'' | SRPT \<Rightarrow> ''SRPTFabricModule''
    | FCoE \<Rightarrow> ''FCoEFabricModule'' | USBGadget \<Rightarrow> ''USBGadgetFabricModule'' | Vhost \<Rightarrow> ''VhostFabricModule''
    | XenPvScsi \<Rightarrow> ''XenPvScsiFabricModule'' | Ibmvscsis \<Rightarrow> ''IbmvscsisFabricModule'')"

definition FabricModule_all :: "fabric list" where
  "FabricModule_all = map snd fabric_modules"

definition target_names_excludes :: "string list" where
  "target_names_excludes = [''lio_version'', ''version'', ''discovery_auth'', ''cpus_allowed_list'']"

definition fm_has_feature :: "fabric \<Rightarrow> string \<Rightarrow> bool" where
  "fm_has_feature fm feature =
     ((if feature = ''acls_auth'' then ''auth'' else feature) \<in> set (fm_features fm))"

text \<open>
  \<^verbatim>\<open>wwns\<close> of a fabric is \<^verbatim>\<open>None\<close> when names are free, and otherwise a generator, which is true
  whether or not it yields anything.
\<close>

fun fm_has_wwns :: "fabric \<Rightarrow> bool" where
  "fm_has_wwns fm = (fm_class fm \<in> {SBP, Qla2xxx, Efct, SRPT, FCoE, Ibmvscsis})"

definition needs_wwn :: "fabric \<Rightarrow> bool" where
  "needs_wwn fm = fm_has_wwns fm"

section \<open>Names\<close>

definition to_normalized_wwn :: "fabric \<Rightarrow> string \<Rightarrow> exn + string \<times> string" where
  "to_normalized_wwn fm wwn = normalize_wwn (fm_wwn_types fm) wwn"

definition sbp_to_fabric_wwn :: "string \<Rightarrow> string" where
  "sbp_to_fabric_wwn wwn = drop 4 wwn"

definition sbp_from_fabric_wwn :: "string \<Rightarrow> string" where
  "sbp_from_fabric_wwn wwn = ''eui.'' @ wwn"

definition fc_to_fabric_wwn :: "string \<Rightarrow> string" where
  "fc_to_fabric_wwn wwn = colonize (drop 4 wwn)"

definition fc_from_fabric_wwn :: "string \<Rightarrow> string" where
  "fc_from_fabric_wwn wwn = ''naa.'' @ remove_char (CHR '':'') wwn"

definition srpt_to_fabric_wwn :: "string \<Rightarrow> string" where
  "srpt_to_fabric_wwn wwn = ''0x'' @ drop 3 wwn"

definition srpt_from_fabric_wwn :: "string \<Rightarrow> string" where
  "srpt_from_fabric_wwn wwn = ''ib.'' @ drop 2 wwn"

definition to_fabric_wwn :: "fabric \<Rightarrow> string \<Rightarrow> string" where
  "to_fabric_wwn fm wwn = (case fm_class fm of
      SBP \<Rightarrow> sbp_to_fabric_wwn wwn
    | Qla2xxx \<Rightarrow> fc_to_fabric_wwn wwn | Efct \<Rightarrow> fc_to_fabric_wwn wwn | FCoE \<Rightarrow> fc_to_fabric_wwn wwn
    | SRPT \<Rightarrow> srpt_to_fabric_wwn wwn
    | _ \<Rightarrow> wwn)"

definition from_fabric_wwn :: "fabric \<Rightarrow> string \<Rightarrow> string" where
  "from_fabric_wwn fm wwn = (case fm_class fm of
      SBP \<Rightarrow> sbp_from_fabric_wwn wwn
    | Qla2xxx \<Rightarrow> fc_from_fabric_wwn wwn | Efct \<Rightarrow> fc_from_fabric_wwn wwn | FCoE \<Rightarrow> fc_from_fabric_wwn wwn
    | SRPT \<Rightarrow> srpt_from_fabric_wwn wwn
    | _ \<Rightarrow> wwn)"

section \<open>Loading and settings\<close>

definition fm_check_self :: "env \<Rightarrow> fabric \<Rightarrow> unit W" where
  "fm_check_self K fm =
     seqM
       (bindM (exists (fm_path fm)) (\<lambda>ex.
          if \<not> ex then
            catchM (create_in_cfs_ine K (fm_cls fm) (fm_path fm) ''any'')
              (\<lambda>e. if is_rtslib_error e
                   then seqM (modprobe K (fm_kernel_module fm))
                          (create_in_cfs_ine K (fm_cls fm) (fm_path fm) ''any'')
                   else raise e)
          else ret ()))
       (check_self (fm_cls fm) (fm_path fm))"

text \<open>No class defines \<^verbatim>\<open>version_attributes\<close>, so that reading the version of a loaded fabric raises.\<close>

definition fm_get_version :: "fabric \<Rightarrow> string option W" where
  "fm_get_version fm =
     bindM (exists (fm_path fm)) (\<lambda>ex.
       if ex then raise (AttributeErr ''version_attributes'') else ret None)"

definition assert_feature :: "fabric \<Rightarrow> string \<Rightarrow> unit W" where
  "assert_feature fm feature =
     (if \<not> fm_has_feature fm feature
      then raise (RTSLibError (''Fabric module '' @ fm_name fm @ '' does not implement the '' @ feature @ '' feature''))
      else ret ())"

definition get_cpus_allowed_list :: "env \<Rightarrow> fabric \<Rightarrow> string W" where
  "get_cpus_allowed_list K fm =
     seqM (fm_check_self K fm) (seqM (assert_feature fm ''cpus_allowed_list'')
       (fread (fm_path fm @ [''cpus_allowed_list''])))"

definition set_cpus_allowed_list :: "env \<Rightarrow> fabric \<Rightarrow> pyval \<Rightarrow> unit W" where
  "set_cpus_allowed_list K fm allowed =
     seqM (fm_check_self K fm) (seqM (assert_feature fm ''cpus_allowed_list'')
       (fwrite K (fm_path fm @ [''cpus_allowed_list'']) (py_str allowed)))"

definition get_discovery_enable_auth :: "env \<Rightarrow> fabric \<Rightarrow> bool W" where
  "get_discovery_enable_auth K fm =
     seqM (fm_check_self K fm) (seqM (assert_feature fm ''discovery_auth'')
       (bindM (fread (fm_path fm @ [''discovery_auth'', ''enforce_discovery_auth'']))
         (\<lambda>value. bindM (lift (to_int (PStr value))) (\<lambda>n. ret (n \<noteq> 0)))))"

definition set_discovery_enable_auth :: "env \<Rightarrow> fabric \<Rightarrow> pyval \<Rightarrow> unit W" where
  "set_discovery_enable_auth K fm enable =
     seqM (fm_check_self K fm) (seqM (assert_feature fm ''discovery_auth'')
       (bindM (lift (to_int enable)) (\<lambda>n.
         fwrite K (fm_path fm @ [''discovery_auth'', ''enforce_discovery_auth'']) (if n \<noteq> 0 then ''1'' else ''0''))))"

definition get_discovery_authenticate_target :: "env \<Rightarrow> fabric \<Rightarrow> bool W" where
  "get_discovery_authenticate_target K fm =
     seqM (fm_check_self K fm) (seqM (assert_feature fm ''discovery_auth'')
       (bindM (fread (fm_path fm @ [''discovery_auth'', ''authenticate_target'']))
         (\<lambda>value. bindM (lift (to_int (PStr value))) (\<lambda>n. ret (n \<noteq> 0)))))"

definition get_disc_attr :: "env \<Rightarrow> fabric \<Rightarrow> string \<Rightarrow> string option W" where
  "get_disc_attr K fm attribute =
     seqM (assert_feature fm ''discovery_auth'')
       (get_auth_attr (fm_check_self K fm) (fm_path fm) attribute False)"

definition set_disc_attr :: "env \<Rightarrow> fabric \<Rightarrow> pyval \<Rightarrow> string \<Rightarrow> unit W" where
  "set_disc_attr K fm value attribute =
     seqM (assert_feature fm ''discovery_auth'')
       (set_auth_attr K (fm_check_self K fm) (fm_path fm) value attribute False)"

definition clear_discovery_auth_settings :: "env \<Rightarrow> fabric \<Rightarrow> unit W" where
  "clear_discovery_auth_settings K fm =
     seqM (fm_check_self K fm) (seqM (assert_feature fm ''discovery_auth'')
       (seqM (set_disc_attr K fm (PStr '''') ''discovery_auth/password_mutual'')
       (seqM (set_disc_attr K fm (PStr '''') ''discovery_auth/userid_mutual'')
       (seqM (set_disc_attr K fm (PStr '''') ''discovery_auth/password'')
       (seqM (set_disc_attr K fm (PStr '''') ''discovery_auth/userid'')
             (set_discovery_enable_auth K fm (PBool False)))))))"

text \<open>
  \<^verbatim>\<open>setattr(self, name, value)\<close>: the properties store in configfs, the read-only ones raise, and any
  other name becomes an attribute of the Python object, which is dropped after the restore.
\<close>

definition fm_setattr :: "env \<Rightarrow> fabric \<Rightarrow> string \<Rightarrow> pyval \<Rightarrow> unit W" where
  "fm_setattr K fm name value =
     (if name = ''cpus_allowed_list'' then set_cpus_allowed_list K fm value
      else if name = ''discovery_enable_auth'' then set_discovery_enable_auth K fm value
      else if name = ''discovery_userid'' then set_disc_attr K fm value ''discovery_auth/userid''
      else if name = ''discovery_password'' then set_disc_attr K fm value ''discovery_auth/password''
      else if name = ''discovery_mutual_userid'' then set_disc_attr K fm value ''discovery_auth/userid_mutual''
      else if name = ''discovery_mutual_password'' then set_disc_attr K fm value ''discovery_auth/password_mutual''
      else if name \<in> {''path'', ''exists'', ''targets'', ''version'', ''wwns'', ''discovery_authenticate_target''}
      then raise (AttributeErr name)
      else ret ())"

definition fm_setup :: "env \<Rightarrow> fabric \<Rightarrow> pydict \<Rightarrow> (string \<Rightarrow> unit W) \<Rightarrow> unit W" where
  "fm_setup K self fm err_func =
     for_each (iter fm) (\<lambda>(name, value).
       if name \<noteq> ''name'' then
         catchM (fm_setattr K self name value)
           (\<lambda>e. bindM (the_or (KeyErr ''name'') (map_of fm ''name'')) (\<lambda>fname.
              err_func (''Could not set fabric '' @ py_str fname @
                        '' attribute '' @ [CHR 0x27] @ name @ [CHR 0x27])))
       else ret ())"

text \<open>A non-empty authentication attribute, as a dump shows it.\<close>

definition dump_attr :: "string \<Rightarrow> string option \<Rightarrow> pydict" where
  "dump_attr key val = (case val of Some v \<Rightarrow> (if v \<noteq> '''' then [(key, PStr v)] else []) | None \<Rightarrow> [])"

definition fm_dump :: "env \<Rightarrow> fabric \<Rightarrow> pydict W" where
  "fm_dump K fm =
     seqM (fm_check_self K fm)
     (bindM (node_dump (fm_cls fm) (fm_path fm)) (\<lambda>d.
        if fm_has_feature fm ''discovery_auth'' then
          bindM (get_disc_attr K fm ''discovery_auth/userid'') (\<lambda>u.
          bindM (get_disc_attr K fm ''discovery_auth/password'') (\<lambda>p.
          bindM (get_disc_attr K fm ''discovery_auth/userid_mutual'') (\<lambda>mu.
          bindM (get_disc_attr K fm ''discovery_auth/password_mutual'') (\<lambda>mp.
          bindM (get_discovery_enable_auth K fm) (\<lambda>en.
            ret (d @ [(''name'', PStr (fm_name fm))] @
              dump_attr ''discovery_userid'' u @ dump_attr ''discovery_password'' p @
              dump_attr ''discovery_mutual_userid'' mu @ dump_attr ''discovery_mutual_password'' mp @
              [(''discovery_enable_auth'', PBool en)]))))))
        else ret (d @ [(''name'', PStr (fm_name fm))])))"

section \<open>Name conversion\<close>

text \<open>
  What a fabric's conversions promise for the names it accepts (names with a newline in them
  aside): the normal form is stable, and decoding the encoded name gives it back.
\<close>

locale wwn_codec =
  fixes types :: "string list" and enc :: "string \<Rightarrow> string" and dec :: "string \<Rightarrow> string"
  assumes stable: "normalize_wwn types w = Inr (c, t) \<Longrightarrow> newline \<notin> set w \<Longrightarrow>
      normalize_wwn types c = Inr (c, t)"
    and decode: "normalize_wwn types w = Inr (c, t) \<Longrightarrow> newline \<notin> set w \<Longrightarrow> dec (enc c) = c"
begin

text \<open>Listing a directory that was made for a name gives the name and its type back.\<close>

lemma relist:
  "normalize_wwn types w = Inr (c, t) \<Longrightarrow> newline \<notin> set w \<Longrightarrow>
   normalize_wwn types (dec (enc c)) = Inr (c, t)"
  by (simp add: decode stable)

text \<open>Different names get different directories.\<close>

lemma enc_inject:
  assumes "normalize_wwn types w = Inr (c, t)" and "newline \<notin> set w"
    and "normalize_wwn types w' = Inr (c', t')" and "newline \<notin> set w'"
  shows "enc c = enc c' \<longleftrightarrow> c = c'"
  using decode [OF assms(1,2)] decode [OF assms(3,4)] by metis

end

lemma prefixed_stable:
  assumes "t \<in> {''naa'', ''eui'', ''ib''}" and "\<forall>x \<in> set u. is_hex_lower x" and "c = t @ ''.'' @ u"
  shows "t' \<in> {''naa'', ''eui'', ''ib'', ''iqn''} \<Longrightarrow> cleanse_wwn t' c = c"
proof (cases "t' = ''iqn''")
  case True
  have "\<not> is_ws x \<and> lower_char x = x" if "x \<in> set c" for x
    using that assms is_hex_not_ws is_hex_lower_hex is_hex_lower_lower_char
    by (auto simp: is_ws_def lower_char_id)
  then show ?thesis using True by (intro cleanse_plain_id) auto
next
  case False
  assume "t' \<in> {''naa'', ''eui'', ''ib'', ''iqn''}"
  with False have "t' \<in> {''naa'', ''eui'', ''ib''}" by blast
  moreover have "t @ ''.'' \<in> {''naa.'', ''eui.'', ''ib.''}" using assms(1) by auto
  ultimately have "cleanse_wwn t' ((t @ ''.'') @ u) = (t @ ''.'') @ u"
    using assms(2) by (rule cleanse_prefixed)
  then show ?thesis using assms(3) by simp
qed

lemma prefixed_test_unique:
  assumes "t \<in> {''naa'', ''eui'', ''ib''}" and "c = t @ ''.'' @ u"
    and "t' \<in> {''naa'', ''eui'', ''ib'', ''iqn''}" and "t' \<noteq> t"
  shows "wwn_test t' c = Inr False"
proof -
  have "\<not> startswith c (t' @ ''.'')" using assms by (auto simp: startswith_def)
  then have "wwn_test t' c \<noteq> Inr True" using wwn_test_prefix [of t' c] assms(3) by blast
  then show ?thesis using assms(3) by (auto simp: wwn_test_def split: if_splits)
qed

definition library_wwn_types :: "string list list" where
  "library_wwn_types = [[''free''], [''iqn'', ''naa'', ''eui''], [''naa''], [''eui''], [''ib'']]"

lemma normalize_stable:
  assumes ts: "ts \<in> set library_wwn_types"
    and n: "normalize_wwn ts w = Inr (c, t)" and nl: "newline \<notin> set w"
  shows "normalize_wwn ts c = Inr (c, t)"
proof -
  have t: "t \<in> set ts" and c: "c = cleanse_wwn t w" and test: "wwn_test t c = Inr True"
    using normalize_loop_Some n by (auto simp: normalize_wwn_Inr)
  have clean: "cleanse_wwn t c = c" using cleanse_normal [of t w] test nl c by simp
  show ?thesis
  proof (cases "ts = [t]")
    case True
    with clean test show ?thesis by (simp add: normalize_clean)
  next
    case False
    then have ts': "ts = [''iqn'', ''naa'', ''eui'']" and "t \<in> {''iqn'', ''naa'', ''eui''}"
      using ts t by (auto simp: library_wwn_types_def)
    then consider "t = ''iqn''" | "t \<in> {''naa'', ''eui''}" by blast
    then show ?thesis
    proof cases
      case 1
      with clean test ts' show ?thesis by (simp add: normalize_wwn_Inr Let_def)
    next
      case 2
      then obtain u where u: "c = t @ ''.'' @ u" "\<forall>x \<in> set u. is_hex_lower x"
        using prefixed_normal [of t w] test nl c by auto
      have t3: "t \<in> {''naa'', ''eui'', ''ib''}" using 2 by blast
      note cl = prefixed_stable [OF t3 u(2,1)] and te = prefixed_test_unique [OF t3 u(1)]
      have iqn: "wwn_test ''iqn'' c = Inr False" using te [of "''iqn''"] 2 by auto
      have naa: "t = ''eui'' \<Longrightarrow> wwn_test ''naa'' c = Inr False" using te [of "''naa''"] by auto
      show ?thesis
        using 2
        by (elim insertE emptyE)
          (use test clean iqn naa cl [of "''iqn''"] cl [of "''naa''"] in
            \<open>simp_all add: normalize_wwn_Inr Let_def ts'\<close>)
    qed
  qed
qed

text \<open>The normal forms of the single-type fabrics.\<close>

lemma single_normal:
  assumes "t \<in> {''naa'', ''eui'', ''ib''}" and "normalize_wwn [t] w = Inr (c, t')" and "newline \<notin> set w"
  shows "\<exists>u. c = t @ ''.'' @ u \<and> (\<forall>x \<in> set u. is_hex_lower x)"
  using normalize_loop_Some [of "[t]" w c t'] prefixed_normal [of t w] assms
  by (auto simp: normalize_wwn_Inr)

lemma fc_decode:
  "\<forall>x \<in> set u. is_hex_lower x \<Longrightarrow> fc_from_fabric_wwn (fc_to_fabric_wwn (''naa'' @ ''.'' @ u)) = ''naa'' @ ''.'' @ u"
  unfolding fc_from_fabric_wwn_def fc_to_fabric_wwn_def colonize_def
  by (simp add: remove_char_join_pairs) (subst remove_char_join_pairs, auto simp: is_hex_lower_def)

lemma plain_wwn_codec: "ts \<in> set library_wwn_types \<Longrightarrow> wwn_codec ts (\<lambda>w. w) (\<lambda>w. w)"
  by unfold_locales (auto intro: normalize_stable)

interpretation iscsi_codec: wwn_codec "[''iqn'', ''naa'', ''eui'']" "\<lambda>w. w" "\<lambda>w. w"
  by (rule plain_wwn_codec) (simp add: library_wwn_types_def)

interpretation naa_codec: wwn_codec "[''naa'']" "\<lambda>w. w" "\<lambda>w. w"
  by (rule plain_wwn_codec) (simp add: library_wwn_types_def)

interpretation free_codec: wwn_codec "[''free'']" "\<lambda>w. w" "\<lambda>w. w"
  by (rule plain_wwn_codec) (simp add: library_wwn_types_def)

interpretation sbp_codec: wwn_codec "fm_wwn_types sbp_fabric" "to_fabric_wwn sbp_fabric" "from_fabric_wwn sbp_fabric"
proof
  fix w c t assume n: "normalize_wwn (fm_wwn_types sbp_fabric) w = Inr (c, t)" "newline \<notin> set w"
  then show "normalize_wwn (fm_wwn_types sbp_fabric) c = Inr (c, t)"
    by (intro normalize_stable) (auto simp: library_wwn_types_def sbp_fabric_def)
  show "from_fabric_wwn sbp_fabric (to_fabric_wwn sbp_fabric c) = c"
    using single_normal [of "''eui''" w c t] n
    by (auto simp: sbp_fabric_def base_fabric_def from_fabric_wwn_def to_fabric_wwn_def
        sbp_from_fabric_wwn_def sbp_to_fabric_wwn_def)
qed

interpretation srpt_codec: wwn_codec "fm_wwn_types srpt_fabric" "to_fabric_wwn srpt_fabric" "from_fabric_wwn srpt_fabric"
proof
  fix w c t assume n: "normalize_wwn (fm_wwn_types srpt_fabric) w = Inr (c, t)" "newline \<notin> set w"
  then show "normalize_wwn (fm_wwn_types srpt_fabric) c = Inr (c, t)"
    by (intro normalize_stable) (auto simp: library_wwn_types_def srpt_fabric_def)
  show "from_fabric_wwn srpt_fabric (to_fabric_wwn srpt_fabric c) = c"
    using single_normal [of "''ib''" w c t] n
    by (auto simp: srpt_fabric_def base_fabric_def from_fabric_wwn_def to_fabric_wwn_def
        srpt_from_fabric_wwn_def srpt_to_fabric_wwn_def)
qed

interpretation fc_codec: wwn_codec "[''naa'']" fc_to_fabric_wwn fc_from_fabric_wwn
proof
  fix w c t assume n: "normalize_wwn [''naa''] w = Inr (c, t)" "newline \<notin> set w"
  then show "normalize_wwn [''naa''] c = Inr (c, t)"
    by (intro normalize_stable) (auto simp: library_wwn_types_def)
  show "fc_from_fabric_wwn (fc_to_fabric_wwn c) = c"
    using single_normal [of "''naa''" w c t] n fc_decode by auto
qed

lemmas fabric_defs = iscsi_fabric_def loopback_fabric_def sbp_fabric_def qla2xxx_fabric_def
  efct_fabric_def srpt_fabric_def fcoe_fabric_def usb_gadget_fabric_def vhost_fabric_def
  xen_pvscsi_fabric_def ibmvscsis_fabric_def base_fabric_def

lemma fabric_codec:
  assumes "fm \<in> set FabricModule_all"
  shows "wwn_codec (fm_wwn_types fm) (to_fabric_wwn fm) (from_fabric_wwn fm)"
proof -
  have plain: "to_fabric_wwn f = (\<lambda>w. w)" "from_fabric_wwn f = (\<lambda>w. w)"
    if "fm_class f \<in> {ISCSI, Loopback, Vhost, XenPvScsi, Ibmvscsis, USBGadget}" for f
    using that by (auto simp: to_fabric_wwn_def from_fabric_wwn_def fun_eq_iff)
  have fc: "to_fabric_wwn f = fc_to_fabric_wwn" "from_fabric_wwn f = fc_from_fabric_wwn"
    if "fm_class f \<in> {Qla2xxx, Efct, FCoE}" for f
    using that by (auto simp: to_fabric_wwn_def from_fabric_wwn_def fun_eq_iff)
  consider "fm \<in> {iscsi_fabric}" | "fm \<in> {loopback_fabric, vhost_fabric, xen_pvscsi_fabric}"
    | "fm \<in> {ibmvscsis_fabric}" | "fm \<in> {qla2xxx_fabric, efct_fabric, fcoe_fabric}"
    | "fm = sbp_fabric" | "fm = srpt_fabric"
    using assms by (auto simp: FabricModule_all_def fabric_modules_def)
  then show ?thesis
  proof cases
    case 1
    then show ?thesis using iscsi_codec.wwn_codec_axioms plain [of fm] by (auto simp: fabric_defs)
  next
    case 2
    then show ?thesis using naa_codec.wwn_codec_axioms plain [of fm] by (auto simp: fabric_defs)
  next
    case 3
    then show ?thesis using free_codec.wwn_codec_axioms plain [of fm] by (auto simp: fabric_defs)
  next
    case 4
    then show ?thesis using fc_codec.wwn_codec_axioms fc [of fm] by (auto simp: fabric_defs)
  next
    case 5
    then show ?thesis using sbp_codec.wwn_codec_axioms by simp
  next
    case 6
    then show ?thesis using srpt_codec.wwn_codec_axioms by simp
  qed
qed

section \<open>Properties\<close>

text \<open>
  C19. For every fabric module, and every name it accepts without a newline in it: the name's
  normal form is a fixed point of normalisation, the directory name made from it decodes and
  normalises to the same name and type again, and two accepted names share a directory only if
  their normal forms are equal.
\<close>

theorem fabric_names_roundtrip:
  assumes "fm \<in> set FabricModule_all"
    and "to_normalized_wwn fm w = Inr (c, t)" and "newline \<notin> set w"
    and "to_normalized_wwn fm w' = Inr (c', t')" and "newline \<notin> set w'"
  shows "to_normalized_wwn fm c = Inr (c, t) \<and>
         to_normalized_wwn fm (from_fabric_wwn fm (to_fabric_wwn fm c)) = Inr (c, t) \<and>
         (to_fabric_wwn fm c = to_fabric_wwn fm c' \<longleftrightarrow> c = c')"
proof -
  note codec = fabric_codec [OF assms(1)]
  note n = assms(2,4) [unfolded to_normalized_wwn_def]
  show ?thesis
    unfolding to_normalized_wwn_def
    using wwn_codec.stable [OF codec n(1) assms(3)] wwn_codec.relist [OF codec n(1) assms(3)]
      wwn_codec.enc_inject [OF codec n(1) assms(3) n(2) assms(5)]
    by blast
qed

theorem fabric_names_roundtrip_witness:
  "to_fabric_wwn qla2xxx_fabric ''naa.2100001b32012345'' = ''21:00:00:1b:32:01:23:45'' \<and>
   to_normalized_wwn qla2xxx_fabric (from_fabric_wwn qla2xxx_fabric ''21:00:00:1b:32:01:23:45'') =
     Inr (''naa.2100001b32012345'', ''naa'')"
proof -
  have fm: "qla2xxx_fabric \<in> set FabricModule_all" by (simp add: FabricModule_all_def fabric_modules_def)
  have n: "to_normalized_wwn qla2xxx_fabric ''0x2100001B32012345'' = Inr (''naa.2100001b32012345'', ''naa'')"
    and e: "to_fabric_wwn qla2xxx_fabric ''naa.2100001b32012345'' = ''21:00:00:1b:32:01:23:45''"
    by code_simp+
  have nl: "newline \<notin> set ''0x2100001B32012345''" by code_simp
  from fabric_names_roundtrip [OF fm n nl n nl] e show ?thesis by simp
qed

end
