(* ===== verification/Backstore.thy ===== *)
theory Backstore
  imports Fabric
begin

text \<open>
  The part of \<^verbatim>\<open>tcm.py\<close> every other component rests on: the adapter directory \<^verbatim>\<open>_Backstore\<close> with
  the index cache \<^verbatim>\<open>bs_cache\<close>, the base constructor of a storage object, looking storage objects up
  by path, and the accessors shared by all plugins. The theory shows that the index allocator
  satisfies \<open>slot_allocator\<close> and that the cache never gives one index to two storage objects.
\<close>

section \<open>Plugins\<close>

datatype so_class = PSCSI | RDMCP | FileIO | Block | User

fun so_cls_name :: "so_class \<Rightarrow> string" where
  "so_cls_name PSCSI = ''PSCSIStorageObject''"
| "so_cls_name RDMCP = ''RDMCPStorageObject''"
| "so_cls_name FileIO = ''FileIOStorageObject''"
| "so_cls_name Block = ''BlockStorageObject''"
| "so_cls_name User = ''UserBackedStorageObject''"

text \<open>\<^verbatim>\<open>bs_params\<close>: the plugin name, and the prefix of the adapter directory when it differs.\<close>

fun bs_params :: "so_class \<Rightarrow> string \<times> string option" where
  "bs_params PSCSI = (''pscsi'', None)"
| "bs_params RDMCP = (''ramdisk'', Some ''rd_mcp'')"
| "bs_params FileIO = (''fileio'', None)"
| "bs_params Block = (''block'', Some ''iblock'')"
| "bs_params User = (''user'', None)"

definition so_mapping :: "(string \<times> so_class) list" where
  "so_mapping = [(''pscsi'', PSCSI), (''rd_mcp'', RDMCP), (''ramdisk'', RDMCP), (''fileio'', FileIO),
     (''iblock'', Block), (''block'', Block), (''user'', User)]"

definition bs_dirp :: "so_class \<Rightarrow> string" where
  "bs_dirp c = (case snd (bs_params c) of Some d \<Rightarrow> d | None \<Rightarrow> fst (bs_params c))"

record backstore =
  bs_cls :: so_class
  bs_index :: int
  bs_path :: path
  bs_lookup_key :: string

record storage_object =
  so_cls :: so_class
  so_name :: string
  so_backstore :: backstore
  so_path :: path
  so_plugin :: string

section \<open>The adapter directories\<close>

text \<open>
  The entries of the adapters that are directories: the adapters are listed first, the entries of each when it is reached. \<^verbatim>\<open>StorageObject.all\<close> tests for
  directories itself; the constructor of \<^verbatim>\<open>_Backstore\<close> relies on the slash at the end of its pattern \<^verbatim>\<open>core/*_*/*/\<close>, which restricts it to directories from Python
  3.11 on (earlier versions ignore the slash and also give the files of an adapter, \<^verbatim>\<open>hba_info\<close> and \<^verbatim>\<open>hba_mode\<close>).
\<close>

definition core_dir :: path where
  "core_dir = configfs_dir @ [''core'']"

definition hba_names :: "fsys \<Rightarrow> string list" where
  "hba_names f = (if is_dir f core_dir
     then filter (\<lambda>h. CHR ''_'' \<in> set h \<and> is_dir f (core_dir @ [h])) (children f (realpath f core_dir)) else [])"

definition core_glob :: "(world, string \<times> string, 'c) gen" where
  "core_glob body c =
     bindM (gets (\<lambda>w. hba_names (fs w))) (\<lambda>hbas.
       iter hbas (\<lambda>h c'.
         bindM (gets (\<lambda>w. if is_dir (fs w) (core_dir @ [h])
                          then children (fs w) (realpath (fs w) (core_dir @ [h])) else [])) (\<lambda>names.
           iter names (\<lambda>n c''.
             bindM (is_dirM (core_dir @ [h, n])) (\<lambda>d.
               if d then body (h, n) c'' else ret (Next c''))) c')) c)"

definition fill_bs_cache :: "unit W" where
  "fill_bs_cache =
     for_each core_glob (\<lambda>(h, bs_name).
       bindM (the_or (ValueErr ''not enough values to unpack'') (rsplit1 (CHR ''_'') h)) (\<lambda>(bs_dirp, bs_index).
         bindM (lift (to_int (PStr bs_index))) (\<lambda>i.
           modify (\<lambda>w. w\<lparr>bs_cache := dict_set (bs_cache w) (bs_dirp @ ''/'' @ bs_name) i\<rparr>))))"

text \<open>The search loop for a free index.\<close>

definition alloc_bs_index :: "int list \<Rightarrow> int option" where
  "alloc_bs_index indexes = range_find (\<lambda>i. i \<notin> set indexes) 0 1048576"

definition drop_key :: "string \<Rightarrow> unit W" where
  "drop_key key = modify (\<lambda>w. w\<lparr>bs_cache := dict_del (bs_cache w) key\<rparr>)"

text \<open>The index of the constructor: given, found in the cache, or allocated under the lock file.\<close>

definition bs_find_index :: "env \<Rightarrow> string \<Rightarrow> so_class \<Rightarrow> string \<Rightarrow> pyval \<Rightarrow> int W" where
  "bs_find_index K name cls mode index =
     (let plugin = fst (bs_params cls); key = bs_dirp cls @ ''/'' @ name in
      if index \<noteq> PNone then lift (to_int index)
      else bindM (gets (\<lambda>w. map_of (bs_cache w) key)) (\<lambda>cached.
        case cached of
          Some i \<Rightarrow>
            if mode = ''create''
            then raise (RTSLibError (''Storage object '' @ plugin @ ''/'' @ name @ '' exists''))
            else ret i
        | None \<Rightarrow>
            if mode = ''lookup''
            then raise (RTSLibNotInCFSError (''Storage object '' @ plugin @ ''/'' @ name @ '' not found''))
            else bindM (gets (\<lambda>w. k_lock_file K (fs w))) (\<lambda>lock.
              case lock of
                Some e \<Rightarrow> raise (OSErr e [''var'', ''run'', ''rtslib_backstore.lock''])
              | None \<Rightarrow>
                  bindM (gets (\<lambda>w. alloc_bs_index (map snd (bs_cache w)))) (\<lambda>free.
                    case free of
                      None \<Rightarrow> raise (RTSLibError ''No available backstore index'')
                    | Some i \<Rightarrow> seqM (modify (\<lambda>w. w\<lparr>bs_cache := dict_set (bs_cache w) key i\<rparr>)) (ret i)))))"

definition Backstore_init :: "env \<Rightarrow> string \<Rightarrow> so_class \<Rightarrow> string \<Rightarrow> pyval \<Rightarrow> backstore W" where
  "Backstore_init K name cls mode index =
     (let key = bs_dirp cls @ ''/'' @ name in
      seqM (bindM (gets (\<lambda>w. index = PNone \<and> bs_cache w = [])) (\<lambda>b. whenM b fill_bs_cache))
        (bindM (bs_find_index K name cls mode index) (\<lambda>i.
           let p = pdiv core_dir (bs_dirp cls @ ''_'' @ str_of_int i) in
           seqM (catchM (create_in_cfs_ine K ''_Backstore'' p mode) (\<lambda>e. seqM (drop_key key) (raise e)))
             (ret \<lparr>bs_cls = cls, bs_index = i, bs_path = p, bs_lookup_key = key\<rparr>))))"

definition Backstore_delete :: "env \<Rightarrow> backstore \<Rightarrow> unit W" where
  "Backstore_delete K bs = seqM (node_delete K (bs_path bs)) (drop_key (bs_lookup_key bs))"

definition bs_get_plugin :: "backstore \<Rightarrow> string W" where
  "bs_get_plugin bs = seqM (check_self ''_Backstore'' (bs_path bs)) (ret (fst (bs_params (bs_cls bs))))"

definition bs_get_name :: "backstore \<Rightarrow> string W" where
  "bs_get_name bs =
     seqM (check_self ''_Backstore'' (bs_path bs))
       (bindM (bs_get_plugin bs) (\<lambda>pl. ret (pl @ str_of_int (bs_index bs))))"

section \<open>Info files\<close>

text \<open>The last suffix of a string at which a match succeeds: what a search for \<open>.*\<close> and a pattern finds.\<close>

fun last_match :: "(string \<Rightarrow> 'a option) \<Rightarrow> string \<Rightarrow> 'a option" where
  "last_match f [] = f []"
| "last_match f (x # xs) = (case last_match f xs of Some r \<Rightarrow> Some r | None \<Rightarrow> f (x # xs))"

text \<open>\<^verbatim>\<open>re.search(f".*{key}: ([^: ]+).*", ' '.join(info.split())).group(1)\<close>, or \<^verbatim>\<open>None\<close>.\<close>

definition parse_info :: "string \<Rightarrow> string \<Rightarrow> string option" where
  "parse_info key info =
     last_match (\<lambda>s. if startswith s (key @ '': '')
        then (let v = takeWhile (\<lambda>c. c \<noteq> CHR '':'' \<and> c \<noteq> CHR '' '') (drop (length key + 2) s) in
              if v = [] then None else Some v)
        else None) (join '' '' (words info))"

definition bs_parse_info :: "backstore \<Rightarrow> string \<Rightarrow> string option W" where
  "bs_parse_info bs key =
     seqM (check_self ''_Backstore'' (bs_path bs))
       (bindM (fread (bs_path bs @ [''hba_info''])) (\<lambda>info. ret (parse_info key info)))"

definition bs_get_version :: "backstore \<Rightarrow> string option W" where
  "bs_get_version bs =
     seqM (check_self ''_Backstore'' (bs_path bs)) (bs_parse_info bs ''version'')"

section \<open>Storage objects\<close>

definition so_check :: "storage_object \<Rightarrow> unit W" where
  "so_check so = check_self (so_cls_name (so_cls so)) (so_path so)"

definition StorageObject_init :: "env \<Rightarrow> so_class \<Rightarrow> string \<Rightarrow> string \<Rightarrow> pyval \<Rightarrow> storage_object W" where
  "StorageObject_init K cls name mode index =
     (if \<exists>c \<in> set name. c \<in> {CHR ''/'', CHR '' '', CHR 0x09, newline}
      then raise (RTSLibError (''A storage object'' @ [CHR 0x27] @ ''s name cannot contain  /, newline or spaces/tabs''))
      else bindM (Backstore_init K name cls mode index) (\<lambda>bs.
        let p = pjoin (bs_path bs) name in
        bindM (bs_get_plugin bs) (\<lambda>plugin.
          seqM (catchM (create_in_cfs_ine K (so_cls_name cls) p mode)
                  (\<lambda>e. seqM (Backstore_delete K bs) (raise e)))
            (ret \<lparr>so_cls = cls, so_name = name, so_backstore = bs, so_path = p, so_plugin = plugin\<rparr>))))"

text \<open>The constructor of every plugin without its creation arguments looks the object up.\<close>

definition so_lookup :: "env \<Rightarrow> so_class \<Rightarrow> string \<Rightarrow> pyval \<Rightarrow> storage_object W" where
  "so_lookup K cls name index = StorageObject_init K cls name ''lookup'' index"

definition so_from_path :: "env \<Rightarrow> path \<Rightarrow> storage_object W" where
  "so_from_path K p =
     bindM (lift (if length p < 2 then Inl (IndexErr ''tuple index out of range'') else Inr (last (butlast p)))) (\<lambda>d.
       bindM (the_or (ValueErr ''not enough values to unpack'') (rsplit1 (CHR ''_'') d)) (\<lambda>(so_type, so_index).
         bindM (the_or (KeyErr so_type) (map_of so_mapping so_type)) (\<lambda>cls.
           so_lookup K cls (last p) (PStr so_index))))"

definition so_all :: "env \<Rightarrow> (world, storage_object, 'c) gen" where
  "so_all K body c =
     core_glob (\<lambda>(h, n) c'. bindM (so_from_path K (core_dir @ [h, n])) (\<lambda>so. body so c')) c"

definition so_eq :: "storage_object \<Rightarrow> storage_object \<Rightarrow> bool" where
  "so_eq a b = (so_plugin a = so_plugin b \<and> so_name a = so_name b)"

definition so_exists :: "storage_object \<Rightarrow> bool W" where
  "so_exists so = exists (so_path so)"

definition is_configured :: "storage_object \<Rightarrow> bool W" where
  "is_configured so =
     seqM (so_check so)
       (bindM (is_fileM (so_path so @ [''enable''])) (\<lambda>f.
          if f then bindM (fread (so_path so @ [''enable''])) (\<lambda>s.
            bindM (lift (to_int (PStr s))) (\<lambda>n. ret (n \<noteq> 0)))
          else ret True))"

definition so_get_wwn :: "storage_object \<Rightarrow> string W" where
  "so_get_wwn so =
     seqM (so_check so)
       (bindM (is_configured so) (\<lambda>conf.
          if conf then bindM (fread (so_path so @ [''wwn'', ''vpd_unit_serial''])) (\<lambda>s.
            ret (strip (after_char (CHR '':'') s)))
          else raise (RTSLibError ''Cannot read a T10 WWN Unit Serial from an unconfigured StorageObject'')))"

text \<open>A pscsi object ignores the assignment.\<close>

definition so_set_wwn :: "env \<Rightarrow> storage_object \<Rightarrow> string \<Rightarrow> unit W" where
  "so_set_wwn K so wwn =
     (if so_cls so = PSCSI then ret ()
      else seqM (so_check so)
        (bindM (is_configured so) (\<lambda>conf.
           if conf then fwrite K (so_path so @ [''wwn'', ''vpd_unit_serial'']) (wwn @ [newline])
           else raise (RTSLibError ''Cannot write a T10 WWN Unit Serial to an unconfigured StorageObject''))))"

definition so_parse_info :: "storage_object \<Rightarrow> string \<Rightarrow> string option W" where
  "so_parse_info so key =
     seqM (so_check so) (bindM (fread (so_path so @ [''info''])) (\<lambda>info. ret (parse_info key info)))"

text \<open>A method call or a subscript on \<^verbatim>\<open>None\<close>.\<close>

definition none_attr :: "string \<Rightarrow> 'a option \<Rightarrow> 'a W" where
  "none_attr a x = the_or (AttributeErr a) x"

definition so_set_udev_path :: "env \<Rightarrow> storage_object \<Rightarrow> string \<Rightarrow> unit W" where
  "so_set_udev_path K so udev_path =
     seqM (so_check so) (fwrite K (so_path so @ [''udev_path'']) udev_path)"

definition so_get_udev_path :: "storage_object \<Rightarrow> string W" where
  "so_get_udev_path so =
     seqM (so_check so)
       (bindM (fread (so_path so @ [''udev_path''])) (\<lambda>u.
          if u = [] then
            bindM (bs_get_plugin (so_backstore so)) (\<lambda>plugin.
              if plugin = ''fileio''
              then bindM (so_parse_info so ''File'') (\<lambda>v. bindM (none_attr ''strip'' v) (\<lambda>s. ret (strip s)))
              else ret u)
          else ret u))"

definition so_enable :: "env \<Rightarrow> storage_object \<Rightarrow> unit W" where
  "so_enable K so = seqM (so_check so) (fwrite K (so_path so @ [''enable'']) (''1'' @ [newline]))"

definition so_control :: "env \<Rightarrow> storage_object \<Rightarrow> string \<Rightarrow> unit W" where
  "so_control K so command = seqM (so_check so) (fwrite K (so_path so @ [''control'']) (strip command))"

definition so_write_fd :: "env \<Rightarrow> storage_object \<Rightarrow> string \<Rightarrow> unit W" where
  "so_write_fd K so contents = seqM (so_check so) (fwrite K (so_path so @ [''fd'']) (strip contents))"

definition so_get_status :: "storage_object \<Rightarrow> string W" where
  "so_get_status so =
     seqM (so_check so) (bindM (so_parse_info so ''Status'') (\<lambda>v.
       bindM (none_attr ''lower'' v) (\<lambda>s. ret (lower s))))"

definition so_get_version :: "storage_object \<Rightarrow> string option W" where
  "so_get_version so = bs_get_version (so_backstore so)"

text \<open>\<^verbatim>\<open>suppress(RTSLibError)\<close> around the read: a missing attribute means no support.\<close>

definition storage_object_get_alua_support_attr :: "storage_object \<Rightarrow> bool W" where
  "storage_object_get_alua_support_attr so =
     catchM (bindM (get_attribute (so_cls_name (so_cls so)) (so_path so) ''alua_support'') (\<lambda>s.
               bindM (lift (to_int (PStr s))) (\<lambda>n. ret (n = 1))))
       (\<lambda>e. if is_rtslib_error e then ret False else raise e)"

definition alua_supported :: "storage_object \<Rightarrow> bool W" where
  "alua_supported so =
     seqM (so_check so)
       (if so_cls so \<in> {PSCSI, User} then storage_object_get_alua_support_attr so else ret True)"

section \<open>Which paths a method touches\<close>

lemma modify_cache_stays [pres]: "stays (frame A) (modify (\<lambda>w. w\<lparr>bs_cache := g w\<rparr>))"
  by (simp add: stays_def modify_def frame_def)

lemma drop_key_stays [pres]: "stays (frame A) (drop_key k)"
  unfolding drop_key_def by (rule modify_cache_stays)

lemma core_glob_stays [pres]:
  "(\<And>x c. stays (frame A) (body x c)) \<Longrightarrow> stays (frame A) (core_glob body c)"
  unfolding core_glob_def by (intro fr.comb fr.base pres)

lemma fill_bs_cache_stays [pres]: "stays (frame A) fill_bs_cache"
  unfolding fill_bs_cache_def by (intro fr.comb fr.base pres) (auto intro!: fr.comb fr.base pres split: prod.splits)

lemma bs_find_index_stays [pres]: "stays (frame A) (bs_find_index K name cls mode index)"
  unfolding bs_find_index_def Let_def by (intro fr.comb fr.base pres)

lemma bs_get_plugin_stays [pres]: "stays (frame A) (bs_get_plugin bs)"
  unfolding bs_get_plugin_def by (intro fr.comb fr.base pres)

lemma create_lookup_stays [pres]: "stays (frame A) (create_in_cfs_ine K cls p ''lookup'')"
proof -
  have "create_in_cfs_ine K cls p ''lookup'' w = (fst (create_in_cfs_ine K cls p ''lookup'' w), w)" for w
    by (simp add: create_in_cfs_ine_def exists_def is_dirM_def bindM_def gets_def seqM_def ret_def raise_def)
  then show ?thesis by (metis fr.refl snd_conv stays_def)
qed

lemma Backstore_lookup_stays [pres]: "stays (frame A) (Backstore_init K name cls ''lookup'' index)"
  unfolding Backstore_init_def Let_def by (intro fr.comb fr.base pres)

lemma so_check_stays [pres]: "stays (frame A) (so_check so)"
  unfolding so_check_def by (rule check_self_stays)

context configfs
begin

lemma Backstore_delete_stays: "prefix q (bs_path bs) \<Longrightarrow> stays (frame (prefix q)) (Backstore_delete K bs)"
  unfolding Backstore_delete_def by (intro fr.comb fr.base pres node_delete_stays)

end

lemma hba_path: "pdiv core_dir (bs_dirp cls @ ''_'' @ str_of_int i) = core_dir @ [bs_dirp cls @ ''_'' @ str_of_int i]"
proof -
  have "comps ((bs_dirp cls @ ''_'') @ str_of_int i) = [(bs_dirp cls @ ''_'') @ str_of_int i]"
    by (rule comps_int; cases cls) (simp_all add: bs_dirp_def)
  moreover have "\<not> startswith (bs_dirp cls @ ''_'' @ str_of_int i) ''/''"
    by (cases cls) (simp_all add: bs_dirp_def startswith_def)
  ultimately show ?thesis by (simp add: pdiv_def)
qed

section \<open>The index cache\<close>

interpretation bs_alloc: slot_allocator alloc_bs_index 0 1048576
  by unfold_locales (auto simp: alloc_bs_index_def range_find_Some range_find_None)

text \<open>No two keys, and no two storage objects with the same index.\<close>

definition cache_ok :: "(string \<times> int) list \<Rightarrow> bool" where
  "cache_ok c = (distinct (map fst c) \<and> distinct (map snd c))"

lemma distinct_snd_dict_set:
  "distinct (map snd d) \<Longrightarrow> v \<notin> snd ` set d \<Longrightarrow> distinct (map snd (dict_set d k v))"
proof (induction d k v rule: dict_set.induct)
  case (2 k' v' d k v)
  moreover have "snd ` set (dict_set d k v) \<subseteq> insert v (snd ` set d)"
    using set_dict_set [of d k v] by auto
  ultimately show ?case by (cases "k' = k") auto
qed simp

lemma cache_ok_set: "cache_ok c \<Longrightarrow> i \<notin> set (map snd c) \<Longrightarrow> cache_ok (dict_set c k i)"
  by (simp add: cache_ok_def distinct_snd_dict_set)

lemma cache_ok_del: "cache_ok c \<Longrightarrow> cache_ok (dict_del c k)"
  unfolding cache_ok_def dict_del_def by (induction c) auto

text \<open>The key and the index that a directory below \<^verbatim>\<open>core\<close> stands for.\<close>

definition so_dir_key :: "string \<Rightarrow> string \<Rightarrow> string" where
  "so_dir_key h n = (case rsplit1 (CHR ''_'') h of Some (d, i) \<Rightarrow> d @ ''/'' @ n | None \<Rightarrow> n)"

definition so_dir_index :: "string \<Rightarrow> int" where
  "so_dir_index h = (case rsplit1 (CHR ''_'') h of Some (d, i) \<Rightarrow> (case py_int i of Some n \<Rightarrow> n | None \<Rightarrow> -1) | None \<Rightarrow> -1)"

definition so_dirs :: "fsys \<Rightarrow> (string \<times> string) list" where
  "so_dirs f = filter (\<lambda>(h, n). is_dir f (core_dir @ [h, n]))
     (concat (map (\<lambda>h. map (Pair h) (children f (realpath f (core_dir @ [h])))) (hba_names f)))"

text \<open>Every storage object has an adapter index of its own.\<close>

definition own_index :: "fsys \<Rightarrow> bool" where
  "own_index f = (\<forall>(h, n) \<in> set (so_dirs f). \<forall>(h', n') \<in> set (so_dirs f).
     so_dir_index h = so_dir_index h' \<longrightarrow> h = h' \<and> n = n')"

lemma wp_core_glob:
  assumes "I w" and "\<And>w. I w \<Longrightarrow> fs w = f"
    and "\<And>h n w. I w \<Longrightarrow> (h, n) \<in> set (so_dirs f) \<Longrightarrow> wp (body (h, n)) (\<lambda>_. I) E w"
    and "\<And>w. I w \<Longrightarrow> Q () w"
  shows "wp (for_each core_glob body) Q E w"
  unfolding for_each_def core_glob_def wp_seqM wp_bindM wp_gets
proof (rule wp_iter [where I = "\<lambda>_. I"])
  fix h c w' assume h: "h \<in> set (hba_names (fs w))" and I: "I w'"
  show "wp (bindM (gets (\<lambda>w. if is_dir (fs w) (core_dir @ [h])
           then children (fs w) (realpath (fs w) (core_dir @ [h])) else []))
         (\<lambda>names. iter names (\<lambda>n c''. bindM (is_dirM (core_dir @ [h, n]))
             (\<lambda>d. if d then seqM (body (h, n)) (ret (Next ())) else ret (Next c''))) c))
        (\<lambda>r s'. case r of Next c' \<Rightarrow> I s' | Break c' \<Rightarrow> wp (ret ()) Q E s') E w'"
    unfolding wp_bindM wp_gets
    by (rule wp_iter [where I = "\<lambda>_. I"])
      (use I h assms(1-3) in \<open>auto simp: wp wp_ret [abs_def] is_dirM_def so_dirs_def image_iff split: if_splits\<close>)
qed (use assms in \<open>auto simp: wp\<close>)

lemma fill_bs_cache_ok:
  assumes "own_index (fs w)" and "bs_cache w = []"
  shows "wp fill_bs_cache (\<lambda>_ w'. cache_ok (bs_cache w') \<and> fs w' = fs w) (\<lambda>_ w'. cache_ok (bs_cache w')) w"
proof -
  define I where "I w' \<longleftrightarrow> fs w' = fs w \<and> distinct (map fst (bs_cache w')) \<and>
      (\<forall>(k, i) \<in> set (bs_cache w'). \<exists>(h, n) \<in> set (so_dirs (fs w)). k = so_dir_key h n \<and> i = so_dir_index h)" for w' :: world
  have ok: "cache_ok (bs_cache w')" if "I w'" for w'
  proof -
    have "inj_on snd (set (bs_cache w'))"
    proof (rule inj_onI)
      fix x y assume x: "x \<in> set (bs_cache w')" and y: "y \<in> set (bs_cache w')" and eq: "snd x = snd y"
      from x that obtain h n where 1: "(h, n) \<in> set (so_dirs (fs w))" "x = (so_dir_key h n, so_dir_index h)"
        unfolding I_def by fast
      from y that obtain h' n' where 2: "(h', n') \<in> set (so_dirs (fs w))" "y = (so_dir_key h' n', so_dir_index h')"
        unfolding I_def by fast
      from 1 2 eq assms(1) have "h = h' \<and> n = n'" unfolding own_index_def by fastforce
      with 1 2 show "x = y" by simp
    qed
    then show ?thesis using that by (auto simp: I_def cache_ok_def distinct_map)
  qed
  have "wp fill_bs_cache (\<lambda>_ w'. cache_ok (bs_cache w') \<and> fs w' = fs w) (\<lambda>_. I) w"
    unfolding fill_bs_cache_def
  proof (rule wp_core_glob [where I = I and f = "fs w"])
    fix h n w' assume I: "I w'" and hn: "(h, n) \<in> set (so_dirs (fs w))"
    show "wp (case (h, n) of (h, bs_name) \<Rightarrow>
        bindM (the_or (ValueErr ''not enough values to unpack'') (rsplit1 (CHR ''_'') h)) (\<lambda>(bs_dirp, bs_index).
         bindM (lift (to_int (PStr bs_index))) (\<lambda>i.
           modify (\<lambda>w. w\<lparr>bs_cache := dict_set (bs_cache w) (bs_dirp @ ''/'' @ bs_name) i\<rparr>)))) (\<lambda>_. I) (\<lambda>_. I) w'"
    proof (cases "rsplit1 (CHR ''_'') h")
      case (Some di)
      then obtain d i where di: "rsplit1 (CHR ''_'') h = Some (d, i)" by (cases di) auto
      have "I (w'\<lparr>bs_cache := dict_set (bs_cache w') (d @ ''/'' @ n) j\<rparr>)" if j: "py_int i = Some j" for j
      proof -
        let ?c = "dict_set (bs_cache w') (d @ ''/'' @ n) j"
        have new: "d @ ''/'' @ n = so_dir_key h n" "j = so_dir_index h"
          using di j by (simp_all add: so_dir_key_def so_dir_index_def)
        have "\<exists>(h, n) \<in> set (so_dirs (fs w)). k = so_dir_key h n \<and> l = so_dir_index h" if "(k, l) \<in> set ?c" for k l
        proof -
          consider "(k, l) \<in> set (bs_cache w')" | "k = d @ ''/'' @ n" "l = j"
            using \<open>(k, l) \<in> set ?c\<close> set_dict_set [of "bs_cache w'" "d @ ''/'' @ n" j] by fast
          then show ?thesis
          proof cases
            case 1
            with I show ?thesis unfolding I_def by fast
          next
            case 2
            with hn new show ?thesis by fast
          qed
        qed
        then have "\<forall>(k, l) \<in> set ?c. \<exists>(h, n) \<in> set (so_dirs (fs w)). k = so_dir_key h n \<and> l = so_dir_index h"
          by blast
        then show ?thesis using I unfolding I_def by simp
      qed
      then show ?thesis using di I by (auto simp: wp split: option.splits)
    qed (use I in \<open>simp add: wp\<close>)
  qed (use assms ok in \<open>auto simp: I_def\<close>)
  then show ?thesis by (rule wp_mono) (use ok in auto)
qed

lemma cache_ok_create:
  assumes "configfs K" and "cache_ok (bs_cache w)"
  shows "wp (bs_find_index K name cls ''create'' PNone)
    (\<lambda>i w'. map_of (bs_cache w) (bs_dirp cls @ ''/'' @ name) = None \<and> cache_ok (bs_cache w') \<and> 0 \<le> i \<and> i < 1048576 \<and> i \<notin> snd ` set (bs_cache w) \<and>
       (\<forall>k. 0 \<le> k \<and> k < i \<longrightarrow> k \<in> snd ` set (bs_cache w)) \<and>
       bs_cache w' = dict_set (bs_cache w) (bs_dirp cls @ ''/'' @ name) i)
    (\<lambda>_ w'. w' = w) w"
  unfolding bs_find_index_def Let_def
  by (auto simp: wp bs_alloc.alloc_Some cache_ok_set assms(2) split: option.splits)

section \<open>Properties\<close>

text \<open>
  C8. Creating a storage object's adapter directory gives it an index of its own. If every storage
  object in configfs has an index of its own, or the cache is filled and has no index twice, then
  after a successful creation the new object has the least free index below 1048576, it is in the
  cache under its key and its directory is there, and in every outcome, errors included, the cache still
  has no key and no index twice.
\<close>

theorem backstore_index_unique:
  assumes "configfs K" and "cache_ok (bs_cache w)" and "bs_cache w = [] \<Longrightarrow> own_index (fs w)"
  shows "wp (Backstore_init K name cls ''create'' PNone)
    (\<lambda>bs w'. cache_ok (bs_cache w') \<and> map_of (bs_cache w') (bs_dirp cls @ ''/'' @ name) = Some (bs_index bs) \<and>
       0 \<le> bs_index bs \<and> bs_index bs < 1048576 \<and>
       (\<forall>k. 0 \<le> k \<and> k < bs_index bs \<longrightarrow> k \<in> snd ` set (bs_cache w')) \<and>
       bs_path bs = core_dir @ [bs_dirp cls @ ''_'' @ str_of_int (bs_index bs)] \<and> is_dir (fs w') (bs_path bs))
    (\<lambda>_ w'. cache_ok (bs_cache w')) w"
proof -
  let ?key = "bs_dirp cls @ ''/'' @ name"
  let ?Q = "\<lambda>bs w'. cache_ok (bs_cache w') \<and> map_of (bs_cache w') ?key = Some (bs_index bs) \<and>
       0 \<le> bs_index bs \<and> bs_index bs < 1048576 \<and> (\<forall>k. 0 \<le> k \<and> k < bs_index bs \<longrightarrow> k \<in> snd ` set (bs_cache w')) \<and>
       bs_path bs = core_dir @ [bs_dirp cls @ ''_'' @ str_of_int (bs_index bs)] \<and> is_dir (fs w') (bs_path bs)"
  let ?E = "\<lambda>(_::exn) (w'::world). cache_ok (bs_cache w')"
  have old: "j \<in> snd ` set (dict_set c k i)" if "j \<in> snd ` set c" "map_of c k = None" for j i :: int and c and k :: string
    using that dict_set_fresh [of k c i] by (auto simp: map_of_eq_None_iff)
  have alloc: "wp (bindM (bs_find_index K name cls ''create'' PNone) (\<lambda>i.
       let p = pdiv core_dir (bs_dirp cls @ ''_'' @ str_of_int i) in
       seqM (catchM (create_in_cfs_ine K ''_Backstore'' p ''create'') (\<lambda>e. seqM (drop_key ?key) (raise e)))
         (ret \<lparr>bs_cls = cls, bs_index = i, bs_path = p, bs_lookup_key = ?key\<rparr>))) ?Q ?E u"
    if u: "cache_ok (bs_cache u)" for u
  proof -
    show ?thesis
      unfolding wp_bindM Let_def
    proof (rule wp_mono [OF cache_ok_create [OF assms(1) u]])
      fix i and v :: world
      assume v: "map_of (bs_cache u) ?key = None \<and> cache_ok (bs_cache v) \<and> 0 \<le> i \<and> i < 1048576 \<and>
         i \<notin> snd ` set (bs_cache u) \<and> (\<forall>k. 0 \<le> k \<and> k < i \<longrightarrow> k \<in> snd ` set (bs_cache u)) \<and>
         bs_cache v = dict_set (bs_cache u) ?key i"
      let ?p = "pdiv core_dir (bs_dirp cls @ ''_'' @ str_of_int i)"
      show "wp (seqM (catchM (create_in_cfs_ine K ''_Backstore'' ?p ''create'') (\<lambda>e. seqM (drop_key ?key) (raise e)))
         (ret \<lparr>bs_cls = cls, bs_index = i, bs_path = ?p, bs_lookup_key = ?key\<rparr>)) ?Q ?E v"
        unfolding wp_seqM wp_catchM
        by (rule wp_mono [OF configfs.create_post [OF assms(1)]])
          (use v old in \<open>auto simp: wp drop_key_def hba_path [simplified] cache_ok_del\<close>)
    qed (use u in simp)
  qed
  show ?thesis
    unfolding Backstore_init_def Let_def
  proof (rule wp_seqI [where P = "\<lambda>u. cache_ok (bs_cache u)"])
    show "wp (bindM (gets (\<lambda>w. PNone = PNone \<and> bs_cache w = [])) (\<lambda>b. whenM b fill_bs_cache))
        (\<lambda>_ u. cache_ok (bs_cache u)) ?E w"
      using assms(2) wp_mono [OF fill_bs_cache_ok [OF assms(3)]] by (auto simp: wp)
  qed (rule alloc [unfolded Let_def])
qed

theorem backstore_index_unique_witness:
  "wp (Backstore_init lio ''disk1'' FileIO ''create'' PNone)
    (\<lambda>bs w'. bs_index bs = 0 \<and> is_dir (fs w') (core_dir @ [''fileio_0''])) (\<lambda>_ _. False) world0"
proof -
  have pre: "cache_ok (bs_cache world0)" "own_index (fs world0)" by code_simp+
  have run: "(case fst (Backstore_init lio ''disk1'' FileIO ''create'' PNone world0) of
      Ok bs \<Rightarrow> bs_index bs = 0 \<and> bs_path bs = core_dir @ [''fileio_0''] | Err e \<Rightarrow> False)"
    by code_simp
  from backstore_index_unique [OF lio_fs.configfs_axioms pre, of "''disk1''" FileIO] run
  show ?thesis by (auto simp: wp_def split: prod.splits res.splits)
qed

end
