(* ===== verification/Target.thy ===== *)
theory Target
  imports Backstore
begin

text \<open>
  \<^verbatim>\<open>target.py\<close>, the objects of a target: targets, target portal groups, LUNs, network portals, node
  ACLs and mapped LUNs, with their constructors, listings, accessors and deletion. An object is a
  record of what its Python object keeps. A constructor that lists its siblings is defined after the
  listing, which uses only its look-up branch.
\<close>

section \<open>Targets\<close>

record target =
  tgt_fm :: fabric
  tgt_wwn :: string
  tgt_wwn_type :: string
  tgt_path :: path

text \<open>The name of a new target: given and normalised (an old wrong NAA prefix is corrected first), generated, or an error.\<close>

definition target_name :: "env \<Rightarrow> fabric \<Rightarrow> string option \<Rightarrow> (string \<times> string) W" where
  "target_name K fm wwn = (case wwn of
      Some s \<Rightarrow> lift (to_normalized_wwn fm (if startswith s ''naa.6'' then ''naa.5'' @ drop 5 s else s))
    | None \<Rightarrow>
        if \<not> fm_has_wwns fm
        then bindM (lift (idx (fm_wwn_types fm) 0)) (\<lambda>t. bindM (generate_wwn K t) (\<lambda>n. ret (n, t)))
        else raise (RTSLibError ''Fabric cannot generate WWN but it was not given''))"

definition Target_init :: "env \<Rightarrow> fabric \<Rightarrow> string option \<Rightarrow> string \<Rightarrow> target W" where
  "Target_init K fm wwn mode =
     seqM (fm_check_self K fm)
       (bindM (target_name K fm wwn) (\<lambda>(name, t).
          let p = pjoin (fm_path fm) (to_fabric_wwn fm name) in
          seqM (create_in_cfs_ine K ''Target'' p mode)
            (ret \<lparr>tgt_fm = fm, tgt_wwn = name, tgt_wwn_type = t, tgt_path = p\<rparr>)))"

definition tgt_has_feature :: "target \<Rightarrow> string \<Rightarrow> bool" where
  "tgt_has_feature t feature = fm_has_feature (tgt_fm t) feature"

text \<open>\<^verbatim>\<open>_list_targets\<close> of a fabric module.\<close>

definition fm_list_targets :: "env \<Rightarrow> fabric \<Rightarrow> (world, target, 'c) gen" where
  "fm_list_targets K fm body c =
     bindM (exists (fm_path fm)) (\<lambda>ex.
       if ex then iterdir (fm_path fm) (\<lambda>name c'.
         bindM (is_dirM (fm_path fm @ [name])) (\<lambda>d.
           if d \<and> name \<notin> set target_names_excludes
           then bindM (Target_init K fm (Some (from_fabric_wwn fm name)) ''lookup'') (\<lambda>t. body t c')
           else ret (Next c'))) c
       else ret (Next c))"

section \<open>Target portal groups\<close>

record tpg =
  tpg_target :: target
  tpg_tag :: int
  tpg_path :: path

definition tpg_has_feature :: "tpg \<Rightarrow> string \<Rightarrow> bool" where
  "tpg_has_feature g feature = tgt_has_feature (tpg_target g) feature"

definition tpg_check :: "tpg \<Rightarrow> unit W" where
  "tpg_check g = check_self ''TPG'' (tpg_path g)"

definition get_nexus :: "tpg \<Rightarrow> string option W" where
  "get_nexus g =
     seqM (tpg_check g)
       (if tpg_has_feature g ''nexus''
        then catchM (bindM (fread (tpg_path g @ [''nexus''])) (\<lambda>s. ret (Some s)))
               (\<lambda>e. if is_oserror e then ret (Some '''') else raise e)
        else ret None)"

definition set_nexus :: "env \<Rightarrow> tpg \<Rightarrow> string option \<Rightarrow> unit W" where
  "set_nexus K g nexus_wwn =
     seqM (tpg_check g)
       (if \<not> tpg_has_feature g ''nexus'' then raise (RTSLibError ''The TPG does not use a nexus'')
        else bindM (get_nexus g) (\<lambda>cur.
          if cur \<noteq> None \<and> cur \<noteq> Some '''' then
            raise (RTSLibError (''The TPG'' @ [CHR 0x27] @ ''s nexus initiator WWN is already set''))
          else
            let fm = tgt_fm (tpg_target g) in
            bindM (case nexus_wwn of
                Some s \<Rightarrow>
                  if s \<noteq> '''' then bindM (lift (to_normalized_wwn fm s)) (\<lambda>(n, _). ret n)
                  else generate_wwn K (tgt_wwn_type (tpg_target g))
              | None \<Rightarrow> generate_wwn K (tgt_wwn_type (tpg_target g))) (\<lambda>n.
              fwrite K (tpg_path g @ [''nexus'']) (to_fabric_wwn fm n))))"

text \<open>The constructor once the tag is known.\<close>

definition TPG_at :: "env \<Rightarrow> target \<Rightarrow> int \<Rightarrow> string \<Rightarrow> tpg W" where
  "TPG_at K t tag mode =
     (let name = ''tpgt_'' @ str_of_int tag; p = tgt_path t @ [name];
          g = \<lparr>tpg_target = t, tpg_tag = tag, tpg_path = p\<rparr> in
      seqM (bindM (is_dirM p) (\<lambda>d.
          if \<not> tgt_has_feature t ''tpgts'' \<and> \<not> d then
            for_each (iterdir (tgt_path t)) (\<lambda>filename.
              bindM (is_dirM (tgt_path t @ [filename])) (\<lambda>fd.
                whenM (startswith filename ''tpgt_'' \<and> fd \<and> filename \<noteq> name)
                  (raise (RTSLibError ''Target cannot have multiple TPGs''))))
          else ret ()))
        (seqM (create_in_cfs_ine K ''TPG'' p mode)
          (seqM (if tgt_has_feature t ''nexus'' then
                   bindM (get_nexus g) (\<lambda>n. whenM (n = None \<or> n = Some '''') (set_nexus K g None))
                 else ret ())
            (ret g))))"

definition check_tag :: "pyval \<Rightarrow> exn + int" where
  "check_tag tag = (case to_int tag of
      Inl e \<Rightarrow> Inl e
    | Inr n \<Rightarrow> if n < 0 then Inl (RTSLibError ''The TPG Tag must be >=0'') else Inr n)"

definition list_tpgs :: "env \<Rightarrow> target \<Rightarrow> (world, tpg, 'c) gen" where
  "list_tpgs K t body c =
     seqM (check_self ''Target'' (tgt_path t))
       (glob_prefix (tgt_path t) ''tpgt'' (\<lambda>name c'.
          bindM (lift (idx (split_on (CHR ''_'') name) 1)) (\<lambda>tag.
            bindM (lift (to_int (PStr tag))) (\<lambda>i.
              bindM (lift (check_tag (PInt i))) (\<lambda>n.
                bindM (TPG_at K t n ''lookup'') (\<lambda>g. body g c'))))) c)"

text \<open>The search loop for a free tag.\<close>

definition alloc_tpg_tag :: "int list \<Rightarrow> int option" where
  "alloc_tpg_tag tags = range_find (\<lambda>i. i \<notin> set tags \<and> i > 0) 0 1048576"

definition TPG_init :: "env \<Rightarrow> target \<Rightarrow> pyval \<Rightarrow> string \<Rightarrow> tpg W" where
  "TPG_init K t tag mode =
     bindM (if tag = PNone
            then bindM (collect (list_tpgs K t) (\<lambda>g. ret (tpg_tag g))) (\<lambda>tags.
              the_or (RTSLibError ''Cannot find an available TPG Tag'') (alloc_tpg_tag tags))
            else lift (check_tag tag))
       (\<lambda>n. TPG_at K t n mode)"

definition get_enable :: "tpg \<Rightarrow> bool W" where
  "get_enable g =
     seqM (tpg_check g)
       (bindM (is_fileM (tpg_path g @ [''enable''])) (\<lambda>f.
          if f then bindM (fread (tpg_path g @ [''enable''])) (\<lambda>s.
            bindM (lift (to_int (PStr s))) (\<lambda>n. ret (n \<noteq> 0)))
          else ret True))"

text \<open>The value is compared with the state as Python compares: \<^verbatim>\<open>True\<close> equals 1 and \<^verbatim>\<open>False\<close> equals 0.\<close>

fun py_eq_bool :: "pyval \<Rightarrow> bool \<Rightarrow> bool" where
  "py_eq_bool (PBool a) b = (a = b)"
| "py_eq_bool (PInt n) b = (n = (if b then 1 else 0))"
| "py_eq_bool _ b = False"

definition set_enable :: "env \<Rightarrow> tpg \<Rightarrow> pyval \<Rightarrow> unit W" where
  "set_enable K g boolean =
     seqM (tpg_check g)
       (bindM (is_fileM (tpg_path g @ [''enable''])) (\<lambda>f.
          if f then bindM (get_enable g) (\<lambda>b.
            if \<not> py_eq_bool boolean b then
              catchM (bindM (lift (to_int boolean)) (\<lambda>n. fwrite K (tpg_path g @ [''enable'']) (str_of_int n)))
                (\<lambda>e. if is_oserror e
                     then raise (RTSLibError (''Cannot change enable state: '' @ exn_str K e)) else raise e)
            else ret ())
          else ret ()))"

definition tpg_control :: "env \<Rightarrow> tpg \<Rightarrow> pyval \<Rightarrow> unit W" where
  "tpg_control K g command =
     seqM (tpg_check g) (fwrite K (tpg_path g @ [''control'']) (py_str command @ [newline]))"

text \<open>The \<^verbatim>\<open>chap_\<close> properties; errors of the files are ignored.\<close>

definition tpg_get_auth :: "tpg \<Rightarrow> string \<Rightarrow> string option W" where
  "tpg_get_auth g attribute = get_auth_attr (tpg_check g) (tpg_path g) attribute True"

definition tpg_set_auth :: "env \<Rightarrow> tpg \<Rightarrow> pyval \<Rightarrow> string \<Rightarrow> unit W" where
  "tpg_set_auth K g value attribute = set_auth_attr K (tpg_check g) (tpg_path g) value attribute True"

text \<open>The bare \<^verbatim>\<open>except\<close> turns every failure into \<^verbatim>\<open>None\<close>.\<close>

definition tpg_authenticate_target :: "tpg \<Rightarrow> bool option W" where
  "tpg_authenticate_target g =
     seqM (tpg_check g)
       (catchM (bindM (fread (tpg_path g @ [''auth'', ''authenticate_target''])) (\<lambda>s.
                  bindM (lift (to_int (PStr s))) (\<lambda>n. ret (Some (n \<noteq> 0)))))
          (\<lambda>e. ret None))"

section \<open>Network portals\<close>

record portal =
  np_tpg :: tpg
  np_ip_address :: string
  np_port :: int
  np_path :: path

definition NetworkPortal_init :: "env \<Rightarrow> tpg \<Rightarrow> pyval \<Rightarrow> pyval \<Rightarrow> string \<Rightarrow> portal W" where
  "NetworkPortal_init K g ip_address port mode =
     bindM (catchM (lift (to_int port))
              (\<lambda>e. if is_valueerror e then raise (RTSLibError ''Invalid port'') else raise e)) (\<lambda>pt.
       let ip = py_str ip_address;
           p = pjoin (tpg_path g @ [''np'']) (ip @ '':'' @ str_of_int pt) in
       seqM (catchM (create_in_cfs_ine K ''NetworkPortal'' p mode)
               (\<lambda>e. if is_oserror e then raise (RTSLibError (exn_str K e)) else raise e))
         (ret \<lparr>np_tpg = g, np_ip_address = ip, np_port = pt, np_path = p\<rparr>))"

definition list_network_portals :: "env \<Rightarrow> tpg \<Rightarrow> (world, portal, 'c) gen" where
  "list_network_portals K g body c =
     seqM (tpg_check g)
       (if \<not> tpg_has_feature g ''nps'' then ret (Next c)
        else iterdir (tpg_path g @ [''np'']) (\<lambda>name c'.
          bindM (the_or (ValueErr ''not enough values to unpack'') (rsplit1 (CHR '':'') name)) (\<lambda>(ip_address, port).
            bindM (lift (to_int (PStr port))) (\<lambda>i.
              bindM (NetworkPortal_init K g (PStr ip_address) (PInt i) ''lookup'') (\<lambda>np. body np c')))) c)"

text \<open>The offload flags: a file that is missing reads as false, and may be missing when written.\<close>

definition np_get_flag :: "string \<Rightarrow> portal \<Rightarrow> bool W" where
  "np_get_flag file np =
     catchM (bindM (fread (np_path np @ [file])) (\<lambda>s. bindM (lift (to_int (PStr s))) (\<lambda>n. ret (n \<noteq> 0))))
       (\<lambda>e. if is_oserror e then ret False else raise e)"

definition np_set_flag :: "env \<Rightarrow> string \<Rightarrow> string \<Rightarrow> portal \<Rightarrow> pyval \<Rightarrow> unit W" where
  "np_set_flag K file what np boolean =
     catchM (bindM (lift (to_int boolean)) (\<lambda>n. fwrite K (np_path np @ [file]) (str_of_int n)))
       (\<lambda>e. if is_oserror e
            then bindM (is_fileM (np_path np @ [file])) (\<lambda>f.
              whenM f (raise (RTSLibError (''Cannot change '' @ what))))
            else raise e)"

definition get_iser :: "portal \<Rightarrow> bool W" where
  "get_iser = np_get_flag ''iser''"

definition set_iser :: "env \<Rightarrow> portal \<Rightarrow> pyval \<Rightarrow> unit W" where
  "set_iser K = np_set_flag K ''iser'' ''iser''"

definition get_offload :: "portal \<Rightarrow> bool W" where
  "get_offload = np_get_flag ''cxgbit''"

definition set_offload :: "env \<Rightarrow> portal \<Rightarrow> pyval \<Rightarrow> unit W" where
  "set_offload K = np_set_flag K ''cxgbit'' ''offload''"

definition NetworkPortal_delete :: "env \<Rightarrow> portal \<Rightarrow> unit W" where
  "NetworkPortal_delete K np =
     seqM (set_iser K np (PBool False)) (seqM (set_offload K np (PBool False)) (node_delete K (np_path np)))"

section \<open>Node ACLs\<close>

record node_acl =
  na_tpg :: tpg
  na_wwn :: string
  na_wwn_type :: string
  na_path :: path

definition NodeACL_init :: "env \<Rightarrow> tpg \<Rightarrow> string \<Rightarrow> string \<Rightarrow> node_acl W" where
  "NodeACL_init K g node_wwn mode =
     (let fm = tgt_fm (tpg_target g) in
      bindM (lift (normalize_wwn (fm_wwn_types fm) node_wwn)) (\<lambda>(name, t).
        let p = pjoin (tpg_path g @ [''acls'']) (to_fabric_wwn fm name) in
        seqM (create_in_cfs_ine K ''NodeACL'' p mode)
          (ret \<lparr>na_tpg = g, na_wwn = name, na_wwn_type = t, na_path = p\<rparr>)))"

definition list_node_acls :: "env \<Rightarrow> tpg \<Rightarrow> (world, node_acl, 'c) gen" where
  "list_node_acls K g body c =
     seqM (tpg_check g)
       (if \<not> tpg_has_feature g ''acls'' then ret (Next c)
        else iterdir (tpg_path g @ [''acls'']) (\<lambda>name c'.
          bindM (NodeACL_init K g (from_fabric_wwn (tgt_fm (tpg_target g)) name) ''lookup'') (\<lambda>na. body na c')) c)"

definition na_check :: "node_acl \<Rightarrow> unit W" where
  "na_check na = check_self ''NodeACL'' (na_path na)"

definition na_has_feature :: "node_acl \<Rightarrow> string \<Rightarrow> bool" where
  "na_has_feature na feature = tpg_has_feature (na_tpg na) feature"

definition get_tcq_depth :: "node_acl \<Rightarrow> string W" where
  "get_tcq_depth na = seqM (na_check na) (fread (na_path na @ [''cmdsn_depth'']))"

text \<open>The handler subscripts the exception object, which raises in turn.\<close>

definition set_tcq_depth :: "env \<Rightarrow> node_acl \<Rightarrow> pyval \<Rightarrow> unit W" where
  "set_tcq_depth K na depth =
     seqM (na_check na)
       (catchM (fwrite K (na_path na @ [''cmdsn_depth'']) (py_str depth))
          (\<lambda>e. if is_oserror e then raise (TypeErr ''object is not subscriptable'') else raise e))"

definition get_tag :: "node_acl \<Rightarrow> string option W" where
  "get_tag na =
     seqM (na_check na)
       (catchM (bindM (fread (na_path na @ [''tag''])) (\<lambda>tag. ret (if tag \<noteq> '''' then Some tag else None)))
          (\<lambda>e. if is_oserror e then ret None else raise e))"

definition set_tag :: "env \<Rightarrow> node_acl \<Rightarrow> pyval \<Rightarrow> unit W" where
  "set_tag K na tag_str =
     ignored is_oserror
       (if tag_str = PNone then fwrite K (na_path na @ [''tag'']) ''NULL''
        else fwrite K (na_path na @ [''tag'']) (py_str tag_str))"

definition na_get_auth :: "node_acl \<Rightarrow> string \<Rightarrow> string option W" where
  "na_get_auth na attribute = get_auth_attr (na_check na) (na_path na) attribute False"

definition na_set_auth :: "env \<Rightarrow> node_acl \<Rightarrow> pyval \<Rightarrow> string \<Rightarrow> unit W" where
  "na_set_auth K na value attribute = set_auth_attr K (na_check na) (na_path na) value attribute False"

definition na_authenticate_target :: "node_acl \<Rightarrow> bool W" where
  "na_authenticate_target na =
     seqM (na_check na)
       (bindM (fread (na_path na @ [''auth'', ''authenticate_target''])) (\<lambda>s.
          bindM (lift (to_int (PStr s))) (\<lambda>n. ret (n \<noteq> 0))))"

section \<open>Links of LUNs and mapped LUNs\<close>

text \<open>
  \<^verbatim>\<open>alias\<close> of both classes: the name of the first link in the directory. It is the name of a directory
  entry, one component of a path.
\<close>

definition get_alias :: "string \<Rightarrow> path \<Rightarrow> string W" where
  "get_alias cls p =
     seqM (check_self cls p)
       (bindM (find_first (iterdir p) (\<lambda>name. is_symlinkM (p @ [name]))) (\<lambda>found.
          the_or (RTSLibBrokenLink ''Broken LUN in configFS, no storage object'') found))"

section \<open>LUNs and mapped LUNs: looking up and listing\<close>

record lun =
  lun_tpg :: tpg
  lun_lun :: int
  lun_path :: path

record mapped_lun =
  ml_acl :: node_acl
  ml_lun :: int
  ml_path :: path

definition MAX_TARGET_LUN :: int where
  "MAX_TARGET_LUN = 65535"

definition lun_at :: "tpg \<Rightarrow> int \<Rightarrow> lun" where
  "lun_at g n = \<lparr>lun_tpg = g, lun_lun = n, lun_path = tpg_path g @ [''lun'', ''lun_'' @ str_of_int n]\<rparr>"

definition check_lun :: "pyval \<Rightarrow> exn + int" where
  "check_lun v = (case to_int v of
      Inl e \<Rightarrow> Inl e
    | Inr n \<Rightarrow> if n < 0 \<or> n > MAX_TARGET_LUN
        then Inl (RTSLibError (''LUN must be 0 to '' @ str_of_int MAX_TARGET_LUN)) else Inr n)"

definition LUN_lookup :: "env \<Rightarrow> tpg \<Rightarrow> pyval \<Rightarrow> lun W" where
  "LUN_lookup K g lun =
     bindM (lift (check_lun lun)) (\<lambda>n.
       seqM (create_in_cfs_ine K ''LUN'' (lun_path (lun_at g n)) ''lookup'') (ret (lun_at g n)))"

definition list_luns :: "env \<Rightarrow> tpg \<Rightarrow> (world, lun, 'c) gen" where
  "list_luns K g body c =
     seqM (tpg_check g)
       (iterdir (tpg_path g @ [''lun'']) (\<lambda>name c'.
          bindM (lift (idx (split_on (CHR ''_'') name) 1)) (\<lambda>s.
            bindM (lift (to_int (PStr s))) (\<lambda>n.
              bindM (LUN_lookup K g (PInt n)) (\<lambda>l. body l c')))) c)"

definition ml_at :: "node_acl \<Rightarrow> int \<Rightarrow> mapped_lun" where
  "ml_at na n = \<lparr>ml_acl = na, ml_lun = n, ml_path = na_path na @ [''lun_'' @ str_of_int n]\<rparr>"

text \<open>The checks every construction of a mapped LUN starts with.\<close>

definition ml_checks :: "node_acl \<Rightarrow> pyval \<Rightarrow> int W" where
  "ml_checks na mapped_lun =
     bindM (exists (na_path na)) (\<lambda>ex.
       if \<not> ex then raise (RTSLibError ''The parent_nodeacl does not exist'')
       else bindM (catchM (lift (to_int mapped_lun))
                     (\<lambda>e. if is_valueerror e
                          then raise (RTSLibError ''The mapped_lun parameter must be an integer value'') else raise e)) (\<lambda>n.
         if n < 0 then raise (RTSLibError ''Mapped LUN must be >= 0'') else ret n))"

definition MappedLUN_lookup :: "env \<Rightarrow> node_acl \<Rightarrow> pyval \<Rightarrow> mapped_lun W" where
  "MappedLUN_lookup K na mapped_lun =
     bindM (ml_checks na mapped_lun) (\<lambda>n.
       seqM (create_in_cfs_ine K ''MappedLUN'' (ml_path (ml_at na n)) ''lookup'') (ret (ml_at na n)))"

definition na_list_mapped_luns :: "env \<Rightarrow> node_acl \<Rightarrow> (world, mapped_lun, 'c) gen" where
  "na_list_mapped_luns K na body c =
     seqM (na_check na)
       (glob_prefix (na_path na) ''lun_'' (\<lambda>name c'.
          bindM (lift (idx (split_on (CHR ''_'') name) 1)) (\<lambda>s.
            bindM (lift (to_int (PStr s))) (\<lambda>n.
              bindM (MappedLUN_lookup K na (PInt n)) (\<lambda>ml. body ml c')))) c)"

section \<open>Mapped LUNs\<close>

definition ml_check :: "mapped_lun \<Rightarrow> unit W" where
  "ml_check ml = check_self ''MappedLUN'' (ml_path ml)"

definition ml_alias :: "mapped_lun \<Rightarrow> string W" where
  "ml_alias ml = get_alias ''MappedLUN'' (ml_path ml)"

definition set_write_protect :: "env \<Rightarrow> mapped_lun \<Rightarrow> bool \<Rightarrow> unit W" where
  "set_write_protect K ml write_protect =
     seqM (ml_check ml) (fwrite K (ml_path ml @ [''write_protect'']) (if write_protect then ''1'' else ''0''))"

definition get_write_protect :: "mapped_lun \<Rightarrow> bool W" where
  "get_write_protect ml =
     seqM (ml_check ml) (bindM (fread (ml_path ml @ [''write_protect''])) (\<lambda>s.
       bindM (lift (to_int (PStr s))) (\<lambda>n. ret (n \<noteq> 0))))"

definition get_tpg_lun :: "env \<Rightarrow> mapped_lun \<Rightarrow> lun W" where
  "get_tpg_lun K ml =
     seqM (ml_check ml)
       (bindM (ml_alias ml) (\<lambda>alias.
          bindM (realpathM (ml_path ml @ [alias])) (\<lambda>p.
            bindM (find_first (list_luns K (na_tpg (ml_acl ml))) (\<lambda>l. ret (lun_path l = p))) (\<lambda>found.
              the_or (RTSLibBrokenLink ''Broken MappedLUN, no TPG LUN found'') found))))"

definition ml_node_wwn :: "mapped_lun \<Rightarrow> string W" where
  "ml_node_wwn ml = seqM (ml_check ml) (ret (na_wwn (ml_acl ml)))"

definition MappedLUN_delete :: "env \<Rightarrow> mapped_lun \<Rightarrow> unit W" where
  "MappedLUN_delete K ml =
     seqM (ml_check ml)
       (seqM (try_else (ml_alias ml)
                (\<lambda>e. if is_broken_link e then ret () else raise e)
                (\<lambda>alias. bindM (is_symlinkM (ml_path ml @ [alias])) (\<lambda>l.
                   whenM l (unlink K (ml_path ml @ [alias])))))
          (node_delete K (ml_path ml)))"

text \<open>
  The LUN of the TPG to map: its index, or the LUN object, whose index is taken. An index of no LUN
  leaves a number behind, which is then refused.
\<close>

definition ml_configure :: "env \<Rightarrow> mapped_lun \<Rightarrow> pyval + lun \<Rightarrow> pyval \<Rightarrow> pyval \<Rightarrow> unit W" where
  "ml_configure K ml tpg_lun write_protect alias =
     seqM (ml_check ml)
     (bindM (case tpg_lun of
           Inr l \<Rightarrow> ret (lun_lun l)
         | Inl v \<Rightarrow> catchM (lift (to_int v)) (\<lambda>e. if is_valueerror e
              then raise (RTSLibError ''The tpg_lun must be either an integer or a LUN object'') else raise e)) (\<lambda>n.
      bindM (find_first (list_luns K (na_tpg (ml_acl ml))) (\<lambda>l. ret (lun_lun l = n))) (\<lambda>found.
      bindM (the_or (RTSLibError (''LUN '' @ str_of_int n @ '' does not exist in this TPG'')) found) (\<lambda>l.
      bindM (if truthy alias then ret (py_str alias)
             else bindM (uuid4 K) (\<lambda>u. ret (last_n 10 u))) (\<lambda>name.
      seqM (symlink K (lun_path l) (pjoin (ml_path ml) name))
        (catchM (bindM (lift (to_int write_protect)) (\<lambda>b. set_write_protect K ml (b > 0)))
           (\<lambda>e. set_write_protect K ml False)))))))"

definition MappedLUN_create :: "env \<Rightarrow> node_acl \<Rightarrow> pyval \<Rightarrow> pyval + lun \<Rightarrow> pyval \<Rightarrow> pyval \<Rightarrow> mapped_lun W" where
  "MappedLUN_create K na mapped_lun tpg_lun write_protect alias =
     bindM (ml_checks na mapped_lun) (\<lambda>n.
       let ml = ml_at na n in
       seqM (create_in_cfs_ine K ''MappedLUN'' (ml_path ml) ''create'')
         (seqM (catchM (ml_configure K ml tpg_lun write_protect alias)
                  (\<lambda>e. seqM (MappedLUN_delete K ml) (raise e)))
            (ret ml)))"

text \<open>The constructor: with a TPG LUN it creates, without one it looks up.\<close>

definition MappedLUN_init :: "env \<Rightarrow> node_acl \<Rightarrow> pyval \<Rightarrow> (pyval + lun) option \<Rightarrow> pyval \<Rightarrow> pyval \<Rightarrow> mapped_lun W" where
  "MappedLUN_init K na mapped_lun tpg_lun write_protect alias =
     (case tpg_lun of
        Some l \<Rightarrow> MappedLUN_create K na mapped_lun l write_protect alias
      | None \<Rightarrow>
          if write_protect \<noteq> PNone then
            seqM (ml_checks na mapped_lun)
              (raise (RTSLibError ''The write_protect parameter has no meaning without the tpg_lun parameter''))
          else MappedLUN_lookup K na mapped_lun)"

definition NodeACL_delete :: "env \<Rightarrow> node_acl \<Rightarrow> unit W" where
  "NodeACL_delete K na =
     seqM (na_check na)
       (seqM (for_each (na_list_mapped_luns K na) (MappedLUN_delete K))
          (node_delete K (na_path na)))"

section \<open>LUNs\<close>

definition lun_check :: "lun \<Rightarrow> unit W" where
  "lun_check l = check_self ''LUN'' (lun_path l)"

definition lun_alias :: "lun \<Rightarrow> string W" where
  "lun_alias l = get_alias ''LUN'' (lun_path l)"

definition get_storage_object :: "env \<Rightarrow> lun \<Rightarrow> storage_object W" where
  "get_storage_object K l =
     seqM (lun_check l)
       (bindM (lun_alias l) (\<lambda>alias. bindM (realpathM (lun_path l @ [alias])) (so_from_path K)))"

definition lun_list_mapped_luns :: "env \<Rightarrow> lun \<Rightarrow> (world, mapped_lun, 'c) gen" where
  "lun_list_mapped_luns K l body c =
     seqM (lun_check l)
       (if \<not> tpg_has_feature (lun_tpg l) ''acls'' then ret (Next c)
        else list_node_acls K (lun_tpg l) (\<lambda>na c'.
          na_list_mapped_luns K na (\<lambda>ml c''.
            bindM (ml_alias ml) (\<lambda>alias. bindM (realpathM (ml_path ml @ [alias])) (\<lambda>p.
              if p = lun_path l then body ml c'' else ret (Next c'')))) c') c)"

text \<open>\<^verbatim>\<open>path.is_symlink\<close> is not called in the source: the condition always holds.\<close>

definition LUN_delete :: "env \<Rightarrow> lun \<Rightarrow> unit W" where
  "LUN_delete K l =
     seqM (lun_check l)
       (seqM (for_each (lun_list_mapped_luns K l) (MappedLUN_delete K))
         (seqM (try_else (lun_alias l)
                  (\<lambda>e. if is_broken_link e then ret () else raise e)
                  (\<lambda>link. unlink K (lun_path l @ [link])))
           (node_delete K (lun_path l))))"

definition lun_configure :: "env \<Rightarrow> lun \<Rightarrow> storage_object \<Rightarrow> pyval \<Rightarrow> unit W" where
  "lun_configure K l so alias =
     seqM (lun_check l)
       (bindM (if alias = PNone then bindM (uuid4 K) (\<lambda>u. ret (last_n 10 u))
               else (let a = strip (py_str alias) in
                     if CHR ''/'' \<in> set a then raise (RTSLibError (''Invalid alias: '' @ a)) else ret a)) (\<lambda>name.
          bindM (so_exists so) (\<lambda>ex.
            if ex then symlink K (so_path so) (pjoin (lun_path l) name)
            else raise (RTSLibError ''storage_object does not exist in configFS''))))"

text \<open>The search loop for a free LUN.\<close>

definition alloc_lun :: "int list \<Rightarrow> int option" where
  "alloc_lun luns = range_find (\<lambda>i. i \<notin> set luns) 0 (MAX_TARGET_LUN + 1)"

definition LUN_init :: "env \<Rightarrow> tpg \<Rightarrow> pyval \<Rightarrow> storage_object option \<Rightarrow> pyval \<Rightarrow> lun W" where
  "LUN_init K g lun storage_object alias =
     bindM (if lun = PNone
            then bindM (collect (list_luns K g) (\<lambda>l. ret (lun_lun l))) (\<lambda>luns.
              the_or (RTSLibError (''All LUNs 0-'' @ str_of_int MAX_TARGET_LUN @ '' in use'')) (alloc_lun luns))
            else lift (check_lun lun)) (\<lambda>n.
       let l = lun_at g n in
       case storage_object of
         None \<Rightarrow>
           if alias \<noteq> PNone
           then raise (RTSLibError ''The alias parameter has no meaning without the storage_object parameter'')
           else seqM (create_in_cfs_ine K ''LUN'' (lun_path l) ''lookup'') (ret l)
       | Some so \<Rightarrow>
           seqM (create_in_cfs_ine K ''LUN'' (lun_path l) ''create'')
             (seqM (catchM (lun_configure K l so alias) (\<lambda>e. seqM (LUN_delete K l) (raise e)))
                (ret l)))"

section \<open>Deletion of groups and targets\<close>

definition TPG_delete :: "env \<Rightarrow> tpg \<Rightarrow> unit W" where
  "TPG_delete K g =
     seqM (tpg_check g)
     (seqM (set_enable K g (PBool False))
     (seqM (for_each (list_node_acls K g) (NodeACL_delete K))
     (seqM (for_each (list_luns K g) (LUN_delete K))
     (seqM (for_each (list_network_portals K g) (NetworkPortal_delete K))
       (node_delete K (tpg_path g))))))"

definition Target_delete :: "env \<Rightarrow> target \<Rightarrow> unit W" where
  "Target_delete K t =
     seqM (check_self ''Target'' (tgt_path t))
       (seqM (for_each (list_tpgs K t) (TPG_delete K)) (node_delete K (tgt_path t)))"

section \<open>Methods that build a part of the group\<close>

definition tpg_node_acl :: "env \<Rightarrow> tpg \<Rightarrow> string \<Rightarrow> string \<Rightarrow> node_acl W" where
  "tpg_node_acl K g node_wwn mode = seqM (tpg_check g) (NodeACL_init K g node_wwn mode)"

definition tpg_network_portal :: "env \<Rightarrow> tpg \<Rightarrow> pyval \<Rightarrow> pyval \<Rightarrow> string \<Rightarrow> portal W" where
  "tpg_network_portal K g ip_address port mode = seqM (tpg_check g) (NetworkPortal_init K g ip_address port mode)"

definition tpg_make_lun :: "env \<Rightarrow> tpg \<Rightarrow> pyval \<Rightarrow> storage_object option \<Rightarrow> pyval \<Rightarrow> lun W" where
  "tpg_make_lun K g lun storage_object alias = seqM (tpg_check g) (LUN_init K g lun storage_object alias)"

definition na_mapped_lun :: "env \<Rightarrow> node_acl \<Rightarrow> pyval \<Rightarrow> (pyval + lun) option \<Rightarrow> pyval \<Rightarrow> mapped_lun W" where
  "na_mapped_lun K na mapped_lun tpg_lun write_protect =
     seqM (na_check na) (MappedLUN_init K na mapped_lun tpg_lun write_protect PNone)"

section \<open>Which paths a method touches\<close>

lemma tpg_check_stays [pres]: "stays (frame A) (tpg_check g)"
  unfolding tpg_check_def by (rule pres)

lemma na_check_stays [pres]: "stays (frame A) (na_check na)"
  unfolding na_check_def by (rule pres)

lemma ml_check_stays [pres]: "stays (frame A) (ml_check ml)"
  unfolding ml_check_def by (rule pres)

lemma lun_check_stays [pres]: "stays (frame A) (lun_check l)"
  unfolding lun_check_def by (rule pres)

lemma get_nexus_stays [pres]: "stays (frame A) (get_nexus g)"
  unfolding get_nexus_def by (intro fr.comb fr.base pres)

lemma get_enable_stays [pres]: "stays (frame A) (get_enable g)"
  unfolding get_enable_def by (intro fr.comb fr.base pres)

lemma get_alias_stays [pres]: "stays (frame A) (get_alias cls p)"
  unfolding get_alias_def by (intro fr.comb fr.base pres)

lemma alias_stays [pres]: "stays (frame A) (ml_alias ml)" "stays (frame A) (lun_alias l)"
  unfolding ml_alias_def lun_alias_def by (intro pres)+

lemma ml_checks_stays [pres]: "stays (frame A) (ml_checks na v)"
  unfolding ml_checks_def by (intro fr.comb fr.base pres)

lemma MappedLUN_lookup_stays [pres]: "stays (frame A) (MappedLUN_lookup K na v)"
  unfolding MappedLUN_lookup_def by (intro fr.comb fr.base pres)

lemma LUN_lookup_stays [pres]: "stays (frame A) (LUN_lookup K g v)"
  unfolding LUN_lookup_def by (intro fr.comb fr.base pres)

lemma NodeACL_lookup_stays [pres]: "stays (frame A) (NodeACL_init K g n ''lookup'')"
  unfolding NodeACL_init_def Let_def by (auto intro!: fr.comb fr.base pres split: prod.splits)

lemma NetworkPortal_lookup_stays [pres]: "stays (frame A) (NetworkPortal_init K g ip pt ''lookup'')"
  unfolding NetworkPortal_init_def Let_def by (intro fr.comb fr.base pres)

subsection \<open>What a listing yields\<close>

lemma MappedLUN_lookup_yields: "yields (\<lambda>ml. ml_acl ml = na \<and> strict_prefix (na_path na) (ml_path ml)) (MappedLUN_lookup K na v)"
  unfolding MappedLUN_lookup_def by (intro yields_rules) (simp add: ml_at_def strict_prefix_def)

lemma LUN_lookup_yields: "yields (\<lambda>l. lun_tpg l = g \<and> strict_prefix (tpg_path g) (lun_path l)) (LUN_lookup K g v)"
  unfolding LUN_lookup_def by (intro yields_rules) (simp add: lun_at_def strict_prefix_def)

lemma prefix_pjoin_below: "strict_prefix p (pjoin (p @ [x]) s)"
  by (simp add: pjoin_def strict_prefix_def)

lemma NodeACL_yields: "yields (\<lambda>na. na_tpg na = g \<and> strict_prefix (tpg_path g) (na_path na)) (NodeACL_init K g n mode)"
  unfolding NodeACL_init_def Let_def
  by (auto intro!: yields_rules simp: prefix_pjoin_below split: prod.splits)

lemma NetworkPortal_yields: "yields (\<lambda>np. np_tpg np = g \<and> strict_prefix (tpg_path g) (np_path np)) (NetworkPortal_init K g ip pt mode)"
  unfolding NetworkPortal_init_def Let_def by (intro yields_rules) (simp add: prefix_pjoin_below)

lemma TPG_at_yields: "yields (\<lambda>g. tpg_target g = t \<and> strict_prefix (tgt_path t) (tpg_path g)) (TPG_at K t n mode)"
  unfolding TPG_at_def Let_def by (intro yields_rules) (simp add: strict_prefix_def)

lemma na_list_mapped_luns_stays:
  assumes "\<And>ml c. ml_acl ml = na \<and> strict_prefix (na_path na) (ml_path ml) \<Longrightarrow> stays (frame A) (body ml c)"
  shows "stays (frame A) (na_list_mapped_luns K na body c)"
  unfolding na_list_mapped_luns_def
  by (intro fr.comb fr.base pres fr.bindM_stays_on [OF MappedLUN_lookup_stays MappedLUN_lookup_yields] assms)

lemma list_luns_stays:
  assumes "\<And>l c. lun_tpg l = g \<and> strict_prefix (tpg_path g) (lun_path l) \<Longrightarrow> stays (frame A) (body l c)"
  shows "stays (frame A) (list_luns K g body c)"
  unfolding list_luns_def
  by (intro fr.comb fr.base pres fr.bindM_stays_on [OF LUN_lookup_stays LUN_lookup_yields] assms)

lemma each_lun_stays:
  assumes "\<And>l. lun_tpg l = g \<Longrightarrow> strict_prefix (tpg_path g) (lun_path l) \<Longrightarrow> stays (frame A) (body l)"
  shows "stays (frame A) (for_each (list_luns K g) body)"
  by (rule fr.for_each_stays_on [where P = "\<lambda>l. lun_tpg l = g \<and> strict_prefix (tpg_path g) (lun_path l)"])
    (auto intro: list_luns_stays assms)

lemma list_node_acls_stays:
  assumes "\<And>na c. na_tpg na = g \<and> strict_prefix (tpg_path g) (na_path na) \<Longrightarrow> stays (frame A) (body na c)"
  shows "stays (frame A) (list_node_acls K g body c)"
  unfolding list_node_acls_def
  by (intro fr.comb fr.base pres fr.bindM_stays_on [OF NodeACL_lookup_stays NodeACL_yields] assms)

lemma list_network_portals_stays:
  assumes "\<And>np c. np_tpg np = g \<and> strict_prefix (tpg_path g) (np_path np) \<Longrightarrow> stays (frame A) (body np c)"
  shows "stays (frame A) (list_network_portals K g body c)"
  unfolding list_network_portals_def
  by (intro fr.comb fr.base pres fr.bindM_stays_on [OF NetworkPortal_lookup_stays NetworkPortal_yields] assms)

lemma each_mapped_lun_stays:
  assumes "\<And>ml. strict_prefix (na_path na) (ml_path ml) \<Longrightarrow> stays (frame A) (body ml)"
  shows "stays (frame A) (for_each (na_list_mapped_luns K na) body)"
  by (rule fr.for_each_stays_on [where P = "\<lambda>ml. strict_prefix (na_path na) (ml_path ml)"])
    (auto intro: na_list_mapped_luns_stays assms)

lemma each_node_acl_stays:
  assumes "\<And>na. strict_prefix (tpg_path g) (na_path na) \<Longrightarrow> stays (frame A) (body na)"
  shows "stays (frame A) (for_each (list_node_acls K g) body)"
  by (rule fr.for_each_stays_on [where P = "\<lambda>na. strict_prefix (tpg_path g) (na_path na)"])
    (auto intro: list_node_acls_stays assms)

lemma each_portal_stays:
  assumes "\<And>np. strict_prefix (tpg_path g) (np_path np) \<Longrightarrow> stays (frame A) (body np)"
  shows "stays (frame A) (for_each (list_network_portals K g) body)"
  by (rule fr.for_each_stays_on [where P = "\<lambda>np. strict_prefix (tpg_path g) (np_path np)"])
    (auto intro: list_network_portals_stays assms)

context configfs
begin

lemma set_nexus_stays: "stays (frame A) (set_nexus K g n)"
  unfolding set_nexus_def Let_def by (intro fr.comb fr.base pres fwrite_stays)

lemma TPG_lookup_stays: "stays (frame A) (TPG_at K t n ''lookup'')"
  unfolding TPG_at_def Let_def by (intro fr.comb fr.base pres set_nexus_stays)

lemma TPG_at_stays: "prefix q (tgt_path t) \<Longrightarrow> stays (frame (prefix q)) (TPG_at K t n mode)"
  unfolding TPG_at_def Let_def
  by (intro fr.comb fr.base pres create_stays set_nexus_stays) (auto intro: prefix_order.trans)

lemma list_tpgs_stays:
  assumes "\<And>g c. tpg_target g = t \<and> strict_prefix (tgt_path t) (tpg_path g) \<Longrightarrow> stays (frame A) (body g c)"
  shows "stays (frame A) (list_tpgs K t body c)"
  unfolding list_tpgs_def
  by (intro fr.comb fr.base pres fr.bindM_stays_on [OF TPG_lookup_stays TPG_at_yields] assms)

lemma each_tpg_stays:
  assumes "\<And>g. strict_prefix (tgt_path t) (tpg_path g) \<Longrightarrow> stays (frame A) (body g)"
  shows "stays (frame A) (for_each (list_tpgs K t) body)"
  by (rule fr.for_each_stays_on [where P = "\<lambda>g. strict_prefix (tgt_path t) (tpg_path g)"])
    (auto intro: list_tpgs_stays assms)

lemma set_enable_stays: "stays (frame A) (set_enable K g v)"
  unfolding set_enable_def by (intro fr.comb fr.base pres fwrite_stays)

lemma np_set_flag_stays: "stays (frame A) (np_set_flag K file what np v)"
  unfolding np_set_flag_def by (intro fr.comb fr.base pres fwrite_stays)

lemma NetworkPortal_delete_stays: "below (np_path np) A \<Longrightarrow> stays (frame A) (NetworkPortal_delete K np)"
  unfolding NetworkPortal_delete_def set_iser_def set_offload_def
  by (intro fr.comb fr.base pres np_set_flag_stays node_delete_below)

lemma MappedLUN_delete_stays: "below (ml_path ml) A \<Longrightarrow> stays (frame A) (MappedLUN_delete K ml)"
  unfolding MappedLUN_delete_def
  by (intro fr.comb fr.base pres node_delete_below unlink_below) (auto elim: below_down)

lemma NodeACL_delete_stays: "below (na_path na) A \<Longrightarrow> stays (frame A) (NodeACL_delete K na)"
  unfolding NodeACL_delete_def
  by (intro fr.seqM_stays pres node_delete_below
      each_mapped_lun_stays MappedLUN_delete_stays)
    (auto elim: below_down)

lemma lun_list_mapped_luns_stays:
  assumes "\<And>ml c. strict_prefix (tpg_path (lun_tpg l)) (ml_path ml) \<Longrightarrow> stays (frame A) (body ml c)"
  shows "stays (frame A) (lun_list_mapped_luns K l body c)"
  unfolding lun_list_mapped_luns_def
  by (intro fr.comb fr.base pres list_node_acls_stays na_list_mapped_luns_stays assms)
    (auto intro: prefix_order.less_trans)

lemma each_lun_mapped_stays:
  assumes "\<And>ml. strict_prefix (tpg_path (lun_tpg l)) (ml_path ml) \<Longrightarrow> stays (frame A) (body ml)"
  shows "stays (frame A) (for_each (lun_list_mapped_luns K l) body)"
  by (rule fr.for_each_stays_on [where P = "\<lambda>ml. strict_prefix (tpg_path (lun_tpg l)) (ml_path ml)"])
    (auto intro: lun_list_mapped_luns_stays assms)

lemma LUN_delete_stays:
  assumes "below (lun_path l) A" and "\<And>p. strict_prefix (tpg_path (lun_tpg l)) p \<Longrightarrow> below p A"
  shows "stays (frame A) (LUN_delete K l)"
  unfolding LUN_delete_def
  by (intro fr.seqM_stays fr.try_else_stays fr.if_stays fr.base pres node_delete_below unlink_below
      each_lun_mapped_stays MappedLUN_delete_stays)
    (use assms in \<open>auto elim: below_down\<close>)

text \<open>Everything a group's deletion does before it removes its own directory is strictly below it.\<close>

lemma TPG_delete_parts_stay:
  "stays (frame (strict_prefix (tpg_path g))) (for_each (list_node_acls K g) (NodeACL_delete K))"
  "stays (frame (strict_prefix (tpg_path g))) (for_each (list_luns K g) (LUN_delete K))"
  "stays (frame (strict_prefix (tpg_path g))) (for_each (list_network_portals K g) (NetworkPortal_delete K))"
  by (intro each_node_acl_stays each_lun_stays
      each_portal_stays
      NodeACL_delete_stays LUN_delete_stays NetworkPortal_delete_stays; auto intro: below_strict)+

lemma strict_mono: "stays (frame (strict_prefix p)) m \<Longrightarrow> below p A \<Longrightarrow> stays (frame A) m"
  by (erule stays_frame_mono) (auto simp: below_def strict_prefix_def)

lemma TPG_delete_stays: "below (tpg_path g) A \<Longrightarrow> stays (frame A) (TPG_delete K g)"
  unfolding TPG_delete_def
  by (intro fr.seqM_stays pres node_delete_below set_enable_stays TPG_delete_parts_stay [THEN strict_mono])

lemma Target_delete_parts_stay:
  "stays (frame (strict_prefix (tgt_path t))) (for_each (list_tpgs K t) (TPG_delete K))"
  by (intro each_tpg_stays TPG_delete_stays; auto intro: below_strict)

lemma Target_delete_stays: "below (tgt_path t) A \<Longrightarrow> stays (frame A) (Target_delete K t)"
  unfolding Target_delete_def
  by (intro fr.seqM_stays pres node_delete_below Target_delete_parts_stay [THEN strict_mono])

text \<open>Deleting the parts keeps the directory; removing it then takes everything below it away.\<close>

lemma delete_all_gone:
  assumes "stays (frame (strict_prefix p)) m" and "map_of (fs w) p = Some Dir"
  shows "wp (seqM m (node_delete K p)) (\<lambda>_ w'. \<forall>q. prefix p q \<longrightarrow> map_of (fs w') q = None) (\<lambda>_ _. True) w"
proof (rule wp_seqI [where P = "\<lambda>u. map_of (fs u) p = Some Dir"])
  show "wp m (\<lambda>_ u. map_of (fs u) p = Some Dir) (\<lambda>_ _. True) w"
    using assms(1) [unfolded stays_wp, rule_format, of w]
    by (rule wp_mono) (auto elim!: frame_keeps_dir simp: assms(2))
qed (rule node_delete_all_gone)

end

section \<open>Allocation of tags and LUNs\<close>

interpretation tpg_tags: slot_allocator alloc_tpg_tag 1 1048576
proof
  fix taken :: "int list" and i
  have pos: "(\<forall>k. 0 \<le> k \<and> k < n \<longrightarrow> \<not> (k \<notin> set taken \<and> 0 < k)) \<longleftrightarrow> (\<forall>k. 1 \<le> k \<and> k < n \<longrightarrow> k \<in> set taken)"
    for n :: int
    by (metis int_one_le_iff_zero_less less_imp_le)
  show "alloc_tpg_tag taken = Some i \<longleftrightarrow>
      1 \<le> i \<and> i < 1048576 \<and> i \<notin> set taken \<and> (\<forall>k. 1 \<le> k \<and> k < i \<longrightarrow> k \<in> set taken)"
    unfolding alloc_tpg_tag_def range_find_Some pos by auto
  show "alloc_tpg_tag taken = None \<longleftrightarrow> {1..<1048576} \<subseteq> set taken"
    unfolding alloc_tpg_tag_def range_find_None pos by auto
qed

interpretation lun_slots: slot_allocator alloc_lun 0 65536
  by unfold_locales (auto simp: alloc_lun_def MAX_TARGET_LUN_def range_find_Some range_find_None)

text \<open>The number in the name of a directory \<^verbatim>\<open>tpgt_<n>\<close> or \<^verbatim>\<open>lun_<n>\<close>.\<close>

definition dir_number :: "string \<Rightarrow> int" where
  "dir_number n = (case idx (split_on (CHR ''_'') n) 1 of
      Inr s \<Rightarrow> (case py_int s of Some i \<Rightarrow> i | None \<Rightarrow> -1) | Inl _ \<Rightarrow> -1)"

lemma dir_number_made:
  assumes "CHR ''_'' \<notin> set pre"
  shows "dir_number (pre @ CHR ''_'' # str_of_int i) = i"
proof -
  have "CHR ''_'' \<notin> set (str_of_int i)" using str_of_int_chars [of "CHR ''_''" i] by (auto simp: is_digit_def)
  with assms show ?thesis
    by (simp add: dir_number_def split_on_append split_on_no_sep idx_def)
qed

text \<open>A number that no entry of a directory has gives a new name there.\<close>

lemma fresh_dir:
  assumes "i \<notin> set (map dir_number (filter P (children f p)))" and "CHR ''_'' \<notin> set pre"
    and "P (pre @ CHR ''_'' # str_of_int i)"
  shows "map_of f (p @ [pre @ CHR ''_'' # str_of_int i]) = None"
proof (rule ccontr)
  assume "map_of f (p @ [pre @ CHR ''_'' # str_of_int i]) \<noteq> None"
  then have "pre @ CHR ''_'' # str_of_int i \<in> set (filter P (children f p))"
    using assms(3) by (simp add: children_iff)
  then have "dir_number (pre @ CHR ''_'' # str_of_int i) \<in> set (map dir_number (filter P (children f p)))"
    by (simp only: set_map image_eqI)
  with assms(1) show False using dir_number_made [OF assms(2), of i] by simp
qed

lemma yields_eq: "yields P m \<Longrightarrow> wp m (\<lambda>a _. P a) (\<lambda>_ _. True) s"
  by (simp add: yields_def)

lemma TPG_at_tag: "yields (\<lambda>g. g = \<lparr>tpg_target = t, tpg_tag = n, tpg_path = tgt_path t @ [''tpgt_'' @ str_of_int n]\<rparr>) (TPG_at K t n mode)"
  unfolding TPG_at_def Let_def by (intro yields_rules) simp

text \<open>The tags of the groups of a target are the numbers of its \<^verbatim>\<open>tpgt\<close> directories.\<close>

lemma collect_tags:
  "wp (collect (list_tpgs K t) (\<lambda>g. ret (tpg_tag g)))
     (\<lambda>tags _. is_dir (fs w) (tgt_path t) \<and>
        tags = map dir_number (filter (\<lambda>n. startswith n ''tpgt'') (children (fs w) (realpath (fs w) (tgt_path t)))))
     (\<lambda>_ _. True) w"
proof -
  let ?names = "filter (\<lambda>n. startswith n ''tpgt'') (children (fs w) (realpath (fs w) (tgt_path t)))"
  have step: "wp (bindM (lift (idx (split_on (CHR ''_'') x) 1)) (\<lambda>tag. bindM (lift (to_int (PStr tag))) (\<lambda>i.
        bindM (lift (check_tag (PInt i))) (\<lambda>n. bindM (TPG_at K t n ''lookup'')
          (\<lambda>g. bindM (ret (tpg_tag g)) (\<lambda>y. ret (Next (acc @ [y]))))))))
      (\<lambda>r _. r = Next (acc @ [dir_number x])) (\<lambda>_ _. True) s" for x acc s
  proof (cases "idx (split_on (CHR ''_'') x) 1")
    case (Inr a)
    then show ?thesis
      using wp_mono [OF yields_eq [OF TPG_at_tag]]
      by (auto simp: wp check_tag_def dir_number_def split: option.splits if_splits sum.splits)
  qed (simp add: wp)
  have loop: "wp (iter ?names (\<lambda>x acc. bindM (lift (idx (split_on (CHR ''_'') x) 1)) (\<lambda>tag. bindM (lift (to_int (PStr tag))) (\<lambda>i.
        bindM (lift (check_tag (PInt i))) (\<lambda>n. bindM (TPG_at K t n ''lookup'')
          (\<lambda>g. bindM (ret (tpg_tag g)) (\<lambda>y. ret (Next (acc @ [y]))))))))
      []) (\<lambda>r _. r = Next (map dir_number ?names)) (\<lambda>_ _. True) w"
    by (rule wp_iter_map) (rule step)
  show ?thesis
    unfolding collect_def list_tpgs_def glob_prefix_def wp_seqM wp_bindM wp_check_self wp_gets
    using wp_mono [OF loop] by (auto simp: wp)
qed

lemma LUN_lookup_number: "yields (\<lambda>l. check_lun v = Inr (lun_lun l)) (LUN_lookup K g v)"
  by (auto simp: yields_def LUN_lookup_def wp lun_at_def wp_def [of "create_in_cfs_ine _ _ _ _"]
      split: sum.splits prod.splits res.splits)

lemma collect_luns:
  assumes "tpg_path g @ [''lun''] = p"
  shows "wp (collect (list_luns K g) (\<lambda>l. ret (lun_lun l)))
     (\<lambda>luns _. luns = map dir_number (children (fs w) (realpath (fs w) p))) (\<lambda>_ _. True) w"
proof -
  have step: "wp (bindM (lift (idx (split_on (CHR ''_'') x) 1)) (\<lambda>s. bindM (lift (to_int (PStr s))) (\<lambda>n.
        bindM (LUN_lookup K g (PInt n)) (\<lambda>l. bindM (ret (lun_lun l)) (\<lambda>y. ret (Next (acc @ [y])))))))
      (\<lambda>r _. r = Next (acc @ [dir_number x])) (\<lambda>_ _. True) s" for x acc s
  proof (cases "idx (split_on (CHR ''_'') x) 1")
    case (Inr a)
    then show ?thesis
      by (auto simp: wp wp_eta check_lun_def dir_number_def split: option.splits if_splits
          intro!: wp_mono [OF yields_eq [OF LUN_lookup_number]])
  qed (simp add: wp)
  show ?thesis
    unfolding collect_def list_luns_def iterdir_def wp_seqM wp_bindM tpg_check_def wp_check_self wp_listdir assms
    using wp_mono [OF wp_iter_map [where h = dir_number, OF step]] by (auto simp: wp)
qed

section \<open>A small tree\<close>

text \<open>A target with one portal group, at which the properties below are witnessed.\<close>

definition demo_target :: target where
  "demo_target = \<lparr>tgt_fm = iscsi_fabric, tgt_wwn = ''iqn.2003-01.org.a:b'', tgt_wwn_type = ''iqn'',
     tgt_path = configfs_dir @ [''iscsi'', ''iqn.2003-01.org.a:b'']\<rparr>"

definition demo_tpg :: tpg where
  "demo_tpg = \<lparr>tpg_target = demo_target, tpg_tag = 1, tpg_path = tgt_path demo_target @ [''tpgt_1'']\<rparr>"

definition demo_so :: storage_object where
  "demo_so = \<lparr>so_cls = FileIO, so_name = ''d'',
     so_backstore = \<lparr>bs_cls = FileIO, bs_index = 0, bs_path = core_dir @ [''fileio_0''], bs_lookup_key = ''fileio/d''\<rparr>,
     so_path = core_dir @ [''fileio_0'', ''d''], so_plugin = ''fileio''\<rparr>"

definition demo_world :: world where
  "demo_world = world0\<lparr>fs := fs world0 @ [(bs_path (so_backstore demo_so), Dir), (so_path demo_so, Dir), (tgt_path demo_target, Dir), (tpg_path demo_tpg, Dir),
     (tpg_path demo_tpg @ [''acls''], Dir), (tpg_path demo_tpg @ [''lun''], Dir), (tpg_path demo_tpg @ [''np''], Dir),
     (tpg_path demo_tpg @ [''enable''], File 420 (Inr ''0''))]\<rparr>"

section \<open>Properties\<close>

text \<open>
  C1. Deleting a target. When \<^verbatim>\<open>Target.delete\<close> returns, nothing is left of the target: no entry at
  or below its directory. In every outcome, an exception included, nothing outside the target's
  directory has appeared, disappeared or changed its kind.
\<close>

theorem target_delete_removes:
  assumes "configfs K" and "map_of (fs w) (tgt_path t) = Some Dir"
  shows "wp (Target_delete K t)
    (\<lambda>_ w'. (\<forall>q. prefix (tgt_path t) q \<longrightarrow> map_of (fs w') q = None) \<and> frame (prefix (tgt_path t)) w w')
    (\<lambda>_ w'. frame (prefix (tgt_path t)) w w') w"
proof (rule wp_and_stays)
  show "stays (frame (prefix (tgt_path t))) (Target_delete K t)"
    by (rule configfs.Target_delete_stays [OF assms(1)]) (simp add: below_prefix)
  show "wp (Target_delete K t) (\<lambda>_ w'. \<forall>q. prefix (tgt_path t) q \<longrightarrow> map_of (fs w') q = None) (\<lambda>_ _. True) w"
    using configfs.delete_all_gone [OF assms(1) configfs.Target_delete_parts_stay [OF assms(1)] assms(2)]
    by (simp add: Target_delete_def wp_seqM assms(2) wp_check_self is_dir_plain)
qed

theorem target_delete_removes_witness:
  "wp (Target_delete lio demo_target)
    (\<lambda>_ w'. \<forall>q. prefix (tgt_path demo_target) q \<longrightarrow> map_of (fs w') q = None) (\<lambda>_ _. False) demo_world"
proof -
  have "fst (Target_delete lio demo_target demo_world) = Ok ()" by code_simp
  moreover have "map_of (fs demo_world) (tgt_path demo_target) = Some Dir" by code_simp
  ultimately show ?thesis
    using target_delete_removes [OF lio_fs.configfs_axioms, of demo_world demo_target]
    by (auto simp: wp_def split: prod.splits res.splits)
qed

text \<open>
  C7. Deleting a portal group. When \<^verbatim>\<open>TPG.delete\<close> returns, its ACLs, mapped LUNs, LUNs, portals
  and its own directory are gone, and in every outcome nothing outside the group has appeared,
  disappeared or changed its kind: the other groups of the target and all storage objects keep their shape.
\<close>

theorem tpg_delete_removes:
  assumes "configfs K" and "map_of (fs w) (tpg_path g) = Some Dir"
  shows "wp (TPG_delete K g)
    (\<lambda>_ w'. (\<forall>q. prefix (tpg_path g) q \<longrightarrow> map_of (fs w') q = None) \<and> frame (prefix (tpg_path g)) w w')
    (\<lambda>_ w'. frame (prefix (tpg_path g)) w w') w"
proof (rule wp_and_stays)
  show "stays (frame (prefix (tpg_path g))) (TPG_delete K g)"
    by (rule configfs.TPG_delete_stays [OF assms(1)]) (simp add: below_prefix)
  have "stays (frame (strict_prefix (tpg_path g))) (seqM (set_enable K g (PBool False))
      (seqM (for_each (list_node_acls K g) (NodeACL_delete K))
        (seqM (for_each (list_luns K g) (LUN_delete K))
          (for_each (list_network_portals K g) (NetworkPortal_delete K)))))"
    by (intro fr.seqM_stays configfs.TPG_delete_parts_stay [OF assms(1)] configfs.set_enable_stays [OF assms(1)])
  from configfs.delete_all_gone [OF assms(1) this assms(2)]
  show "wp (TPG_delete K g) (\<lambda>_ w'. \<forall>q. prefix (tpg_path g) q \<longrightarrow> map_of (fs w') q = None) (\<lambda>_ _. True) w"
    by (simp add: TPG_delete_def seqM_assoc wp_seqM [of "check_self _ _"] assms(2) tpg_check_def wp_check_self is_dir_plain)
qed

theorem tpg_delete_removes_witness:
  "wp (TPG_delete lio demo_tpg)
    (\<lambda>_ w'. \<forall>q. prefix (tpg_path demo_tpg) q \<longrightarrow> map_of (fs w') q = None) (\<lambda>_ _. False) demo_world"
proof -
  have "fst (TPG_delete lio demo_tpg demo_world) = Ok ()" by code_simp
  moreover have "map_of (fs demo_world) (tpg_path demo_tpg) = Some Dir" by code_simp
  ultimately show ?thesis
    using tpg_delete_removes [OF lio_fs.configfs_axioms, of demo_world demo_tpg]
    by (auto simp: wp_def split: prod.splits res.splits)
qed

text \<open>
  A new portal group without a given tag gets the least tag from 1 on that no portal group
  of the target has: the tag is below 1048576, there was no entry for it, and every smaller tag is
  that of an existing directory.
\<close>

theorem tpg_tag_allocation:
  assumes "map_of (fs w) (tgt_path t) = Some Dir"
  shows "wp (TPG_init K t PNone mode)
    (\<lambda>g _. 1 \<le> tpg_tag g \<and> tpg_tag g < 1048576 \<and>
       tpg_path g = tgt_path t @ [''tpgt_'' @ str_of_int (tpg_tag g)] \<and> map_of (fs w) (tpg_path g) = None \<and>
       (\<forall>k. 1 \<le> k \<and> k < tpg_tag g \<longrightarrow> (\<exists>n. startswith n ''tpgt'' \<and> dir_number n = k \<and>
          map_of (fs w) (tgt_path t @ [n]) \<noteq> None)))
    (\<lambda>_ _. True) w"
  (is "wp _ ?Q _ w")
proof -
  let ?names = "filter (\<lambda>n. startswith n ''tpgt'') (children (fs w) (tgt_path t))"
  have rp: "realpath (fs w) (tgt_path t) = tgt_path t" using assms by (simp add: realpath_def)
  have alloc: "?Q \<lparr>tpg_target = t, tpg_tag = i, tpg_path = tgt_path t @ [''tpgt_'' @ str_of_int i]\<rparr> u"
    if i: "alloc_tpg_tag (map dir_number ?names) = Some i" for i and u :: world
  proof -
    let ?n = "''tpgt_'' @ str_of_int i"
    have "map_of (fs w) (tgt_path t @ [?n]) = None"
      using fresh_dir [OF tpg_tags.fresh [OF i], of "''tpgt''"] by (simp add: startswith_def)
    with tpg_tags.in_range [OF i] tpg_tags.least [OF i] show ?thesis
      by (fastforce simp: children_iff)
  qed
  show ?thesis
    unfolding TPG_init_def wp_bindM if_True simp_thms
  proof (rule wp_mono [OF collect_tags])
    fix tags u assume "is_dir (fs w) (tgt_path t) \<and>
      tags = map dir_number (filter (\<lambda>n. startswith n ''tpgt'') (children (fs w) (realpath (fs w) (tgt_path t))))"
    then have tags: "tags = map dir_number ?names" by (simp add: rp)
    show "wp (the_or (RTSLibError ''Cannot find an available TPG Tag'') (alloc_tpg_tag tags))
        (\<lambda>a. wp (TPG_at K t a mode) ?Q (\<lambda>_ _. True)) (\<lambda>_ _. True) u"
      using alloc tags wp_mono [OF yields_eq [OF TPG_at_tag]]
      by (auto simp: wp split: option.splits)
  qed simp
qed

theorem tpg_tag_allocation_witness:
  "wp (TPG_init lio demo_target PNone ''any'') (\<lambda>g _. tpg_tag g = 2 \<and> map_of (fs demo_world) (tpg_path g) = None)
    (\<lambda>_ _. False) demo_world"
proof -
  have "map_of (fs demo_world) (tgt_path demo_target) = Some Dir" by code_simp
  moreover have "case fst (TPG_init lio demo_target PNone ''any'' demo_world) of Ok g \<Rightarrow> tpg_tag g = 2 | Err e \<Rightarrow> False"
    by code_simp
  ultimately show ?thesis
    using tpg_tag_allocation [of demo_world demo_target lio "''any''"]
    by (auto simp: wp_def split: prod.splits res.splits)
qed

lemma lun_configure_links:
  assumes "configfs K"
  shows "wp (lun_configure K l so alias)
    (\<lambda>_ w'. \<exists>d. prefix (lun_path l) d \<and> map_of (fs w') d = Some (Link (so_path so))) (\<lambda>_ _. True) w"
  using configfs.symlink_new [OF assms]
  by (auto simp: lun_configure_def lun_check_def so_exists_def symlink_def wp Let_def split: sum.splits
      intro!: exI prefix_pjoin)

text \<open>
  C24. A new LUN without a given index gets the least free index of the portal group, from 0 to 65535,
  and exports its storage object: there was no entry for it before, every smaller index is that of
  an existing LUN directory, and on return a link below the LUN points at the storage object.
\<close>

theorem lun_allocation:
  assumes "configfs K" and "map_of (fs w) (tpg_path g @ [''lun'']) = Some Dir"
  shows "wp (LUN_init K g PNone (Some so) alias)
    (\<lambda>l w'. 0 \<le> lun_lun l \<and> lun_lun l \<le> 65535 \<and> l = lun_at g (lun_lun l) \<and>
       map_of (fs w) (lun_path l) = None \<and>
       (\<forall>k. 0 \<le> k \<and> k < lun_lun l \<longrightarrow> (\<exists>n. dir_number n = k \<and> map_of (fs w) (tpg_path g @ [''lun'', n]) \<noteq> None)) \<and>
       (\<exists>d. prefix (lun_path l) d \<and> map_of (fs w') d = Some (Link (so_path so))))
    (\<lambda>_ _. True) w"
  (is "wp _ ?Q _ w")
proof -
  let ?p = "tpg_path g @ [''lun'']"
  have rp: "realpath (fs w) ?p = ?p" using assms(2) by (simp add: realpath_def)
  have alloc: "?Q (lun_at g i) u"
    if i: "alloc_lun (map dir_number (children (fs w) ?p)) = Some i"
      and u: "\<exists>d. prefix (lun_path (lun_at g i)) d \<and> map_of (fs u) d = Some (Link (so_path so))" for i and u :: world
  proof -
    have "map_of (fs w) (?p @ [''lun_'' @ str_of_int i]) = None"
      using fresh_dir [of i "\<lambda>_. True" "fs w" ?p "''lun''"] lun_slots.fresh [OF i] by simp
    moreover have "\<exists>n. dir_number n = k \<and> map_of (fs w) (tpg_path g @ [''lun'', n]) \<noteq> None" if "0 \<le> k" "k < i" for k
      using lun_slots.least [OF i that] children_iff [of _ "fs w" ?p] by auto
    ultimately show ?thesis
      using lun_slots.in_range [OF i] u by (simp add: lun_at_def)
  qed
  have rest: "wp (seqM (create_in_cfs_ine K ''LUN'' (lun_path (lun_at g i)) ''create'')
      (seqM (catchM (lun_configure K (lun_at g i) so alias) (\<lambda>e. seqM (LUN_delete K (lun_at g i)) (raise e)))
         (ret (lun_at g i)))) ?Q (\<lambda>_ _. True) u"
    if "alloc_lun (map dir_number (children (fs w) ?p)) = Some i" for i u
  proof (rule wp_seqI [where P = "\<lambda>_. True"])
    fix v
    show "wp (seqM (catchM (lun_configure K (lun_at g i) so alias) (\<lambda>e. seqM (LUN_delete K (lun_at g i)) (raise e)))
         (ret (lun_at g i))) ?Q (\<lambda>_ _. True) v"
      unfolding wp_seqM wp_catchM
      by (rule wp_mono [OF lun_configure_links [OF assms(1)]])
        (use alloc [OF that] in \<open>auto simp: wp_ret wp_cleanup [unfolded wp_seqM]\<close>)
  qed simp
  show ?thesis
    unfolding LUN_init_def wp_bindM if_True simp_thms Let_def option.case
  proof (rule wp_mono [OF collect_luns [OF refl]])
    fix luns u assume "luns = map dir_number (children (fs w) (realpath (fs w) ?p))"
    then show "wp (the_or (RTSLibError (''All LUNs 0-'' @ str_of_int MAX_TARGET_LUN @ '' in use'')) (alloc_lun luns))
        (\<lambda>n. wp (seqM (create_in_cfs_ine K ''LUN'' (lun_path (lun_at g n)) ''create'')
          (seqM (catchM (lun_configure K (lun_at g n) so alias) (\<lambda>e. seqM (LUN_delete K (lun_at g n)) (raise e)))
             (ret (lun_at g n)))) ?Q (\<lambda>_ _. True)) (\<lambda>_ _. True) u"
      using rest by (auto simp: wp rp split: option.splits)
  qed simp
qed

theorem lun_allocation_witness:
  "wp (LUN_init lio demo_tpg PNone (Some demo_so) PNone)
    (\<lambda>l w'. lun_lun l = 0 \<and> (\<exists>d. prefix (lun_path l) d \<and> map_of (fs w') d = Some (Link (so_path demo_so))))
    (\<lambda>_ _. False) demo_world"
proof -
  have "map_of (fs demo_world) (tpg_path demo_tpg @ [''lun'']) = Some Dir" by code_simp
  moreover have "case fst (LUN_init lio demo_tpg (PInt 0) (Some demo_so) PNone demo_world) of
      Ok l \<Rightarrow> lun_lun l = 0 | Err e \<Rightarrow> False"
    by code_simp
  moreover have "LUN_init lio demo_tpg PNone (Some demo_so) PNone demo_world =
      LUN_init lio demo_tpg (PInt 0) (Some demo_so) PNone demo_world"
  proof -
    have "collect (list_luns lio demo_tpg) (\<lambda>l. ret (lun_lun l)) demo_world = (Ok [], demo_world)"
      "alloc_lun [] = Some 0" "check_lun (PInt 0) = Inr 0"
      by code_simp+
    then show ?thesis by (simp add: LUN_init_def bindM_def lift_def the_or_def ret_def)
  qed
  ultimately show ?thesis
    using lun_allocation [OF lio_fs.configfs_axioms, of demo_world demo_tpg demo_so PNone]
    by (auto simp: wp_def split: prod.splits res.splits)
qed

text \<open>
  A fabric without the \<open>tpgts\<close> feature has one portal group per target: if the target has a portal
  group with another tag, the constructor refuses and changes nothing, whatever the mode.
\<close>

theorem single_tpg:
  assumes "\<not> tgt_has_feature t ''tpgts''" and "map_of (fs w) (tgt_path t) = Some Dir"
    and "map_of (fs w) (tgt_path t @ [''tpgt_'' @ str_of_int m]) = Some Dir"
    and "\<not> is_dir (fs w) (tgt_path t @ [''tpgt_'' @ str_of_int n])"
  shows "TPG_at K t n mode w = (Err (RTSLibError ''Target cannot have multiple TPGs''), w)"
proof -
  let ?name = "\<lambda>i. ''tpgt_'' @ str_of_int i"
  let ?err = "RTSLibError ''Target cannot have multiple TPGs''"
  let ?body = "\<lambda>filename. bindM (is_dirM (tgt_path t @ [filename])) (\<lambda>fd.
      whenM (startswith filename ''tpgt_'' \<and> fd \<and> filename \<noteq> ?name n) (raise ?err :: unit W))"
  let ?P = "\<lambda>x. startswith x ''tpgt_'' \<and> is_dir (fs w) (tgt_path t @ [x]) \<and> x \<noteq> ?name n"
  have "?name m \<noteq> ?name n" using assms(3,4) is_dir_plain by metis
  then have "?P (?name m)" using assms(3) by (simp add: startswith_def is_dir_plain)
  moreover have "?name m \<in> set (children (fs w) (tgt_path t))" using assms(3) by (simp only: children_iff) simp
  ultimately have "for_each (iter (children (fs w) (tgt_path t))) ?body w = (Err ?err, w)"
    by (intro for_each_raises [where P = ?P] bexI)
      (simp_all add: bindM_def is_dirM_def gets_def whenM_def raise_def ret_def del: append.append_Cons append_Cons)
  then have "for_each (iterdir (tgt_path t)) ?body w = (Err ?err, w)"
    by (simp only: for_each_iterdir [OF assms(2)])
  then show ?thesis
    using assms(1,4) by (simp add: TPG_at_def Let_def seqM_def bindM_def is_dirM_def gets_def)
qed

theorem single_tpg_witness:
  "TPG_at lio (demo_target\<lparr>tgt_fm := loopback_fabric\<rparr>) 2 ''create'' demo_world =
     (Err (RTSLibError ''Target cannot have multiple TPGs''), demo_world)"
proof (rule single_tpg [where m = 1])
  show "\<not> tgt_has_feature (demo_target\<lparr>tgt_fm := loopback_fabric\<rparr>) ''tpgts''" by code_simp
  show "map_of (fs demo_world) (tgt_path (demo_target\<lparr>tgt_fm := loopback_fabric\<rparr>)) = Some Dir" by code_simp
  show "map_of (fs demo_world) (tgt_path (demo_target\<lparr>tgt_fm := loopback_fabric\<rparr>) @ [''tpgt_'' @ str_of_int 1]) = Some Dir"
    by code_simp
  show "\<not> is_dir (fs demo_world) (tgt_path (demo_target\<lparr>tgt_fm := loopback_fabric\<rparr>) @ [''tpgt_'' @ str_of_int 2])"
    by code_simp
qed

text \<open>
  C34. CHAP credentials of a node ACL. A value that is stored without an error is at most 255
  characters long and not the sentinel \<open>NULL\<close>, and reading the attribute back, which shows what was stored up to white space, gives it, white space at
  its ends aside; the empty value, which is stored as the sentinel, reads back as empty.
\<close>

theorem chap_roundtrip:
  assumes "configfs K" and "echoes K (pjoin (na_path na) attribute) (fs w)"
    and "na_set_auth K na (PStr s) attribute w = (Ok (), w')"
  shows "na_get_auth na attribute w' = (Ok (Some (strip s)), w') \<and> strip s \<noteq> ''NULL'' \<and> length (strip s) \<le> 255"
proof -
  have set: "set_auth_attr K (na_check na) (na_path na) (PStr s) attribute False w = (Ok (), w')"
    using assms(3) by (simp add: na_set_auth_def)
  have dir: "is_dir (fs w) (na_path na)"
  proof (rule ccontr)
    assume "\<not> is_dir (fs w) (na_path na)"
    then show False
      using set by (simp add: set_auth_attr_def na_check_def seqM_def bindM_def check_self_def exists_def
          is_dirM_def gets_def raise_def)
  qed
  then have chk: "na_check na w = (Ok (), w)" by (simp add: na_check_def check_self_Ok)
  note ok = set_auth_attr_Ok [OF set chk]
  have rd: "fread (pjoin (na_path na) attribute) w' =
      (Ok (strip (if strip s = '''' then ''NULL'' else strip s)), w')"
    by (rule fread_after_fwrite [OF assms(2) ok(3)])
  have "frame no_shape w w'"
    by (rule staysD [OF configfs.fwrite_stays [OF assms(1)] ok(3)])
  then have "na_check na w' = (Ok (), w')"
    using dir by (simp add: na_check_def check_self_Ok frame_no_shape_is_dir)
  moreover have "strip ''NULL'' = ''NULL''" by code_simp
  ultimately show ?thesis
    using rd ok(1,2)
    by (auto simp: na_get_auth_def get_auth_attr_def seqM_def bindM_def try_else_def ret_def)
qed

text \<open>A node ACL of the small tree's portal group.\<close>

definition demo_acl :: node_acl where
  "demo_acl = \<lparr>na_tpg = demo_tpg, na_wwn = ''iqn.1994-05.com.x:c'', na_wwn_type = ''iqn'',
     na_path = tpg_path demo_tpg @ [''acls'', ''iqn.1994-05.com.x:c'']\<rparr>"

definition demo_acl_world :: world where
  "demo_acl_world = world0\<lparr>fs := [(na_path demo_acl, Dir), (na_path demo_acl @ [''auth''], Dir),
     (na_path demo_acl @ [''auth'', ''userid''], File 420 (Inr ''NULL''))]\<rparr>"

theorem chap_roundtrip_witness:
  "\<exists>w'. na_set_auth lio demo_acl (PStr ''joe '') ''auth/userid'' demo_acl_world = (Ok (), w') \<and>
     na_get_auth demo_acl ''auth/userid'' w' = (Ok (Some ''joe''), w')"
proof -
  have "fst (na_set_auth lio demo_acl (PStr ''joe '') ''auth/userid'' demo_acl_world) = Ok ()" by code_simp
  then obtain w' where w': "na_set_auth lio demo_acl (PStr ''joe '') ''auth/userid'' demo_acl_world = (Ok (), w')"
    by (metis prod.collapse)
  have e: "echoes lio (pjoin (na_path demo_acl) ''auth/userid'') (fs demo_acl_world)"
    by (rule echoes_lio) code_simp
  have "strip ''joe '' = ''joe''" by code_simp
  with chap_roundtrip [OF lio_fs.configfs_axioms e w'] w' show ?thesis by simp
qed

end
