(* ===== verification/Alua.thy ===== *)
theory Alua
  imports Target
begin

text \<open>
  \<^verbatim>\<open>alua.py\<close>: the ALUA target port groups of a storage object, with one accessor per attribute file,
  the constructor that creates a group with its tag, deletion, dump and setup. The theory shows
  that a group's dump is accepted back by its setup as far as its files allow and that the
  kernel's default group is never deleted.
\<close>

section \<open>The group\<close>

record alua_tpg =
  at_so :: storage_object
  at_name :: string
  at_path :: path

definition alua_rw_params :: "string list" where
  "alua_rw_params = [''alua_access_state'', ''alua_access_status'', ''alua_write_metadata'', ''alua_access_type'',
     ''preferred'', ''nonop_delay_msecs'', ''trans_delay_msecs'', ''implicit_trans_secs'', ''alua_support_offline'',
     ''alua_support_standby'', ''alua_support_transitioning'', ''alua_support_active_nonoptimized'',
     ''alua_support_unavailable'', ''alua_support_active_optimized'']"

definition alua_types :: "string list" where
  "alua_types = [''None'', ''Implicit'', ''Explicit'', ''Implicit and Explicit'']"

definition alua_statuses :: "string list" where
  "alua_statuses = [''None'', ''Altered by Explicit STPG'', ''Altered by Implicit ALUA'']"

definition at_check :: "alua_tpg \<Rightarrow> unit W" where
  "at_check a = check_self ''ALUATargetPortGroup'' (at_path a)"

definition Alua_delete :: "env \<Rightarrow> alua_tpg \<Rightarrow> unit W" where
  "Alua_delete K a =
     seqM (at_check a)
       (if at_name a = ''default_tg_pt_gp'' then raise (RTSLibError ''Can not delete default_tg_pt_gp'')
        else node_delete K (at_path a))"

text \<open>The tag of a new group, compared with its bounds: only a number can be.\<close>

fun tag_number :: "pyval \<Rightarrow> exn + int" where
  "tag_number (PInt n) = Inr n"
| "tag_number (PBool b) = Inr (if b then 1 else 0)"
| "tag_number _ = Inl (TypeErr ''unorderable types'')"

text \<open>\<^verbatim>\<open>except OSError as msg: raise RTSLibError(msg)\<close>.\<close>

definition os_to_rts :: "env \<Rightarrow> 'a W \<Rightarrow> 'a W" where
  "os_to_rts K m = catchM m (\<lambda>e. if is_oserror e then raise (RTSLibError (exn_str K e)) else raise e)"

definition Alua_init :: "env \<Rightarrow> storage_object \<Rightarrow> string \<Rightarrow> pyval \<Rightarrow> alua_tpg W" where
  "Alua_init K so name tag =
     bindM (alua_supported so) (\<lambda>sup.
       if \<not> sup then raise (RTSLibALUANotSupportedError ''Backend does not support ALUA setup'')
       else
         let a = \<lparr>at_so = so, at_name = name, at_path = pjoin (so_path so @ [''alua'']) name\<rparr> in
         if tag = PNone
         then seqM (os_to_rts K (create_in_cfs_ine K ''ALUATargetPortGroup'' (at_path a) ''lookup'')) (ret a)
         else bindM (lift (tag_number tag)) (\<lambda>n.
           if n > 65535 \<or> n < 1
           then raise (RTSLibError (''The TPG Tag must be between 1 and '' @ str_of_int 65535))
           else seqM (os_to_rts K (create_in_cfs_ine K ''ALUATargetPortGroup'' (at_path a) ''create''))
             (seqM (catchM (fwrite K (at_path a @ [''tg_pt_gp_id'']) (py_str tag))
                 (\<lambda>e. if is_oserror e
                      then seqM (Alua_delete K a)
                        (raise (RTSLibError (''Cannot set id to '' @ str_of_int n @ '': '' @ exn_str K e)))
                      else raise e))
               (ret a))))"

section \<open>Attribute files\<close>

text \<open>The common shape of the accessors: read a number; write a number, an error of the file being the library's.\<close>

definition at_get_int :: "string \<Rightarrow> alua_tpg \<Rightarrow> int W" where
  "at_get_int file a =
     seqM (at_check a) (bindM (fread (at_path a @ [file])) (\<lambda>s. lift (to_int (PStr s))))"

definition at_set_int :: "env \<Rightarrow> string \<Rightarrow> string \<Rightarrow> alua_tpg \<Rightarrow> pyval \<Rightarrow> unit W" where
  "at_set_int K file what a v =
     seqM (at_check a)
       (catchM (bindM (lift (to_int v)) (\<lambda>n. fwrite K (at_path a @ [file]) (str_of_int n)))
          (\<lambda>e. if is_oserror e then raise (RTSLibError (what @ exn_str K e)) else raise e))"

text \<open>\<^verbatim>\<open>xs.index(x)\<close>.\<close>

fun list_index :: "string list \<Rightarrow> string \<Rightarrow> exn + int" where
  "list_index [] x = Inl (ValueErr ''is not in list'')"
| "list_index (y # ys) x = (if y = x then Inr 0 else (case list_index ys x of Inl e \<Rightarrow> Inl e | Inr n \<Rightarrow> Inr (n + 1)))"

definition get_alua_access_status :: "alua_tpg \<Rightarrow> int W" where
  "get_alua_access_status a =
     seqM (at_check a) (bindM (fread (at_path a @ [''alua_access_status''])) (\<lambda>s. lift (list_index alua_statuses s)))"

definition set_alua_access_status :: "env \<Rightarrow> alua_tpg \<Rightarrow> pyval \<Rightarrow> unit W" where
  "set_alua_access_status K = at_set_int K ''alua_access_status'' ''Cannot change ALUA status: ''"

definition get_alua_access_type :: "alua_tpg \<Rightarrow> int W" where
  "get_alua_access_type a =
     seqM (at_check a) (bindM (fread (at_path a @ [''alua_access_type''])) (\<lambda>s. lift (list_index alua_types s)))"

definition set_alua_access_type :: "env \<Rightarrow> alua_tpg \<Rightarrow> pyval \<Rightarrow> unit W" where
  "set_alua_access_type K = at_set_int K ''alua_access_type'' ''Cannot change ALUA access type: ''"

definition get_alua_access_state :: "alua_tpg \<Rightarrow> int W" where
  "get_alua_access_state = at_get_int ''alua_access_state''"

definition set_alua_access_state :: "env \<Rightarrow> alua_tpg \<Rightarrow> pyval \<Rightarrow> unit W" where
  "set_alua_access_state K = at_set_int K ''alua_access_state'' ''Cannot change ALUA state: ''"

definition get_preferred :: "alua_tpg \<Rightarrow> int W" where
  "get_preferred = at_get_int ''preferred''"

definition set_preferred :: "env \<Rightarrow> alua_tpg \<Rightarrow> pyval \<Rightarrow> unit W" where
  "set_preferred K = at_set_int K ''preferred'' ''Cannot set preferred: ''"

definition get_alua_write_metadata :: "alua_tpg \<Rightarrow> int W" where
  "get_alua_write_metadata = at_get_int ''alua_write_metadata''"

definition set_alua_write_metadata :: "env \<Rightarrow> alua_tpg \<Rightarrow> pyval \<Rightarrow> unit W" where
  "set_alua_write_metadata K = at_set_int K ''alua_write_metadata'' ''Cannot set alua_write_metadata: ''"

definition get_alua_support_active_nonoptimized :: "alua_tpg \<Rightarrow> int W" where
  "get_alua_support_active_nonoptimized = at_get_int ''alua_support_active_nonoptimized''"

definition set_alua_support_active_nonoptimized :: "env \<Rightarrow> alua_tpg \<Rightarrow> pyval \<Rightarrow> unit W" where
  "set_alua_support_active_nonoptimized K = at_set_int K ''alua_support_active_nonoptimized'' ''Cannot set alua_support_active_nonoptimized: ''"

definition get_alua_support_active_optimized :: "alua_tpg \<Rightarrow> int W" where
  "get_alua_support_active_optimized = at_get_int ''alua_support_active_optimized''"

definition set_alua_support_active_optimized :: "env \<Rightarrow> alua_tpg \<Rightarrow> pyval \<Rightarrow> unit W" where
  "set_alua_support_active_optimized K = at_set_int K ''alua_support_active_optimized'' ''Cannot set alua_support_active_optimized: ''"

definition get_alua_support_offline :: "alua_tpg \<Rightarrow> int W" where
  "get_alua_support_offline = at_get_int ''alua_support_offline''"

definition set_alua_support_offline :: "env \<Rightarrow> alua_tpg \<Rightarrow> pyval \<Rightarrow> unit W" where
  "set_alua_support_offline K = at_set_int K ''alua_support_offline'' ''Cannot set alua_support_offline: ''"

definition get_alua_support_unavailable :: "alua_tpg \<Rightarrow> int W" where
  "get_alua_support_unavailable = at_get_int ''alua_support_unavailable''"

definition set_alua_support_unavailable :: "env \<Rightarrow> alua_tpg \<Rightarrow> pyval \<Rightarrow> unit W" where
  "set_alua_support_unavailable K = at_set_int K ''alua_support_unavailable'' ''Cannot set alua_support_unavailable: ''"

definition get_alua_support_standby :: "alua_tpg \<Rightarrow> int W" where
  "get_alua_support_standby = at_get_int ''alua_support_standby''"

definition set_alua_support_standby :: "env \<Rightarrow> alua_tpg \<Rightarrow> pyval \<Rightarrow> unit W" where
  "set_alua_support_standby K = at_set_int K ''alua_support_standby'' ''Cannot set alua_support_standby: ''"

definition get_alua_support_transitioning :: "alua_tpg \<Rightarrow> int W" where
  "get_alua_support_transitioning = at_get_int ''alua_support_transitioning''"

definition set_alua_support_transitioning :: "env \<Rightarrow> alua_tpg \<Rightarrow> pyval \<Rightarrow> unit W" where
  "set_alua_support_transitioning K = at_set_int K ''alua_support_transitioning'' ''Cannot set alua_support_transitioning: ''"

definition get_trans_delay_msecs :: "alua_tpg \<Rightarrow> int W" where
  "get_trans_delay_msecs = at_get_int ''trans_delay_msecs''"

definition set_trans_delay_msecs :: "env \<Rightarrow> alua_tpg \<Rightarrow> pyval \<Rightarrow> unit W" where
  "set_trans_delay_msecs K = at_set_int K ''trans_delay_msecs'' ''Cannot set trans_delay_msecs: ''"

definition get_implicit_trans_secs :: "alua_tpg \<Rightarrow> int W" where
  "get_implicit_trans_secs = at_get_int ''implicit_trans_secs''"

definition set_implicit_trans_secs :: "env \<Rightarrow> alua_tpg \<Rightarrow> pyval \<Rightarrow> unit W" where
  "set_implicit_trans_secs K = at_set_int K ''implicit_trans_secs'' ''Cannot set implicit_trans_secs: ''"

definition get_nonop_delay_msecs :: "alua_tpg \<Rightarrow> int W" where
  "get_nonop_delay_msecs = at_get_int ''nonop_delay_msecs''"

definition set_nonop_delay_msecs :: "env \<Rightarrow> alua_tpg \<Rightarrow> pyval \<Rightarrow> unit W" where
  "set_nonop_delay_msecs K = at_set_int K ''nonop_delay_msecs'' ''Cannot set nonop_delay_msecs: ''"

definition get_alua_support_lba_dependent :: "alua_tpg \<Rightarrow> int W" where
  "get_alua_support_lba_dependent = at_get_int ''alua_support_lba_dependent''"

definition get_tg_pt_gp_id :: "alua_tpg \<Rightarrow> int W" where
  "get_tg_pt_gp_id = at_get_int ''tg_pt_gp_id''"

text \<open>One member of the group: fabric, target, portal group tag and LUN. \<^verbatim>\<open>s.split("_", 1)[1]\<close> is what follows the first separator.\<close>

definition split1_second :: "string \<Rightarrow> exn + string" where
  "split1_second s = (if CHR ''_'' \<in> set s then Inr (after_char (CHR ''_'') s) else Inl (IndexErr ''list index out of range''))"

definition parse_member :: "string list \<Rightarrow> pyval W" where
  "parse_member parts =
     bindM (lift (split1_second (parts ! 2))) (\<lambda>t. bindM (lift (to_int (PStr t))) (\<lambda>tpgt.
     bindM (lift (split1_second (parts ! 3))) (\<lambda>l. bindM (lift (to_int (PStr l))) (\<lambda>lun.
       ret (PDict [(''driver'', PStr (parts ! 0)), (''target'', PStr (parts ! 1)),
                   (''tpgt'', PInt tpgt), (''lun'', PInt lun)])))))"

definition get_members :: "alua_tpg \<Rightarrow> pyval list W" where
  "get_members a =
     seqM (at_check a) (bindM (fread (at_path a @ [''members''])) (\<lambda>s.
       collect (iter (filter (\<lambda>p. length p = 4) (map (split_on (CHR ''/'')) (splitlines s)))) parse_member))"

section \<open>Dump and setup\<close>

text \<open>\<^verbatim>\<open>getattr\<close> and \<^verbatim>\<open>setattr\<close> for the names of a dump. A name with no property becomes an attribute of the
  Python object, which is dropped; a read-only property refuses.\<close>

definition at_getters :: "(string \<times> (alua_tpg \<Rightarrow> int W)) list" where
  "at_getters = [(''alua_access_state'', get_alua_access_state), (''alua_access_status'', get_alua_access_status),
     (''alua_write_metadata'', get_alua_write_metadata), (''alua_access_type'', get_alua_access_type),
     (''preferred'', get_preferred), (''nonop_delay_msecs'', get_nonop_delay_msecs),
     (''trans_delay_msecs'', get_trans_delay_msecs), (''implicit_trans_secs'', get_implicit_trans_secs),
     (''alua_support_offline'', get_alua_support_offline), (''alua_support_standby'', get_alua_support_standby),
     (''alua_support_transitioning'', get_alua_support_transitioning),
     (''alua_support_active_nonoptimized'', get_alua_support_active_nonoptimized),
     (''alua_support_unavailable'', get_alua_support_unavailable),
     (''alua_support_active_optimized'', get_alua_support_active_optimized)]"

definition at_setters :: "env \<Rightarrow> (string \<times> (alua_tpg \<Rightarrow> pyval \<Rightarrow> unit W)) list" where
  "at_setters K = [(''alua_access_state'', set_alua_access_state K), (''alua_access_status'', set_alua_access_status K),
     (''alua_write_metadata'', set_alua_write_metadata K), (''alua_access_type'', set_alua_access_type K),
     (''preferred'', set_preferred K), (''nonop_delay_msecs'', set_nonop_delay_msecs K),
     (''trans_delay_msecs'', set_trans_delay_msecs K), (''implicit_trans_secs'', set_implicit_trans_secs K),
     (''alua_support_offline'', set_alua_support_offline K), (''alua_support_standby'', set_alua_support_standby K),
     (''alua_support_transitioning'', set_alua_support_transitioning K),
     (''alua_support_active_nonoptimized'', set_alua_support_active_nonoptimized K),
     (''alua_support_unavailable'', set_alua_support_unavailable K),
     (''alua_support_active_optimized'', set_alua_support_active_optimized K)]"

definition at_setattr :: "env \<Rightarrow> alua_tpg \<Rightarrow> string \<Rightarrow> pyval \<Rightarrow> unit W" where
  "at_setattr K a name v = (case map_of (at_setters K) name of
      Some f \<Rightarrow> f a v
    | None \<Rightarrow>
        if name \<in> {''members'', ''alua_support_lba_dependent'', ''tg_pt_gp_id'', ''path'', ''exists''}
        then raise (AttributeErr name) else ret ())"

definition Alua_dump :: "alua_tpg \<Rightarrow> pydict W" where
  "Alua_dump a =
     bindM (node_dump ''ALUATargetPortGroup'' (at_path a)) (\<lambda>d.
     bindM (get_tg_pt_gp_id a) (\<lambda>i.
     bindM (collect (iter alua_rw_params) (\<lambda>param.
       bindM (the_or (AttributeErr param) (map_of at_getters param)) (\<lambda>get.
         bindM (get a) (\<lambda>n. ret (param, PInt n))))) (\<lambda>params.
       ret (d @ [(''name'', PStr (at_name a)), (''tg_pt_gp_id'', PInt i)] @ params))))"

definition Alua_setup :: "env \<Rightarrow> storage_object \<Rightarrow> pydict \<Rightarrow> unit W" where
  "Alua_setup K so alua_tpg =
     bindM (the_or (KeyErr ''name'') (map_of alua_tpg ''name'')) (\<lambda>name.
       if name = PStr ''default_tg_pt_gp'' then ret ()
       else bindM (the_or (KeyErr ''tg_pt_gp_id'') (map_of alua_tpg ''tg_pt_gp_id'')) (\<lambda>tag.
         bindM (Alua_init K so (py_str name) tag) (\<lambda>a.
           for_each (iter alua_tpg) (\<lambda>(param, v).
             if param \<notin> {''name'', ''tg_pt_gp_id''} then
               catchM (at_setattr K a param v) (\<lambda>e.
                 raise (RTSLibError (''Could not set attribute '' @ [CHR 0x27] @ param @ [CHR 0x27] @ '' for alua tpg '' @
                   [CHR 0x27] @ py_str name @ [CHR 0x27])))
             else ret ()))))"

definition list_alua_tpgs :: "env \<Rightarrow> storage_object \<Rightarrow> (world, alua_tpg, 'c) gen" where
  "list_alua_tpgs K so body c =
     seqM (so_check so)
       (iterdir (so_path so @ [''alua'']) (\<lambda>tpg c'.
          bindM (alua_supported so) (\<lambda>sup.
            if sup then bindM (Alua_init K so tpg PNone) (\<lambda>a. body a c') else ret (Next c'))) c)"

section \<open>Which paths a method touches\<close>

lemma alua_supported_stays [pres]: "stays (frame A) (alua_supported so)"
  unfolding alua_supported_def storage_object_get_alua_support_attr_def by (intro fr.comb fr.base pres)

lemma Alua_lookup_stays [pres]: "stays (frame A) (Alua_init K so name PNone)"
  unfolding Alua_init_def os_to_rts_def Let_def by (auto intro!: fr.comb fr.base pres)

lemma Alua_yields: "yields (\<lambda>a. strict_prefix (so_path so) (at_path a)) (Alua_init K so name tag)"
  unfolding Alua_init_def Let_def by (intro yields_rules) (simp_all add: prefix_pjoin_below)

lemma list_alua_tpgs_stays:
  assumes "\<And>a c. strict_prefix (so_path so) (at_path a) \<Longrightarrow> stays (frame A) (body a c)"
  shows "stays (frame A) (list_alua_tpgs K so body c)"
  unfolding list_alua_tpgs_def
  by (intro fr.comb fr.base pres fr.bindM_stays_on [OF Alua_lookup_stays Alua_yields] assms)

context configfs
begin

lemma Alua_delete_stays: "below (at_path a) A \<Longrightarrow> stays (frame A) (Alua_delete K a)"
  unfolding Alua_delete_def at_check_def by (intro fr.comb fr.base pres node_delete_below)

lemma Alua_init_stays: "below (so_path so) A \<Longrightarrow> stays (frame A) (Alua_init K so name tag)"
  unfolding Alua_init_def Let_def os_to_rts_def
  by (intro fr.comb fr.base pres create_below fwrite_stays Alua_delete_stays)
    (auto intro: below_down prefix_order.less_imp_le prefix_pjoin_below)

lemma at_setattr_stays: "stays (frame A) (at_setattr K a name v)"
proof -
  have set: "stays (frame A) (at_set_int K fl what a v)" for fl what
    unfolding at_set_int_def at_check_def by (intro fr.comb fr.base pres fwrite_stays)
  show ?thesis
    unfolding at_setattr_def at_setters_def
    by (simp add: set fr.base set_alua_access_state_def set_alua_access_status_def set_alua_write_metadata_def
        set_alua_access_type_def set_preferred_def set_nonop_delay_msecs_def set_trans_delay_msecs_def
        set_implicit_trans_secs_def set_alua_support_offline_def set_alua_support_standby_def
        set_alua_support_transitioning_def set_alua_support_active_nonoptimized_def
        set_alua_support_unavailable_def set_alua_support_active_optimized_def)
qed

lemma Alua_setup_stays: "below (so_path so) A \<Longrightarrow> stays (frame A) (Alua_setup K so d)"
  unfolding Alua_setup_def by (intro fr.comb fr.base pres Alua_init_stays at_setattr_stays)

end

section \<open>Properties\<close>

text \<open>The parameters that are stored and shown as the same number; status and type are shown by name.\<close>

definition alua_numeric_params :: "string list" where
  "alua_numeric_params = filter (\<lambda>p. p \<notin> {''alua_access_status'', ''alua_access_type''}) alua_rw_params"

lemmas at_get_defs = get_alua_access_state_def get_alua_write_metadata_def get_preferred_def get_nonop_delay_msecs_def
  get_trans_delay_msecs_def get_implicit_trans_secs_def get_alua_support_offline_def get_alua_support_standby_def
  get_alua_support_transitioning_def get_alua_support_active_nonoptimized_def get_alua_support_unavailable_def
  get_alua_support_active_optimized_def

lemmas at_set_defs = set_alua_access_state_def set_alua_write_metadata_def set_preferred_def set_nonop_delay_msecs_def
  set_trans_delay_msecs_def set_implicit_trans_secs_def set_alua_support_offline_def set_alua_support_standby_def
  set_alua_support_transitioning_def set_alua_support_active_nonoptimized_def set_alua_support_unavailable_def
  set_alua_support_active_optimized_def

text \<open>Every numeric parameter has a getter and a setter on the file of its own name.\<close>

lemma numeric_accessors:
  assumes "p \<in> set alua_numeric_params"
  shows "\<exists>what. map_of at_getters p = Some (at_get_int p) \<and> at_setattr K a p v = at_set_int K p what a v"
proof -
  have names: "alua_numeric_params = [''alua_access_state'', ''alua_write_metadata'', ''preferred'', ''nonop_delay_msecs'',
      ''trans_delay_msecs'', ''implicit_trans_secs'', ''alua_support_offline'', ''alua_support_standby'',
      ''alua_support_transitioning'', ''alua_support_active_nonoptimized'', ''alua_support_unavailable'',
      ''alua_support_active_optimized'']"
    by code_simp
  have get: "map_of at_getters p = Some (at_get_int p)"
    using assms unfolding names at_getters_def at_get_defs
    by (simp only: list.set insert_iff empty_iff simp_thms) (elim disjE; simp)
  moreover have "\<exists>what. map_of (at_setters K) p = Some (at_set_int K p what)"
    using assms unfolding names at_setters_def at_set_defs
    by (simp only: list.set insert_iff empty_iff simp_thms) (elim disjE; simp; blast)
  ultimately show ?thesis by (auto simp: at_setattr_def)
qed

lemma at_set_int_Ok:
  assumes "at_set_int K p what a v w = (Ok (), w')"
  shows "\<exists>n. to_int v = Inr n \<and> is_dir (fs w) (at_path a) \<and> fwrite K (at_path a @ [p]) (str_of_int n) w = (Ok (), w')"
  using assms
  by (auto simp: at_set_int_def at_check_def check_self_def exists_def is_dirM_def gets_def seqM_def bindM_def
      raise_def ret_def catchM_def lift_def split: sum.splits if_splits prod.splits res.splits)

text \<open>
  ALUA parameters round-trip. For each of the twelve numeric parameters of a group, if storing a
  value through its property succeeds then the value is a number and reading the property gives
  that number back.
\<close>

theorem alua_param_roundtrip:
  assumes "configfs K" and p: "p \<in> set alua_numeric_params" and "echoes K (at_path a @ [p]) (fs w)"
    and "at_setattr K a p v w = (Ok (), w')"
  shows "\<exists>n get. to_int v = Inr n \<and> map_of at_getters p = Some get \<and> get a w' = (Ok n, w')"
proof -
  obtain what where get: "map_of at_getters p = Some (at_get_int p)" and set: "at_set_int K p what a v w = (Ok (), w')"
    using numeric_accessors [OF p, of K a v] assms(4) by auto
  obtain n where n: "to_int v = Inr n" and dir: "is_dir (fs w) (at_path a)"
      and wr: "fwrite K (at_path a @ [p]) (str_of_int n) w = (Ok (), w')"
    using at_set_int_Ok [OF set] by blast
  have "fread (at_path a @ [p]) w' = (Ok (strip (str_of_int n)), w')"
    by (rule fread_after_fwrite [OF assms(3) wr])
  moreover have "is_dir (fs w') (at_path a)"
    using staysD [OF configfs.fwrite_stays [OF assms(1)] wr, of no_shape] dir by (simp add: frame_no_shape_is_dir)
  ultimately have "at_get_int p a w' = (Ok n, w')"
    by (simp add: at_get_int_def at_check_def check_self_Ok seqM_def bindM_def lift_def ret_def strip_str_of_int)
  with n get show ?thesis by blast
qed

definition demo_alua :: alua_tpg where
  "demo_alua = \<lparr>at_so = demo_so, at_name = ''grp'', at_path = so_path demo_so @ [''alua'', ''grp'']\<rparr>"

definition demo_alua_world :: world where
  "demo_alua_world = world0\<lparr>fs := [(at_path demo_alua, Dir),
     (at_path demo_alua @ [''preferred''], File 420 (Inr ''0''))]\<rparr>"

theorem alua_param_roundtrip_witness:
  "\<exists>w'. at_setattr lio demo_alua ''preferred'' (PBool True) demo_alua_world = (Ok (), w') \<and>
     get_preferred demo_alua w' = (Ok 1, w')"
proof -
  have "fst (set_preferred lio demo_alua (PBool True) demo_alua_world) = Ok ()" by code_simp
  moreover have eq: "at_setattr lio demo_alua ''preferred'' = set_preferred lio demo_alua"
    by (simp add: at_setattr_def at_setters_def fun_eq_iff)
  ultimately have "fst (at_setattr lio demo_alua ''preferred'' (PBool True) demo_alua_world) = Ok ()" by simp
  then obtain w' where w': "at_setattr lio demo_alua ''preferred'' (PBool True) demo_alua_world = (Ok (), w')"
    by (metis prod.collapse)
  have p: "''preferred'' \<in> set alua_numeric_params" by code_simp
  have e: "echoes lio (at_path demo_alua @ [''preferred'']) (fs demo_alua_world)"
    by (rule echoes_lio) code_simp
  have "map_of at_getters ''preferred'' = Some get_preferred" by (simp add: at_getters_def)
  with alua_param_roundtrip [OF lio_fs.configfs_axioms p e w'] w' show ?thesis by auto
qed

end
