(* ===== verification/Tcm.thy ===== *)
theory Tcm
  imports Alua
begin

text \<open>
  \<^verbatim>\<open>tcm.py\<close>, the storage objects: finding the LUNs that export one, deletion with everything that
  hangs on it, the configuration of each plugin, the constructors with their clean-up, the
  accessors and the dumps. The part of \<^verbatim>\<open>RTSRoot\<close> a storage object needs (its constructor and the
  database directory) comes first. The theory shows what a deletion touches, that a constructor that
  fails leaves no storage object of its own behind, and that dumps are accepted by the constructors.
\<close>

section \<open>The root object\<close>

definition default_dbroot :: string where
  "default_dbroot = ''/var/target''"

definition preferred_dbroot :: string where
  "preferred_dbroot = ''/etc/target''"

definition set_dbroot :: "env \<Rightarrow> string W" where
  "set_dbroot K =
     (let p = configfs_dir @ [''dbroot''] in
      bindM (gets (\<lambda>w. path_exists (fs w) p)) (\<lambda>ex.
        if \<not> ex then ret default_dbroot
        else bindM (fread p) (\<lambda>dbroot.
          if dbroot \<noteq> preferred_dbroot then
            try_else (fwrite K p (preferred_dbroot @ [newline]))
              (\<lambda>e. bindM (is_dirM (comps preferred_dbroot)) (\<lambda>d.
                 if \<not> d then raise (RTSLibError (''Cannot set dbroot to '' @ preferred_dbroot @
                   ''. Please check if this directory exists.''))
                 else ret dbroot))
              (\<lambda>_. fread p)
          else ret dbroot)))"

text \<open>The object is what it keeps, its \<^verbatim>\<open>dbroot\<close>.\<close>

definition RTSRoot_init :: "env \<Rightarrow> string W" where
  "RTSRoot_init K =
     seqM (catchM (mount_configfs K)
             (\<lambda>e. if is_rtslib_error e then seqM (modprobe K ''configfs'') (mount_configfs K) else raise e))
     (seqM (catchM (create_in_cfs_ine K ''RTSRoot'' configfs_dir ''any'')
              (\<lambda>e. if is_rtslib_error e
                   then seqM (modprobe K ''target_core_mod'') (create_in_cfs_ine K ''RTSRoot'' configfs_dir ''any'')
                   else raise e))
       (set_dbroot K))"

definition root_check :: "unit W" where
  "root_check = check_self ''RTSRoot'' configfs_dir"

definition list_fabric_modules :: "(world, fabric, 'c) gen" where
  "list_fabric_modules body c = seqM root_check (iter FabricModule_all body c)"

section \<open>The LUNs of a storage object\<close>

definition attached_lun :: "env \<Rightarrow> fabric \<Rightarrow> string \<Rightarrow> string \<Rightarrow> string \<Rightarrow> lun W" where
  "attached_lun K fm tgt_dir tpgt_dir lun_dir =
     (let val = split_on (CHR ''_'') (tpgt_dir @ ''_'' @ lun_dir) in
      bindM (Target_init K fm (Some tgt_dir) ''any'') (\<lambda>t.
      bindM (lift (idx val 1)) (\<lambda>tag.
      bindM (TPG_init K t (PStr tag) ''any'') (\<lambda>g.
      bindM (lift (idx val 3)) (\<lambda>n. LUN_lookup K g (PStr n))))))"

definition gen_attached_luns :: "env \<Rightarrow> storage_object \<Rightarrow> (world, lun, 'c) gen" where
  "gen_attached_luns K so body c =
     seqM (RTSRoot_init K)
       (list_fabric_modules (\<lambda>fm c1.
          bindM (exists (fm_path fm)) (\<lambda>ex.
            if \<not> ex then ret (Next c1)
            else iterdir (fm_path fm) (\<lambda>tgt_dir c2.
              if tgt_dir \<in> set target_names_excludes then ret (Next c2)
              else iterdir (fm_path fm @ [tgt_dir]) (\<lambda>tpgt_dir c3.
                let luns_base = fm_path fm @ [tgt_dir, tpgt_dir, ''lun''] in
                bindM (is_dirM luns_base) (\<lambda>d.
                  if \<not> d then ret (Next c3)
                  else iterdir luns_base (\<lambda>lun_dir c4.
                    iterdir (luns_base @ [lun_dir]) (\<lambda>lun_file c5.
                      let link = luns_base @ [lun_dir, lun_file] in
                      bindM (gets (\<lambda>w. is_symlink (fs w) link \<and> realpath (fs w) link = so_path so)) (\<lambda>hit.
                        if hit then bindM (attached_lun K fm tgt_dir tpgt_dir lun_dir) (\<lambda>l. body l c5)
                        else ret (Next c5))) c4) c3)) c2) c1)) c)"

definition list_attached_luns :: "env \<Rightarrow> storage_object \<Rightarrow> (world, lun, 'c) gen" where
  "list_attached_luns K so body c = seqM (so_check so) (gen_attached_luns K so body c)"

section \<open>Deletion\<close>

text \<open>\<^verbatim>\<open>delete(save=False)\<close>.\<close>

definition so_delete :: "env \<Rightarrow> storage_object \<Rightarrow> unit W" where
  "so_delete K so =
     seqM (so_check so)
     (seqM (for_each (list_alua_tpgs K so) (\<lambda>a. whenM (at_name a \<noteq> ''default_tg_pt_gp'') (Alua_delete K a)))
     (seqM (bindM (is_configured so) (\<lambda>conf.
         if conf then
           seqM (gen_attached_luns K so (\<lambda>l c.
               bindM (so_get_status so) (\<lambda>st.
                 if st \<noteq> ''activated'' then ret (Break c)
                 else seqM (LUN_delete K l) (ret (Next c)))) ())
             (ret ())
         else ret ()))
     (seqM (node_delete K (so_path so)) (Backstore_delete K (so_backstore so)))))"

section \<open>Persistent reservations\<close>

text \<open>
  The lists of one file. A start line makes a new list; an end line records the current list, which
  later lines still extend, as it is the same object: the record is of the list's number.
\<close>

fun aptpl_scan :: "string list \<Rightarrow> string list list \<Rightarrow> nat list \<Rightarrow> string list list \<times> nat list" where
  "aptpl_scan [] accs recorded = (accs, recorded)"
| "aptpl_scan (line # lines) accs recorded =
     (if startswith line ''PR_REG_START:'' then aptpl_scan lines (accs @ [[]]) recorded
      else if startswith line ''PR_REG_END:'' then aptpl_scan lines accs (recorded @ [length accs - 1])
      else aptpl_scan lines (butlast accs @ [last accs @ [strip line]]) recorded)"

definition aptpl_reservations :: "string list \<Rightarrow> string list list" where
  "aptpl_reservations lines = (let (accs, recorded) = aptpl_scan lines [] [] in map (\<lambda>i. accs ! i) recorded)"

definition config_pr_aptpl :: "env \<Rightarrow> storage_object \<Rightarrow> unit W" where
  "config_pr_aptpl K so =
     bindM (RTSRoot_init K) (\<lambda>dbroot.
       try_else (bindM (so_get_wwn so) (\<lambda>wwn. fread (pjoin (comps dbroot @ [''pr'']) (''aptpl_'' @ wwn))))
         (\<lambda>e. ret ())
         (\<lambda>s. bindM (lift (idx (words s) 0)) (\<lambda>first.
            if \<not> startswith first ''PR_REG_START:'' then ret ()
            else for_each (iter (aptpl_reservations (words s))) (\<lambda>res.
              fwrite K (so_path so @ [''pr'', ''res_aptpl_metadata'']) (join '','' res)))))"

section \<open>Configuration\<close>

text \<open>\<^verbatim>\<open>StorageObject._configure\<close>.\<close>

definition so_configure :: "env \<Rightarrow> storage_object \<Rightarrow> pyval \<Rightarrow> unit W" where
  "so_configure K so wwn =
     bindM (if truthy wwn then ret (py_str wwn) else generate_wwn K ''unit_serial'') (\<lambda>n.
       seqM (so_set_wwn K so n) (config_pr_aptpl K so))"

text \<open>The address and the device file of a pscsi object: from its path, or from \<^verbatim>\<open>H:C:T:L\<close>.\<close>

definition pscsi_device :: "env \<Rightarrow> string \<Rightarrow> (int list \<times> string) W" where
  "pscsi_device K dev =
     catchM (bindM (convert_scsi_path_to_hctl K dev) (\<lambda>ns.
         if length ns = 4 then ret (ns, strip dev) else raise (ValueErr ''values to unpack'')))
       (\<lambda>e. case ints (split_on (CHR '':'') dev) of
          Some [h, c, t, l] \<Rightarrow> bindM (lift (convert_scsi_hctl_to_path K h c t l)) (\<lambda>p. ret ([h, c, t, l], p))
        | _ \<Rightarrow> raise (RTSLibError (''Cannot find SCSI device by path, and dev parameter not in H:C:T:L format: {dev}'')))"

definition pscsi_configure :: "env \<Rightarrow> string \<Rightarrow> storage_object \<Rightarrow> unit W" where
  "pscsi_configure K dev so =
     seqM (so_check so)
       (bindM (pscsi_device K dev) (\<lambda>(ns, udev_path).
          bindM (is_dev_in_use K udev_path) (\<lambda>used.
            if used then raise (RTSLibError (''Cannot configure StorageObject because device '' @ udev_path @
              '' (SCSI '' @ join '':'' (map str_of_int ns) @ '') is already in use''))
            else seqM (so_control K so (''scsi_host_id='' @ str_of_int (ns ! 0) @ '',scsi_channel_id='' @ str_of_int (ns ! 1) @
                   '',scsi_target_id='' @ str_of_int (ns ! 2) @ '',scsi_lun_id='' @ str_of_int (ns ! 3)))
              (seqM (so_set_udev_path K so udev_path)
                (seqM (so_enable K so) (so_configure K so PNone))))))"

text \<open>
  \<^verbatim>\<open>round(float(size)/pagesize)\<close>, exact as long as the size is a number that a double holds: the nearest
  number, the even one of two. The size is a fraction, as a string may have a decimal point or an exponent.
\<close>

definition round_div :: "int \<Rightarrow> int \<Rightarrow> int" where
  "round_div a b = (let q = a div b; r = a mod b in
     if 2 * r < b then q else if 2 * r > b then q + 1 else if even q then q else q + 1)"

definition rd_pages :: "env \<Rightarrow> int \<times> int \<Rightarrow> int" where
  "rd_pages K bytes = (let n = round_div (fst bytes) (snd bytes * k_pagesize K) in if n = 0 then 1 else n)"

definition rdmcp_configure :: "env \<Rightarrow> pyval \<Rightarrow> pyval \<Rightarrow> pyval \<Rightarrow> storage_object \<Rightarrow> unit W" where
  "rdmcp_configure K bytes wwn nullio so =
     seqM (so_check so)
       (bindM (lift (to_fraction bytes)) (\<lambda>n.
          seqM (so_control K so (''rd_pages='' @ str_of_int (rd_pages K n)))
            (seqM (whenM (truthy nullio) (so_control K so ''rd_nullio=1''))
              (seqM (so_enable K so) (so_configure K so wwn)))))"

definition fileio_configure :: "env \<Rightarrow> string \<Rightarrow> pyval \<Rightarrow> pyval \<Rightarrow> pyval \<Rightarrow> pyval \<Rightarrow> storage_object \<Rightarrow> unit W" where
  "fileio_configure K dev bytes wwn write_back aio so =
     seqM (so_check so)
     (bindM (lift (get_blockdev_type K dev)) (\<lambda>block_type.
      seqM (case block_type of
          None \<Rightarrow>
            bindM (gets (\<lambda>w. path_exists (fs w) (comps dev) \<and> \<not> is_file (fs w) (comps dev))) (\<lambda>bad.
              if bad then raise (RTSLibError ''Path not to a file or block device'')
              else if bytes = PNone then raise (RTSLibError ''Path is to a file, size needed'')
              else bindM (lift (fmt_d bytes)) (\<lambda>sz. so_control K so (''fd_dev_name='' @ dev @ '',fd_dev_size='' @ sz)))
        | Some t \<Rightarrow>
            if t \<noteq> 0 then raise (RTSLibError ''Device is not a TYPE_DISK block device'')
            else bindM (is_dev_in_use K dev) (\<lambda>used.
              if used then raise (RTSLibError (''Device '' @ dev @ '' is already in use''))
              else so_control K so (''fd_dev_name='' @ dev)))
      (seqM (whenM (truthy write_back)
              (seqM (set_attribute K (so_cls_name (so_cls so)) (so_path so) ''emulate_write_cache'' (PInt 1))
                (bindM (lift (fmt_d write_back)) (\<lambda>b. so_control K so (''fd_buffered_io='' @ b)))))
      (seqM (whenM (truthy aio) (bindM (lift (fmt_d aio)) (\<lambda>b. so_control K so (''fd_async_io='' @ b))))
      (seqM (so_set_udev_path K so dev)
      (seqM (so_enable K so) (so_configure K so wwn)))))))"

definition block_configure :: "env \<Rightarrow> string \<Rightarrow> pyval \<Rightarrow> pyval \<Rightarrow> storage_object \<Rightarrow> unit W" where
  "block_configure K dev wwn readonly so =
     seqM (so_check so)
     (bindM (lift (get_blockdev_type K dev)) (\<lambda>t.
        if t \<noteq> Some 0 then raise (RTSLibError (''Device '' @ dev @ '' is not a TYPE_DISK block device''))
        else bindM (is_dev_in_use K dev) (\<lambda>used.
          if used then raise (RTSLibError (''Cannot configure StorageObject because device {dev} is already in use''))
          else seqM (so_set_udev_path K so dev)
            (seqM (so_control K so (''udev_path='' @ dev))
              (seqM (bindM (lift (fmt_d readonly)) (\<lambda>r. so_control K so (''readonly='' @ r)))
                (seqM (so_enable K so) (so_configure K so wwn)))))))"

text \<open>\<^verbatim>\<open>c in v\<close>: a character of a string, an element of a list, a key of a dictionary.\<close>

definition py_contains :: "pyval \<Rightarrow> char \<Rightarrow> exn + bool" where
  "py_contains v c = (case v of
      PStr s \<Rightarrow> Inr (c \<in> set s) | PList vs \<Rightarrow> Inr (PStr [c] \<in> set vs) | PDict d \<Rightarrow> Inr ([c] \<in> fst ` set d)
    | _ \<Rightarrow> Inl (TypeErr ''argument is not iterable''))"

definition user_configure :: "env \<Rightarrow> pyval \<Rightarrow> pyval \<Rightarrow> pyval \<Rightarrow> pyval \<Rightarrow> pyval \<Rightarrow> storage_object \<Rightarrow> unit W" where
  "user_configure K config bytes wwn hw_max_sectors control so =
     seqM (so_check so)
       (bindM (lift (py_contains config (CHR '':''))) (\<lambda>colon.
        if colon then raise (RTSLibError ([CHR 0x27] @ '':'' @ [CHR 0x27] @ '' not allowed in config string''))
        else seqM (so_control K so (''dev_config='' @ py_str config))
          (seqM (bindM (lift (fmt_d bytes)) (\<lambda>sz. so_control K so (''dev_size='' @ sz)))
            (seqM (whenM (hw_max_sectors \<noteq> PNone) (so_control K so (''hw_max_sectors='' @ py_str hw_max_sectors)))
              (seqM (whenM (control \<noteq> PNone) (so_control K so (py_str control)))
                (seqM (so_enable K so) (so_configure K so wwn)))))))"

section \<open>Constructors\<close>

text \<open>Creation: the directories first, then the configuration, undone by a deletion when it fails.\<close>

definition so_create :: "env \<Rightarrow> so_class \<Rightarrow> string \<Rightarrow> pyval \<Rightarrow> (storage_object \<Rightarrow> unit W) \<Rightarrow> storage_object W" where
  "so_create K cls name index conf =
     bindM (StorageObject_init K cls name ''create'' index) (\<lambda>so.
       seqM (catchM (conf so) (\<lambda>e. seqM (so_delete K so) (raise e))) (ret so))"

text \<open>
  The device argument may be any value of a saved file. One that is neither a string nor \<^verbatim>\<open>None\<close> makes the configuration raise at its first use as a
  string, after the creation; a number, which \<^verbatim>\<open>os.stat\<close> would take as a file descriptor, is not told apart.
\<close>

definition with_dev :: "exn \<Rightarrow> pyval \<Rightarrow> (string \<Rightarrow> storage_object \<Rightarrow> unit W) \<Rightarrow> storage_object \<Rightarrow> unit W" where
  "with_dev e dev conf so = (case dev of PStr d \<Rightarrow> conf d so | _ \<Rightarrow> seqM (so_check so) (raise e))"

definition PSCSI_init :: "env \<Rightarrow> string \<Rightarrow> pyval \<Rightarrow> pyval \<Rightarrow> storage_object W" where
  "PSCSI_init K name dev index =
     (if dev \<noteq> PNone then so_create K PSCSI name index (with_dev (AttributeErr ''split'') dev (pscsi_configure K))
      else so_lookup K PSCSI name index)"

definition RDMCP_init :: "env \<Rightarrow> string \<Rightarrow> pyval \<Rightarrow> pyval \<Rightarrow> pyval \<Rightarrow> pyval \<Rightarrow> storage_object W" where
  "RDMCP_init K name bytes wwn nullio index =
     (if bytes \<noteq> PNone then so_create K RDMCP name index (rdmcp_configure K bytes wwn nullio)
      else so_lookup K RDMCP name index)"

definition FileIO_init :: "env \<Rightarrow> string \<Rightarrow> pyval \<Rightarrow> pyval \<Rightarrow> pyval \<Rightarrow> pyval \<Rightarrow> pyval \<Rightarrow> pyval \<Rightarrow> storage_object W" where
  "FileIO_init K name dev bytes wwn write_back aio index =
     (if dev \<noteq> PNone
      then so_create K FileIO name index (with_dev (TypeErr ''stat: path'') dev (\<lambda>d. fileio_configure K d bytes wwn write_back aio))
      else so_lookup K FileIO name index)"

definition Block_init :: "env \<Rightarrow> string \<Rightarrow> pyval \<Rightarrow> pyval \<Rightarrow> pyval \<Rightarrow> pyval \<Rightarrow> pyval \<Rightarrow> storage_object W" where
  "Block_init K name dev wwn readonly write_back index =
     (if dev \<noteq> PNone then so_create K Block name index (with_dev (TypeErr ''stat: path'') dev (\<lambda>d. block_configure K d wwn readonly))
      else so_lookup K Block name index)"

definition User_init :: "env \<Rightarrow> string \<Rightarrow> pyval \<Rightarrow> pyval \<Rightarrow> pyval \<Rightarrow> pyval \<Rightarrow> pyval \<Rightarrow> pyval \<Rightarrow> storage_object W" where
  "User_init K name config bytes wwn hw_max_sectors control index =
     (if bytes \<noteq> PNone then
        (if config = PNone then raise (RTSLibError ([CHR 0x27] @ ''size'' @ [CHR 0x27] @ '' and '' @ [CHR 0x27] @ ''config'' @ [CHR 0x27] @
             '' must be set when creating a new UserBackedStorageObject''))
         else bindM (lift (py_contains config (CHR ''/''))) (\<lambda>slash.
             if \<not> slash then raise (RTSLibError ([CHR 0x27] @ ''config'' @ [CHR 0x27] @ '' must contain a '' @
               [CHR 0x27] @ ''/'' @ [CHR 0x27] @ '' separating subtype from its configuration string''))
             else so_create K User name index (user_configure K config bytes wwn hw_max_sectors control)))
      else so_lookup K User name index)"

text \<open>\<^verbatim>\<open>StorageObjectFactory(path)\<close>.\<close>

definition StorageObjectFactory :: "env \<Rightarrow> string \<Rightarrow> storage_object W" where
  "StorageObjectFactory K p =
     (let cs = comps p; name = (if cs = [] then '''' else last cs);
          err = raise (RTSLibError (''Can'' @ [CHR 0x27] @ ''t create storageobject from path: '' @ p)) in
      bindM (gets (\<lambda>w. (path_exists (fs w) cs, k_is_block K (fs w) cs, map_of (fs w) (realpath (fs w) cs)))) (\<lambda>(ex, blk, nd).
        if ex \<and> blk then Block_init K name (PStr p) PNone (PBool False) (PBool False) PNone
        else (case nd of
            Some (File _ (Inr s)) \<Rightarrow>
              if ex then FileIO_init K name (PStr p) (PInt (int (length s))) PNone (PBool False) (PBool False) PNone else err
          | _ \<Rightarrow> err)))"

section \<open>Accessors of the plugins\<close>

text \<open>\<^verbatim>\<open>int(self._parse_info(key))\<close>: \<^verbatim>\<open>int(None)\<close> is a type error.\<close>

definition info_int :: "storage_object \<Rightarrow> string \<Rightarrow> int W" where
  "info_int so key =
     bindM (so_parse_info so key) (\<lambda>v. lift (to_int (case v of Some s \<Rightarrow> PStr s | None \<Rightarrow> PNone)))"

definition checked_info_int :: "storage_object \<Rightarrow> string \<Rightarrow> int W" where
  "checked_info_int so key = seqM (so_check so) (info_int so key)"

text \<open>\<^verbatim>\<open>re.search(".*pre(.*)post", info).group(1)\<close>: up to the last \<^verbatim>\<open>post\<close> after the last \<^verbatim>\<open>pre\<close> that has one after it.\<close>

fun before_last :: "string \<Rightarrow> string \<Rightarrow> string option" where
  "before_last post [] = (if post = [] then Some [] else None)"
| "before_last post (x # xs) = (case before_last post xs of
      Some u \<Rightarrow> Some (x # u)
    | None \<Rightarrow> if startswith (x # xs) post then Some [] else None)"

definition between :: "string \<Rightarrow> string \<Rightarrow> string \<Rightarrow> string option" where
  "between pre post s =
     last_match (\<lambda>t. if startswith t pre then before_last post (drop (length pre) t) else None) s"

definition info_between :: "string \<Rightarrow> string \<Rightarrow> storage_object \<Rightarrow> string W" where
  "info_between pre post so =
     seqM (so_check so) (bindM (fread (so_path so @ [''info''])) (\<lambda>info.
       bindM (none_attr ''group'' (between pre post (join '' '' (words info)))) (\<lambda>s. ret (strip s))))"

definition pscsi_model :: "storage_object \<Rightarrow> string W" where
  "pscsi_model = info_between ''Model:'' ''Rev:''"

definition pscsi_vendor :: "storage_object \<Rightarrow> string W" where
  "pscsi_vendor = info_between ''Vendor:'' ''Model:''"

definition pscsi_revision :: "storage_object \<Rightarrow> string option W" where
  "pscsi_revision so = seqM (so_check so) (so_parse_info so ''Rev'')"

definition pscsi_channel_id :: "storage_object \<Rightarrow> int W" where
  "pscsi_channel_id so = checked_info_int so ''Channel ID''"

definition pscsi_target_id :: "storage_object \<Rightarrow> int W" where
  "pscsi_target_id so = checked_info_int so ''Target ID''"

definition pscsi_lun :: "storage_object \<Rightarrow> int W" where
  "pscsi_lun so = checked_info_int so ''LUN''"

definition pscsi_host_id :: "storage_object \<Rightarrow> int W" where
  "pscsi_host_id so = checked_info_int so ''Host ID''"

definition rd_info :: "nat \<Rightarrow> storage_object \<Rightarrow> int W" where
  "rd_info i so =
     seqM (so_check so) (bindM (so_parse_info so ''PAGES/PAGE_SIZE'') (\<lambda>v.
       bindM (none_attr ''split'' v) (\<lambda>s. bindM (lift (idx (split_on (CHR ''*'') s) i)) (\<lambda>t. lift (to_int (PStr t))))))"

definition rd_get_page_size :: "storage_object \<Rightarrow> int W" where
  "rd_get_page_size = rd_info 1"

definition rd_get_pages :: "storage_object \<Rightarrow> int W" where
  "rd_get_pages = rd_info 0"

definition rd_get_size :: "storage_object \<Rightarrow> int W" where
  "rd_get_size so =
     seqM (so_check so) (bindM (rd_get_page_size so) (\<lambda>ps. bindM (rd_get_pages so) (\<lambda>n. ret (ps * n))))"

text \<open>
  The flags that old kernels do not show. The handler is for \<^verbatim>\<open>AttributeError\<close>, but a missing flag is
  \<^verbatim>\<open>int(None)\<close>, a \<^verbatim>\<open>TypeError\<close>.
\<close>

fun is_attributeerror :: "exn \<Rightarrow> bool" where
  "is_attributeerror (AttributeErr _) = True"
| "is_attributeerror _ = False"

definition info_flag :: "string \<Rightarrow> storage_object \<Rightarrow> bool W" where
  "info_flag key so =
     seqM (so_check so)
       (catchM (bindM (info_int so key) (\<lambda>n. ret (n \<noteq> 0)))
          (\<lambda>e. if is_attributeerror e then ret False else raise e))"

definition rd_get_nullio :: "storage_object \<Rightarrow> bool W" where
  "rd_get_nullio = info_flag ''nullio''"

definition get_wb_enabled :: "storage_object \<Rightarrow> bool W" where
  "get_wb_enabled so =
     seqM (so_check so)
       (bindM (get_attribute (so_cls_name (so_cls so)) (so_path so) ''emulate_write_cache'') (\<lambda>s.
          bindM (lift (to_int (PStr s))) (\<lambda>n. ret (n \<noteq> 0))))"

definition fileio_is_block :: "env \<Rightarrow> storage_object \<Rightarrow> bool W" where
  "fileio_is_block K so =
     bindM (so_get_udev_path so) (\<lambda>p. bindM (lift (get_blockdev_type K p)) (\<lambda>t. ret (t \<noteq> None)))"

definition opt_str :: "string option \<Rightarrow> string" where
  "opt_str v = (case v of Some s \<Rightarrow> s | None \<Rightarrow> ''None'')"

definition fileio_get_size :: "env \<Rightarrow> storage_object \<Rightarrow> int W" where
  "fileio_get_size K so =
     seqM (so_check so)
       (bindM (fileio_is_block K so) (\<lambda>b.
          if b then bindM (so_parse_info so ''File'') (\<lambda>f. bindM (get_size_for_blk_dev K (opt_str f)) (\<lambda>n.
            bindM (info_int so ''SectorSize'') (\<lambda>ss. ret (n * ss))))
          else info_int so ''Size''))"

definition fileio_aio :: "storage_object \<Rightarrow> bool W" where
  "fileio_aio so =
     seqM (so_check so)
       (bindM (fread (so_path so @ [''info''])) (\<lambda>info.
          case parse_info ''Async'' info of
            None \<Rightarrow> ret False
          | Some s \<Rightarrow> bindM (lift (to_int (PStr s))) (\<lambda>n. ret (n \<noteq> 0))))"

definition block_major :: "storage_object \<Rightarrow> int W" where
  "block_major so = checked_info_int so ''Major''"

definition block_minor :: "storage_object \<Rightarrow> int W" where
  "block_minor so = checked_info_int so ''Minor''"

definition block_get_size :: "env \<Rightarrow> storage_object \<Rightarrow> int W" where
  "block_get_size K so =
     bindM (so_parse_info so ''device'') (\<lambda>d. bindM (none_attr ''replace'' d) (\<lambda>name.
       bindM (lift (get_size_for_disk_name K name)) (\<lambda>n.
         bindM (info_int so ''SectorSize'') (\<lambda>ss. ret (n * ss)))))"

definition block_readonly :: "storage_object \<Rightarrow> bool W" where
  "block_readonly = info_flag ''readonly''"

definition user_get_size :: "storage_object \<Rightarrow> int W" where
  "user_get_size so = checked_info_int so ''Size''"

definition user_hw_max_sectors :: "storage_object \<Rightarrow> int W" where
  "user_hw_max_sectors so = checked_info_int so ''HwMaxSectors''"

definition control_tuple :: "string \<Rightarrow> string option \<Rightarrow> string list" where
  "control_tuple name val = (if val \<noteq> Some ''NULL'' then [name @ ''='' @ opt_str val] else [])"

definition user_control_tuples :: "storage_object \<Rightarrow> string W" where
  "user_control_tuples so =
     seqM (so_check so)
       (bindM (so_parse_info so ''MaxDataAreaMB'') (\<lambda>a.
        bindM (get_attribute (so_cls_name (so_cls so)) (so_path so) ''hw_block_size'') (\<lambda>b.
        bindM (so_parse_info so ''DataPagesPerBlk'') (\<lambda>c.
          ret (join '','' (control_tuple ''max_data_area_mb'' a @ control_tuple ''hw_block_size'' (Some b) @
            control_tuple ''data_pages_per_blk'' c))))))"

definition user_config :: "storage_object \<Rightarrow> string option W" where
  "user_config so =
     seqM (so_check so) (bindM (so_parse_info so ''Config'') (\<lambda>v. ret (if v = Some ''NULL'' then None else v)))"

section \<open>Dumps\<close>

definition opt_val :: "string option \<Rightarrow> pyval" where
  "opt_val v = (case v of Some s \<Rightarrow> PStr s | None \<Rightarrow> PNone)"

definition so_base_dump :: "env \<Rightarrow> storage_object \<Rightarrow> pydict W" where
  "so_base_dump K so =
     bindM (node_dump (so_cls_name (so_cls so)) (so_path so)) (\<lambda>d.
     bindM (collect (list_alua_tpgs K so) (\<lambda>a. bindM (Alua_dump a) (\<lambda>x. ret (PDict x)))) (\<lambda>as.
       ret (d @ [(''name'', PStr (so_name so)), (''plugin'', PStr (so_plugin so)), (''alua_tpgs'', PList as)])))"

definition pscsi_dump :: "env \<Rightarrow> storage_object \<Rightarrow> pydict W" where
  "pscsi_dump K so =
     bindM (so_base_dump K so) (\<lambda>d. bindM (so_get_udev_path so) (\<lambda>p. ret (d @ [(''dev'', PStr p)])))"

definition nullio_entry :: "bool \<Rightarrow> pydict" where
  "nullio_entry nullio = (if nullio then [(''nullio'', PBool True)] else [])"

definition rdmcp_dump :: "env \<Rightarrow> storage_object \<Rightarrow> pydict W" where
  "rdmcp_dump K so =
     bindM (so_base_dump K so) (\<lambda>d.
     bindM (so_get_wwn so) (\<lambda>wwn.
     bindM (rd_get_size so) (\<lambda>n.
     bindM (rd_get_nullio so) (\<lambda>nullio.
       ret (d @ [(''wwn'', PStr wwn), (''size'', PInt n)] @ nullio_entry nullio)))))"

definition fileio_dump :: "env \<Rightarrow> storage_object \<Rightarrow> pydict W" where
  "fileio_dump K so =
     bindM (so_base_dump K so) (\<lambda>d.
     bindM (get_wb_enabled so) (\<lambda>wb.
     bindM (so_get_wwn so) (\<lambda>wwn.
     bindM (so_get_udev_path so) (\<lambda>dev.
     bindM (fileio_get_size K so) (\<lambda>n.
     bindM (fileio_aio so) (\<lambda>aio.
       ret (d @ [(''write_back'', PBool wb), (''wwn'', PStr wwn), (''dev'', PStr dev), (''size'', PInt n), (''aio'', PBool aio)])))))))"

definition block_dump :: "env \<Rightarrow> storage_object \<Rightarrow> pydict W" where
  "block_dump K so =
     bindM (so_base_dump K so) (\<lambda>d.
     bindM (get_wb_enabled so) (\<lambda>wb.
     bindM (block_readonly so) (\<lambda>ro.
     bindM (so_get_wwn so) (\<lambda>wwn.
     bindM (so_get_udev_path so) (\<lambda>dev.
       ret (d @ [(''write_back'', PBool wb), (''readonly'', PBool ro), (''wwn'', PStr wwn), (''dev'', PStr dev)]))))))"

definition user_dump :: "env \<Rightarrow> storage_object \<Rightarrow> pydict W" where
  "user_dump K so =
     bindM (so_base_dump K so) (\<lambda>d.
     bindM (so_get_wwn so) (\<lambda>wwn.
     bindM (user_get_size so) (\<lambda>n.
     bindM (user_config so) (\<lambda>config.
     bindM (user_hw_max_sectors so) (\<lambda>hw.
     bindM (user_control_tuples so) (\<lambda>control.
       ret (d @ [(''wwn'', PStr wwn), (''size'', PInt n), (''config'', opt_val config), (''hw_max_sectors'', PInt hw),
                 (''control'', PStr control)])))))))"

definition so_dump :: "env \<Rightarrow> storage_object \<Rightarrow> pydict W" where
  "so_dump K so = (case so_cls so of
      PSCSI \<Rightarrow> pscsi_dump K so | RDMCP \<Rightarrow> rdmcp_dump K so | FileIO \<Rightarrow> fileio_dump K so
    | Block \<Rightarrow> block_dump K so | User \<Rightarrow> user_dump K so)"

section \<open>Construction from a saved dictionary\<close>

text \<open>\<^verbatim>\<open>so_cls(**kwargs)\<close>: the keywords each constructor has; others are a type error.\<close>

definition pscsi_keywords :: "string list" where
  "pscsi_keywords = [''name'', ''dev'', ''index'']"

definition rdmcp_keywords :: "string list" where
  "rdmcp_keywords = [''name'', ''size'', ''wwn'', ''nullio'', ''index'']"

definition fileio_keywords :: "string list" where
  "fileio_keywords = [''name'', ''dev'', ''size'', ''wwn'', ''write_back'', ''aio'', ''index'']"

definition block_keywords :: "string list" where
  "block_keywords = [''name'', ''dev'', ''wwn'', ''readonly'', ''write_back'', ''index'']"

definition user_keywords :: "string list" where
  "user_keywords = [''name'', ''config'', ''size'', ''wwn'', ''hw_max_sectors'', ''control'', ''index'']"

fun ctor_keywords :: "so_class \<Rightarrow> string list" where
  "ctor_keywords PSCSI = pscsi_keywords"
| "ctor_keywords RDMCP = rdmcp_keywords"
| "ctor_keywords FileIO = fileio_keywords"
| "ctor_keywords Block = block_keywords"
| "ctor_keywords User = user_keywords"

lemmas keywords_defs = pscsi_keywords_def rdmcp_keywords_def fileio_keywords_def block_keywords_def user_keywords_def

definition so_from_kwargs :: "env \<Rightarrow> so_class \<Rightarrow> pydict \<Rightarrow> storage_object W" where
  "so_from_kwargs K cls kw =
     (if \<exists>k \<in> fst ` set kw. k \<notin> set (ctor_keywords cls) then raise (TypeErr ''got an unexpected keyword argument'')
      else case map_of kw ''name'' of
        Some (PStr name) \<Rightarrow>
          (let arg = (\<lambda>k d. dict_get kw k d); index = arg ''index'' PNone in
           case cls of
               PSCSI \<Rightarrow> PSCSI_init K name (arg ''dev'' PNone) index
             | RDMCP \<Rightarrow> RDMCP_init K name (arg ''size'' PNone) (arg ''wwn'' PNone) (arg ''nullio'' (PBool False)) index
             | FileIO \<Rightarrow> FileIO_init K name (arg ''dev'' PNone) (arg ''size'' PNone) (arg ''wwn'' PNone) (arg ''write_back'' (PBool False))
                 (arg ''aio'' (PBool False)) index
             | Block \<Rightarrow> Block_init K name (arg ''dev'' PNone) (arg ''wwn'' PNone) (arg ''readonly'' (PBool False)) (arg ''write_back'' (PBool False)) index
             | User \<Rightarrow> User_init K name (arg ''config'' PNone) (arg ''size'' PNone) (arg ''wwn'' PNone)
                 (arg ''hw_max_sectors'' PNone) (arg ''control'' PNone) index)
      | _ \<Rightarrow> raise (TypeErr ''name''))"

section \<open>Removal of the directories\<close>

lemma wp_drop_key [wp]: "wp (drop_key k) Q E w = Q () (w\<lparr>bs_cache := dict_del (bs_cache w) k\<rparr>)"
  by (simp add: drop_key_def wp)

text \<open>Both directories of a storage object and its entry in the cache are gone.\<close>

definition so_gone :: "storage_object \<Rightarrow> world \<Rightarrow> bool" where
  "so_gone so w \<longleftrightarrow> \<not> is_dir (fs w) (so_path so) \<and> \<not> is_dir (fs w) (bs_path (so_backstore so)) \<and>
     map_of (bs_cache w) (bs_lookup_key (so_backstore so)) = None"

context configfs
begin

lemma rmdir_not_dir: "k_rmdir K f p = Inr f' \<Longrightarrow> prefix p q \<Longrightarrow> \<not> is_dir f' q"
  using rmdir_gone [of f p f' q] by (simp add: is_dir_def realpath_def)

lemma so_dirs_removed:
  assumes "prefix (bs_path (so_backstore so)) (so_path so)"
  shows "wp (seqM (node_delete K (so_path so)) (Backstore_delete K (so_backstore so)))
    (\<lambda>_. so_gone so) (\<lambda>_ _. True) w"
  using rmdir_not_dir assms
  by (auto simp: node_delete_def Backstore_delete_def wp rmdir_def so_gone_def split: sum.splits)

lemma so_delete_gone:
  assumes "prefix (bs_path (so_backstore so)) (so_path so)"
  shows "wp (so_delete K so) (\<lambda>_. so_gone so) (\<lambda>_ _. True) w"
  unfolding so_delete_def
  by (rule wp_seq_any, rule wp_seq_any, rule wp_seq_any, rule so_dirs_removed [OF assms])

end

lemma StorageObject_yields:
  "yields (\<lambda>so. so_cls so = cls \<and> so_name so = name \<and> prefix (bs_path (so_backstore so)) (so_path so))
     (StorageObject_init K cls name mode index)"
  unfolding StorageObject_init_def Let_def by (intro yields_rules) simp

section \<open>Properties\<close>

lemma demo_fileio_run:
  obtains so w1 w2 where "StorageObject_init lio FileIO ''d'' ''create'' (PInt 0) world0 = (Ok so, w1)"
    and "so_delete lio so w1 = (Ok (), w2)" and "so_path so = core_dir @ [''fileio_0'', ''d'']"
proof -
  have "case StorageObject_init lio FileIO ''d'' ''create'' (PInt 0) world0 of
      (Ok so, w1) \<Rightarrow> fst (so_delete lio so w1) = Ok () \<and> so_path so = core_dir @ [''fileio_0'', ''d''] | _ \<Rightarrow> False"
    by code_simp
  then show ?thesis
    by (auto split: prod.splits res.splits intro: that simp: prod_eq_iff)
qed

text \<open>
  C6. Deleting a storage object. When \<^verbatim>\<open>StorageObject.delete\<close> returns, the object's directory and its
  adapter directory do not exist and its key is out of the index cache, so that the index can be
  given again; this holds for every object the library's constructors return.
\<close>

theorem so_delete_removes:
  assumes "configfs K" and "StorageObject_init K cls name mode index w0 = (Ok so, w1)"
  shows "wp (so_delete K so)
    (\<lambda>_ w'. \<not> is_dir (fs w') (so_path so) \<and> \<not> is_dir (fs w') (bs_path (so_backstore so)) \<and>
       map_of (bs_cache w') (bs_lookup_key (so_backstore so)) = None)
    (\<lambda>_ _. True) w"
proof -
  have "prefix (bs_path (so_backstore so)) (so_path so)"
    using wpD [OF yields_eq [OF StorageObject_yields] assms(2)] by blast
  from configfs.so_delete_gone [OF assms(1) this, unfolded so_gone_def] show ?thesis .
qed

theorem so_delete_removes_witness:
  "\<exists>so w1 w2. StorageObject_init lio FileIO ''d'' ''create'' (PInt 0) world0 = (Ok so, w1) \<and>
     so_delete lio so w1 = (Ok (), w2) \<and> \<not> is_dir (fs w2) (so_path so)"
proof (rule demo_fileio_run)
  fix so w1 w2
  assume init: "StorageObject_init lio FileIO ''d'' ''create'' (PInt 0) world0 = (Ok so, w1)"
    and del: "so_delete lio so w1 = (Ok (), w2)"
  from wpD [OF so_delete_removes [OF lio_fs.configfs_axioms init] del] init del show ?thesis by blast
qed

text \<open>
  C2. Roll-back of a failed creation. If configuring a new storage object fails, whatever the plugin and the
  error, and the clean-up returns, then the constructor raises the error of the configuration and
  neither the object's directory, nor its adapter directory, nor its cache entry is left.
\<close>

theorem so_create_rollback:
  assumes "configfs K" and "StorageObject_init K cls name ''create'' index w = (Ok so, w1)"
    and "conf so w1 = (Err e, w2)" and "so_delete K so w2 = (Ok (), w3)"
  shows "so_create K cls name index conf w = (Err e, w3) \<and> \<not> is_dir (fs w3) (so_path so) \<and>
    \<not> is_dir (fs w3) (bs_path (so_backstore so)) \<and> map_of (bs_cache w3) (bs_lookup_key (so_backstore so)) = None"
proof -
  have "prefix (bs_path (so_backstore so)) (so_path so)"
    using wpD [OF yields_eq [OF StorageObject_yields] assms(2)] by blast
  then have "so_gone so w3" using wpD [OF configfs.so_delete_gone [OF assms(1)] assms(4)] by blast
  moreover have "so_create K cls name index conf w = (Err e, w3)"
    using assms(2-4) by (simp add: so_create_def bindM_def seqM_def catchM_def raise_def)
  ultimately show ?thesis by (simp add: so_gone_def)
qed

theorem so_create_rollback_witness:
  "\<exists>w3. so_create lio FileIO ''d'' (PInt 0) (\<lambda>so. raise (RTSLibError ''no'')) world0 = (Err (RTSLibError ''no''), w3) \<and>
     \<not> is_dir (fs w3) (core_dir @ [''fileio_0'', ''d''])"
proof (rule demo_fileio_run)
  fix so w1 w2
  assume init: "StorageObject_init lio FileIO ''d'' ''create'' (PInt 0) world0 = (Ok so, w1)"
    and del: "so_delete lio so w1 = (Ok (), w2)" and so: "so_path so = core_dir @ [''fileio_0'', ''d'']"
  have "raise (RTSLibError ''no'') w1 = (Err (RTSLibError ''no''), w1)" by (simp add: raise_def)
  from so_create_rollback [where conf = "\<lambda>so. raise (RTSLibError ''no'')", OF lio_fs.configfs_axioms init this del] so
  show ?thesis by auto
qed

lemma so_base_dump_keys:
  assumes "rw_names (fs w) (so_path so @ [''param'']) = []"
  shows "wp (so_base_dump K so) (\<lambda>d _. fst ` set d \<subseteq> {''attributes'', ''name'', ''plugin'', ''alua_tpgs''} \<and>
      map_of d ''name'' = Some (PStr (so_name so)) \<and> map_of d ''plugin'' = Some (PStr (so_plugin so))) (\<lambda>_ _. True) w"
  unfolding so_base_dump_def
proof (rule wp_bindI [OF node_dump_keys])
  fix d :: pydict and u assume "fst ` set d \<subseteq> {''attributes'', ''parameters''} \<and>
     (rw_names (fs w) (so_path so @ [''param'']) = [] \<longrightarrow> ''parameters'' \<notin> fst ` set d)"
  then have "fst ` set d \<subseteq> {''attributes'', ''parameters''} - {''parameters''}"
    using assms by (simp only: subset_Diff_insert Diff_empty simp_thms)
  then have d: "fst ` set d \<subseteq> {''attributes''}" by (simp add: insert_Diff_if)
  have "''name'' \<notin> {''attributes''}" "''plugin'' \<notin> {''attributes''}" by simp_all
  then have "''name'' \<notin> fst ` set d" "''plugin'' \<notin> fst ` set d" using d by (meson subsetD)+
  then have none: "map_of d ''name'' = None" "map_of d ''plugin'' = None" by (simp_all only: map_of_eq_None_iff not_False_eq_True)
  show "wp (bindM (collect (list_alua_tpgs K so) (\<lambda>a. bindM (Alua_dump a) (\<lambda>x. ret (PDict x)))) (\<lambda>as.
       ret (d @ [(''name'', PStr (so_name so)), (''plugin'', PStr (so_plugin so)), (''alua_tpgs'', PList as)])))
    (\<lambda>d _. fst ` set d \<subseteq> {''attributes'', ''name'', ''plugin'', ''alua_tpgs''} \<and>
      map_of d ''name'' = Some (PStr (so_name so)) \<and> map_of d ''plugin'' = Some (PStr (so_plugin so))) (\<lambda>_ _. True) u"
  proof (rule wp_bind_any, unfold wp_ret, intro conjI)
    fix as
    show "fst ` set (d @ [(''name'', PStr (so_name so)), (''plugin'', PStr (so_plugin so)), (''alua_tpgs'', PList as)])
        \<subseteq> {''attributes'', ''name'', ''plugin'', ''alua_tpgs''}"
      using subset_trans [OF d, of "{''attributes'', ''name'', ''plugin'', ''alua_tpgs''}"] by simp
  qed (simp_all add: map_add_def none)
qed

text \<open>What \<^verbatim>\<open>restore\<close> removes from a saved storage object before it calls the constructor.\<close>

definition restore_removes :: "string list" where
  "restore_removes = [''exists'', ''attributes'', ''plugin'', ''buffered_mode'', ''alua_tpgs'']"

definition dump_ok :: "storage_object \<Rightarrow> pydict \<Rightarrow> bool" where
  "dump_ok so d \<longleftrightarrow> (\<forall>k \<in> fst ` set (dict_remove d restore_removes). k \<in> set (ctor_keywords (so_cls so))) \<and>
     map_of d ''name'' = Some (PStr (so_name so)) \<and> map_of d ''plugin'' = Some (PStr (so_plugin so))"

lemma dump_ok_extend:
  assumes "fst ` set d \<subseteq> {''attributes'', ''name'', ''plugin'', ''alua_tpgs''}"
    and "map_of d ''name'' = Some (PStr (so_name so))" "map_of d ''plugin'' = Some (PStr (so_plugin so))"
    and "fst ` set e \<subseteq> set (ctor_keywords (so_cls so))"
  shows "dump_ok so (d @ e)"
proof -
  have "{''attributes'', ''name'', ''plugin'', ''alua_tpgs''} - set restore_removes = {''name''}"
    by (simp add: restore_removes_def insert_Diff_if)
  moreover have "''name'' \<in> set (ctor_keywords (so_cls so))" by (cases "so_cls so") (simp_all add: keywords_defs)
  ultimately have "fst ` set d - set restore_removes \<subseteq> set (ctor_keywords (so_cls so))"
    using Diff_mono [OF assms(1) subset_refl, of "set restore_removes"] by (simp only: subset_trans [OF _ insert_subsetI [OF _ empty_subsetI]])
  then have "fst ` set (d @ e) - set restore_removes \<subseteq> set (ctor_keywords (so_cls so))"
    using assms(4) by (simp add: image_Un Un_Diff) blast
  then show ?thesis
    unfolding dump_ok_def keys_dict_remove using assms(2,3) by (simp add: subset_iff)
qed

lemma nullio_entry_keys: "fst ` set (nullio_entry b) = (if b then {''nullio''} else {})"
  by (cases b) (simp_all add: nullio_entry_def)

lemma dump_extends:
  assumes "rw_names (fs w) (so_path so @ [''param'']) = []"
    and "\<And>d s. wp (rest d) (\<lambda>e _. \<exists>x. e = d @ x \<and> fst ` set x \<subseteq> set (ctor_keywords (so_cls so))) (\<lambda>_ _. True) s"
  shows "wp (bindM (so_base_dump K so) rest) (\<lambda>d _. dump_ok so d) (\<lambda>_ _. True) w"
  by (rule wp_bindI [OF so_base_dump_keys [OF assms(1)]], rule wp_mono [OF assms(2)])
    (auto intro: dump_ok_extend)

text \<open>
  C30. Dumps can be restored. For every plugin, the dictionary \<^verbatim>\<open>dump\<close> gives has, after the keys \<^verbatim>\<open>restore\<close>
  removes, only keyword arguments of that plugin's constructor, and it has the object's name and plugin,
  so that \<^verbatim>\<open>restore\<close> finds the class and never fails on an unexpected keyword.
\<close>

theorem so_dump_accepted:
  assumes "rw_names (fs w) (so_path so @ [''param'']) = []" and "so_plugin so = fst (bs_params (so_cls so))"
  shows "wp (so_dump K so)
    (\<lambda>d _. (\<forall>k \<in> fst ` set (dict_remove d restore_removes). k \<in> set (ctor_keywords (so_cls so))) \<and>
       map_of d ''name'' = Some (PStr (so_name so)) \<and> map_of d ''plugin'' = Some (PStr (so_plugin so)) \<and>
       map_of so_mapping (so_plugin so) = Some (so_cls so))
    (\<lambda>_ _. True) w"
proof -
  have cls: "map_of so_mapping (so_plugin so) = Some (so_cls so)"
    unfolding assms(2) by (cases "so_cls so") (simp_all add: so_mapping_def)
  have "wp (so_dump K so) (\<lambda>d _. dump_ok so d) (\<lambda>_ _. True) w"
    by (cases "so_cls so"; simp only: so_dump_def pscsi_dump_def rdmcp_dump_def fileio_dump_def block_dump_def
          user_dump_def so_class.case; rule dump_extends [OF assms(1)]; intro wp_bind_any; unfold wp_ret; rule exI; rule conjI [OF refl];
        simp add: nullio_entry_keys keywords_defs)
  then show ?thesis by (rule wp_mono) (use cls in \<open>auto simp: dump_ok_def\<close>)
qed

definition demo_pscsi :: storage_object where
  "demo_pscsi = \<lparr>so_cls = PSCSI, so_name = ''p'',
     so_backstore = \<lparr>bs_cls = PSCSI, bs_index = 0, bs_path = core_dir @ [''pscsi_0''], bs_lookup_key = ''pscsi/p''\<rparr>,
     so_path = core_dir @ [''pscsi_0'', ''p''], so_plugin = ''pscsi''\<rparr>"

definition demo_pscsi_world :: world where
  "demo_pscsi_world = world0\<lparr>fs := [(so_path demo_pscsi, Dir), (so_path demo_pscsi @ [''alua''], Dir),
     (so_path demo_pscsi @ [''udev_path''], File 420 (Inr ''/dev/sda''))]\<rparr>"

theorem so_dump_accepted_witness:
  "\<exists>d. fst (so_dump lio demo_pscsi demo_pscsi_world) = Ok d \<and>
     (\<forall>k \<in> fst ` set (dict_remove d restore_removes). k \<in> set (ctor_keywords PSCSI)) \<and>
     map_of so_mapping ''pscsi'' = Some PSCSI"
proof -
  have "case fst (so_dump lio demo_pscsi demo_pscsi_world) of Ok d \<Rightarrow> True | Err e \<Rightarrow> False" by code_simp
  moreover have "rw_names (fs demo_pscsi_world) (so_path demo_pscsi @ [''param'']) = []" by code_simp
  moreover have "so_plugin demo_pscsi = fst (bs_params (so_cls demo_pscsi))" "so_cls demo_pscsi = PSCSI"
      "so_plugin demo_pscsi = ''pscsi''"
    by code_simp+
  ultimately show ?thesis
    using so_dump_accepted [of demo_pscsi_world demo_pscsi lio]
    by (auto simp: wp_def split: prod.splits res.splits)
qed

lemma round_div_near:
  assumes b: "0 < b"
  shows "\<bar>2 * (round_div n b * b - n)\<bar> \<le> b \<and> (\<bar>2 * (round_div n b * b - n)\<bar> = b \<longrightarrow> even (round_div n b))"
proof -
  obtain q r where qr: "n div b = q" "n mod b = r" by blast
  have n: "n = q * b + r" unfolding qr [symmetric] by simp
  have r: "0 \<le> r" "r < b" using b qr(2) by auto
  have succ: "(q + 1) * b = q * b + b" by (simp add: distrib_right)
  consider "2 * r < b" | "2 * r > b" | "2 * r = b" "even q" | "2 * r = b" "odd q" by linarith
  then show ?thesis
  proof cases
    case 1
    then have "round_div n b = q" by (simp add: round_div_def qr)
    moreover have "q * b - n = - r" using n by simp
    then have "\<bar>2 * (q * b - n)\<bar> < b" using 1 r by simp
    ultimately show ?thesis by simp
  next
    case 2
    then have "round_div n b = q + 1" by (simp add: round_div_def qr)
    moreover have "(q + 1) * b - n = b - r" using n succ by simp
    then have "\<bar>2 * ((q + 1) * b - n)\<bar> < b" using 2 r by simp
    ultimately show ?thesis by simp
  next
    case 3
    then have "round_div n b = q" by (simp add: round_div_def qr)
    moreover have "q * b - n = - r" using n by simp
    then have "\<bar>2 * (q * b - n)\<bar> \<le> b" using 3 r by simp
    ultimately show ?thesis using 3 by simp
  next
    case 4
    then have "round_div n b = q + 1" by (simp add: round_div_def qr)
    moreover have "(q + 1) * b - n = b - r" using n succ by simp
    then have "\<bar>2 * ((q + 1) * b - n)\<bar> \<le> b" using 4 r by simp
    ultimately show ?thesis using 4 by simp
  qed
qed

text \<open>
  The size of a ramdisk. The number of pages asked of the kernel is at least one and, for a size of more
  than half a page, within half a page of the size; of two equally near numbers it is the even one.
\<close>

theorem rd_pages_nearest:
  assumes "0 < k_pagesize K" and "0 \<le> n" and "0 < d"
  shows "1 \<le> rd_pages K (n, d) \<and>
    (d * k_pagesize K < 2 * n \<longrightarrow> \<bar>2 * (rd_pages K (n, d) * (d * k_pagesize K) - n)\<bar> \<le> d * k_pagesize K \<and>
       (\<bar>2 * (rd_pages K (n, d) * (d * k_pagesize K) - n)\<bar> = d * k_pagesize K \<longrightarrow> even (rd_pages K (n, d))))"
proof (cases "round_div n (d * k_pagesize K) = 0")
  case True
  then show ?thesis using round_div_near [of "d * k_pagesize K" n] assms by (simp add: rd_pages_def)
next
  case False
  have "0 \<le> round_div n (d * k_pagesize K)"
    using assms by (auto simp: round_div_def Let_def pos_imp_zdiv_nonneg_iff)
  with False show ?thesis using round_div_near [of "d * k_pagesize K" n] assms by (simp add: rd_pages_def)
qed

theorem rd_pages_nearest_witness: "rd_pages lio (1000000, 1) = 244 \<and> rd_pages lio (1, 1) = 1"
proof -
  have p: "k_pagesize lio = 4096" by (simp add: lio_def)
  obtain m where m: "rd_pages lio (1000000, 1) = m" by blast
  have near: "\<bar>2 * (m * 4096 - 1000000)\<bar> \<le> 4096"
    using rd_pages_nearest [of lio 1000000 1] unfolding p m by simp
  have "m < 245" using abs_le_D1 [OF near] by simp
  moreover have "243 < m" using abs_le_D2 [OF near] by simp
  moreover have "rd_pages lio (1, 1) = 1" by code_simp
  ultimately show ?thesis using m by simp
qed

definition plain_line :: "string \<Rightarrow> bool" where
  "plain_line l = (\<not> startswith l ''PR_REG_START:'' \<and> \<not> startswith l ''PR_REG_END:'' \<and> strip l = l)"

lemma aptpl_scan_block:
  assumes "\<forall>l \<in> set b. plain_line l"
  shows "aptpl_scan (b @ rest) (accs @ [acc]) rc = aptpl_scan rest (accs @ [acc @ b]) rc"
  using assms
proof (induction b arbitrary: acc)
  case (Cons l b)
  then have "aptpl_scan ((l # b) @ rest) (accs @ [acc]) rc = aptpl_scan (b @ rest) (accs @ [acc @ [l]]) rc"
    by (simp add: plain_line_def)
  with Cons show ?case by simp
qed simp

text \<open>
  Persistent reservations. A file of blocks, each between its start and its end line, gives back
  exactly the lines of each block, in order, as the reservations that are written to the kernel.
\<close>

theorem aptpl_blocks:
  assumes "\<forall>b \<in> set blocks. \<forall>l \<in> set b. plain_line l"
    and "startswith s ''PR_REG_START:''" and "startswith e ''PR_REG_END:''" and "\<not> startswith e ''PR_REG_START:''"
  shows "aptpl_reservations (concat (map (\<lambda>b. s # b @ [e]) blocks)) = blocks"
proof -
  have "aptpl_scan (concat (map (\<lambda>b. s # b @ [e]) blocks)) done (map nat [0..int (length done) - 1]) =
      (done @ blocks, map nat [0..int (length (done @ blocks)) - 1])" for "done" :: "string list list"
    using assms(1)
  proof (induction blocks arbitrary: "done")
    case (Cons b bs)
    have "aptpl_scan (concat (map (\<lambda>b. s # b @ [e]) (b # bs))) done rc =
        aptpl_scan (concat (map (\<lambda>b. s # b @ [e]) bs)) (done @ [b]) (rc @ [length done])" for rc
      using assms(2-4) aptpl_scan_block [of b "e # concat (map (\<lambda>b. s # b @ [e]) bs)" "done" "[]" rc] Cons.prems
      by simp
    moreover have "map nat [0..int (length done) - 1] @ [length done] = map nat [0..int (length (done @ [b])) - 1]"
      by (simp add: upto_rec2)
    ultimately show ?case using Cons.IH [of "done @ [b]"] Cons.prems by simp
  qed simp
  from this [of "[]"] have scan: "aptpl_scan (concat (map (\<lambda>b. s # b @ [e]) blocks)) [] [] =
      (blocks, map nat [0..int (length blocks) - 1])" by simp
  have "map (\<lambda>i. blocks ! i) (map nat [0..int (length blocks) - 1]) = blocks"
    by (rule nth_equalityI) auto
  with scan show ?thesis by (simp add: aptpl_reservations_def)
qed

theorem aptpl_blocks_witness:
  "aptpl_reservations [''PR_REG_START:0'', ''initiator=a'', ''sa_res_key=1'', ''PR_REG_END:0'',
     ''PR_REG_START:0'', ''initiator=b'', ''PR_REG_END:0''] = [[''initiator=a'', ''sa_res_key=1''], [''initiator=b'']]"
proof -
  have "\<forall>b \<in> set [[''initiator=a'', ''sa_res_key=1''], [''initiator=b'']]. \<forall>l \<in> set b. plain_line l"
    "startswith ''PR_REG_START:0'' ''PR_REG_START:''" "startswith ''PR_REG_END:0'' ''PR_REG_END:''"
    "\<not> startswith ''PR_REG_END:0'' ''PR_REG_START:''"
    by code_simp+
  from aptpl_blocks [OF this] show ?thesis by simp
qed

end
