(* ===== verification/TargetSetup.thy ===== *)
theory TargetSetup
  imports Tcm
begin

text \<open>
  \<^verbatim>\<open>target.py\<close>, the saved form of a target: \<^verbatim>\<open>dump\<close> and \<^verbatim>\<open>setup\<close> of targets, portal groups, LUNs,
  portals, node ACLs and mapped LUNs, the ALUA accessors of a LUN, and the sessions of a node ACL. A
  \<^verbatim>\<open>setup\<close> gets the dictionary of its object, as the caller finds it in the configuration; the
  dictionaries are local to the restore, so that their removal of keys (\<^verbatim>\<open>dict_remove\<close>) is a new value.
\<close>

section \<open>ALUA of a LUN\<close>

text \<open>The getters give \<^verbatim>\<open>None\<close> and the setters -1 where the storage object has no ALUA or a file cannot be used.\<close>

definition get_alua_tg_pt_gp_name :: "env \<Rightarrow> lun \<Rightarrow> string option W" where
  "get_alua_tg_pt_gp_name K l =
     seqM (lun_check l)
       (bindM (get_storage_object K l) (\<lambda>so. bindM (alua_supported so) (\<lambda>sup.
          if \<not> sup then ret None
          else catchM
            (bindM (fread (lun_path l @ [''alua_tg_pt_gp''])) (\<lambda>info.
               if info = '''' then ret None
               else bindM (lift (idx (splitlines info) 0)) (\<lambda>group_line.
                 bindM (lift (idx (split_on (CHR '':'') group_line) 1)) (\<lambda>name. ret (Some (strip name))))))
            (\<lambda>e. if is_oserror e then ret None else raise e))))"

definition set_alua_tg_pt_gp_name :: "env \<Rightarrow> lun \<Rightarrow> pyval \<Rightarrow> int W" where
  "set_alua_tg_pt_gp_name K l group_name =
     seqM (lun_check l)
       (bindM (get_alua_tg_pt_gp_name K l) (\<lambda>cur.
          if cur = None \<or> cur = Some '''' then ret (- 1)
          else try_else (fwrite K (lun_path l @ [''alua_tg_pt_gp'']) (py_str group_name))
            (\<lambda>e. if is_oserror e then ret (- 1) else raise e) (\<lambda>_. ret 0)))"

text \<open>The three secondary ALUA files share one shape: a number, where the kernel has the file.\<close>

definition lun_get_alua_file :: "env \<Rightarrow> string \<Rightarrow> lun \<Rightarrow> int option W" where
  "lun_get_alua_file K file l =
     seqM (lun_check l)
       (bindM (get_storage_object K l) (\<lambda>so. bindM (alua_supported so) (\<lambda>sup.
          if \<not> sup then ret None
          else catchM
            (bindM (is_fileM (lun_path l @ [file])) (\<lambda>f.
               if f then bindM (fread (lun_path l @ [file])) (\<lambda>s. bindM (lift (to_int (PStr s))) (\<lambda>n. ret (Some n)))
               else ret None))
            (\<lambda>e. if is_oserror e then ret None else raise e))))"

definition lun_set_alua_file :: "env \<Rightarrow> string \<Rightarrow> lun \<Rightarrow> string \<Rightarrow> int W" where
  "lun_set_alua_file K file l text =
     bindM (get_storage_object K l) (\<lambda>so. bindM (alua_supported so) (\<lambda>sup.
       if \<not> sup then ret (- 1)
       else try_else
         (bindM (is_fileM (lun_path l @ [file])) (\<lambda>f. whenM f (fwrite K (lun_path l @ [file]) text)))
         (\<lambda>e. if is_oserror e then ret (- 1) else raise e) (\<lambda>_. ret 0)))"

definition get_alua_tg_pt_offline :: "env \<Rightarrow> lun \<Rightarrow> bool option W" where
  "get_alua_tg_pt_offline K l =
     bindM (lun_get_alua_file K ''alua_tg_pt_offline'' l) (\<lambda>n. ret (map_option (\<lambda>i. i \<noteq> 0) n))"

definition set_alua_tg_pt_offline :: "env \<Rightarrow> lun \<Rightarrow> pyval \<Rightarrow> int W" where
  "set_alua_tg_pt_offline K l boolean =
     seqM (lun_check l) (lun_set_alua_file K ''alua_tg_pt_offline'' l (if truthy boolean then ''1'' else ''0''))"

definition get_alua_tg_pt_status :: "env \<Rightarrow> lun \<Rightarrow> int option W" where
  "get_alua_tg_pt_status K l = lun_get_alua_file K ''alua_tg_pt_status'' l"

definition set_alua_tg_pt_status :: "env \<Rightarrow> lun \<Rightarrow> pyval \<Rightarrow> int W" where
  "set_alua_tg_pt_status K l integer =
     seqM (lun_check l)
       (if \<not> (py_eq_int integer 0 \<or> py_eq_int integer 1 \<or> py_eq_int integer 2) then ret (- 1)
        else lun_set_alua_file K ''alua_tg_pt_status'' l (py_str integer))"

definition get_alua_tg_pt_write_md :: "env \<Rightarrow> lun \<Rightarrow> bool option W" where
  "get_alua_tg_pt_write_md K l =
     bindM (lun_get_alua_file K ''alua_tg_pt_write_md'' l) (\<lambda>n. ret (map_option (\<lambda>i. i \<noteq> 0) n))"

definition set_alua_tg_pt_write_md :: "env \<Rightarrow> lun \<Rightarrow> pyval \<Rightarrow> int W" where
  "set_alua_tg_pt_write_md K l boolean =
     seqM (lun_check l) (lun_set_alua_file K ''alua_tg_pt_write_md'' l (if truthy boolean then ''1'' else ''0''))"

section \<open>Sessions\<close>

record connection =
  cn_cid :: int
  cn_cstate :: string
  cn_address :: "string option"
  cn_transport :: "string option"

text \<open>The dictionary of a session: a key that has not been set is absent.\<close>

record session =
  se_parent_nodeacl :: "node_acl option"
  se_connections :: "connection list option"
  se_alias :: "string option"
  se_id :: "int option"
  se_type :: "string option"
  se_state :: "string option"

definition empty_session :: session where
  "empty_session = \<lparr>se_parent_nodeacl = None, se_connections = None, se_alias = None, se_id = None,
     se_type = None, se_state = None\<rparr>"

text \<open>\<^verbatim>\<open>line.split(":")[1]\<close>, \<^verbatim>\<open>line.split("_STATE_")[1].split()[0]\<close> and their like.\<close>

definition second_field :: "string \<Rightarrow> exn + string" where
  "second_field line = idx (split_on (CHR '':'') line) 1"

definition word_after :: "string \<Rightarrow> string \<Rightarrow> exn + string" where
  "word_after sep line = (case idx (split_str sep line) 1 of Inl e \<Rightarrow> Inl e | Inr s \<Rightarrow> idx (words s) 0)"

definition number_field :: "string \<Rightarrow> exn + int" where
  "number_field line = (case second_field line of
      Inl e \<Rightarrow> Inl e
    | Inr s \<Rightarrow> (case idx (words s) 0 of Inl e \<Rightarrow> Inl e | Inr n \<Rightarrow> to_int (PStr n)))"

text \<open>\<^verbatim>\<open>sub in line\<close>.\<close>

definition contains :: "string \<Rightarrow> string \<Rightarrow> bool" where
  "contains sub line = (\<exists>i \<in> set [0..<Suc (length line)]. startswith (drop i line) sub)"

definition session_line :: "node_acl \<Rightarrow> string \<Rightarrow> session \<Rightarrow> exn + session" where
  "session_line na line s =
     (if startswith line ''InitiatorName:''
      then Inr (s\<lparr>se_parent_nodeacl := Some na, se_connections := Some []\<rparr>)
      else if startswith line ''InitiatorAlias:''
      then map_sum id (\<lambda>x. s\<lparr>se_alias := Some (strip x)\<rparr>) (second_field line)
      else if startswith line ''LIO Session ID:''
      then (case number_field line of
              Inl e \<Rightarrow> Inl e
            | Inr i \<Rightarrow> map_sum id (\<lambda>t. s\<lparr>se_id := Some i, se_type := Some (strip t)\<rparr>) (word_after ''SessionType:'' line))
      else if contains ''TARG_SESS_STATE_'' line
      then map_sum id (\<lambda>x. s\<lparr>se_state := Some x\<rparr>) (word_after ''_STATE_'' line)
      else if contains ''TARG_CONN_STATE_'' line
      then (case number_field line of
              Inl e \<Rightarrow> Inl e
            | Inr cid \<Rightarrow> (case word_after ''_STATE_'' line of
                Inl e \<Rightarrow> Inl e
              | Inr cstate \<Rightarrow> (case se_connections s of
                  None \<Rightarrow> Inl (KeyErr ''connections'')
                | Some cs \<Rightarrow> Inr (s\<lparr>se_connections :=
                    Some (cs @ [\<lparr>cn_cid = cid, cn_cstate = cstate, cn_address = None, cn_transport = None\<rparr>])\<rparr>))))
      else if contains ''Address'' line
      then (case idx (words line) 1 of
              Inl e \<Rightarrow> Inl e
            | Inr address \<Rightarrow> (case se_connections s of
                None \<Rightarrow> Inl (KeyErr ''connections'')
              | Some cs \<Rightarrow>
                  if cs = [] then Inl (IndexErr ''list index out of range'')
                  else map_sum id (\<lambda>transport. s\<lparr>se_connections := Some (butlast cs @
                           [(last cs)\<lparr>cn_address := Some address, cn_transport := Some transport\<rparr>])\<rparr>)
                         (idx (words line) 2)))
      else Inr s)"

fun session_lines :: "node_acl \<Rightarrow> string list \<Rightarrow> session \<Rightarrow> exn + session" where
  "session_lines na [] s = Inr s"
| "session_lines na (line # lines) s =
     (case session_line na line s of Inl e \<Rightarrow> Inl e | Inr s' \<Rightarrow> session_lines na lines s')"

definition get_session :: "node_acl \<Rightarrow> session option W" where
  "get_session na =
     try_else (bindM (fread (na_path na @ [''info''])) (\<lambda>s. ret (splitlines s)))
       (\<lambda>e. if is_oserror e then ret None else raise e)
       (\<lambda>lines. bindM (lift (idx lines 0)) (\<lambda>first.
          if startswith first ''No active'' then ret None
          else bindM (lift (session_lines na lines empty_session)) (\<lambda>s. ret (Some s))))"

text \<open>The truth value of the dictionary: has any key been set?\<close>

definition session_truthy :: "session option \<Rightarrow> bool" where
  "session_truthy s = (s \<noteq> None \<and> s \<noteq> Some empty_session)"

section \<open>Dumps\<close>

definition auth_params :: "string list" where
  "auth_params = [''userid'', ''password'', ''mutual_userid'', ''mutual_password'']"

text \<open>The file of the property \<^verbatim>\<open>chap_<attr>\<close> of portal groups and node ACLs.\<close>

definition chap_file :: "string \<Rightarrow> string option" where
  "chap_file attr = map_of [(''userid'', ''auth/userid''), (''password'', ''auth/password''),
     (''mutual_userid'', ''auth/userid_mutual''), (''mutual_password'', ''auth/password_mutual'')] attr"

text \<open>\<^verbatim>\<open>getattr(self, "chap_" + attr, None)\<close> for each attribute; an empty value is left out.\<close>

definition dump_chap :: "(string \<Rightarrow> string option W) \<Rightarrow> pydict W" where
  "dump_chap get =
     bindM (collect (iter auth_params) (\<lambda>attr.
       case chap_file attr of
         None \<Rightarrow> ret []
       | Some file \<Rightarrow> bindM (get file) (\<lambda>val. ret (dump_attr (''chap_'' @ attr) val))))
     (\<lambda>entries. ret (concat entries))"

definition MappedLUN_dump :: "env \<Rightarrow> mapped_lun \<Rightarrow> pydict W" where
  "MappedLUN_dump K ml =
     bindM (node_dump ''MappedLUN'' (ml_path ml)) (\<lambda>d.
     bindM (get_write_protect ml) (\<lambda>w.
     bindM (get_tpg_lun K ml) (\<lambda>l.
     bindM (ml_alias ml) (\<lambda>alias.
       ret (d @ [(''write_protect'', PBool w), (''index'', PInt (ml_lun ml)), (''tpg_lun'', PInt (lun_lun l)),
                 (''alias'', PStr alias)])))))"

definition NodeACL_dump :: "env \<Rightarrow> node_acl \<Rightarrow> pydict W" where
  "NodeACL_dump K na =
     bindM (node_dump ''NodeACL'' (na_path na)) (\<lambda>d.
     bindM (collect (na_list_mapped_luns K na) (\<lambda>ml. bindM (MappedLUN_dump K ml) (\<lambda>x. ret (PDict x)))) (\<lambda>mls.
     bindM (get_tag na) (\<lambda>tag.
     bindM (if tag \<noteq> None \<and> tag \<noteq> Some '''' then bindM (get_tag na) (\<lambda>t. ret [(''tag'', opt_val t)]) else ret []) (\<lambda>t.
     bindM (if na_has_feature na ''auth'' then dump_chap (na_get_auth na) else ret []) (\<lambda>chap.
       ret (d @ [(''node_wwn'', PStr (na_wwn na)), (''mapped_luns'', PList mls)] @ t @ chap))))))"

definition NetworkPortal_dump :: "portal \<Rightarrow> pydict W" where
  "NetworkPortal_dump np =
     bindM (node_dump ''NetworkPortal'' (np_path np)) (\<lambda>d.
     bindM (get_iser np) (\<lambda>iser.
     bindM (get_offload np) (\<lambda>offload.
       ret (d @ [(''port'', PInt (np_port np)), (''ip_address'', PStr (np_ip_address np)),
                 (''iser'', PBool iser), (''offload'', PBool offload)]))))"

definition LUN_dump :: "env \<Rightarrow> lun \<Rightarrow> pydict W" where
  "LUN_dump K l =
     bindM (node_dump ''LUN'' (lun_path l)) (\<lambda>d.
     bindM (get_storage_object K l) (\<lambda>so.
     bindM (get_storage_object K l) (\<lambda>so'.
     bindM (lun_alias l) (\<lambda>alias.
     bindM (get_alua_tg_pt_gp_name K l) (\<lambda>gp.
       ret (d @ [(''storage_object'', PStr (''/backstores/'' @ so_plugin so @ ''/'' @ so_name so')),
                 (''index'', PInt (lun_lun l)), (''alias'', PStr alias), (''alua_tg_pt_gp_name'', opt_val gp)]))))))"

definition TPG_dump :: "env \<Rightarrow> tpg \<Rightarrow> pydict W" where
  "TPG_dump K g =
     bindM (node_dump ''TPG'' (tpg_path g)) (\<lambda>d.
     bindM (get_enable g) (\<lambda>en.
     bindM (collect (list_luns K g) (\<lambda>l. bindM (LUN_dump K l) (\<lambda>x. ret (PDict x)))) (\<lambda>luns.
     bindM (collect (list_network_portals K g) (\<lambda>np. bindM (NetworkPortal_dump np) (\<lambda>x. ret (PDict x)))) (\<lambda>nps.
     bindM (collect (list_node_acls K g) (\<lambda>na. bindM (NodeACL_dump K na) (\<lambda>x. ret (PDict x)))) (\<lambda>acls.
     bindM (if tpg_has_feature g ''auth'' then dump_chap (tpg_get_auth g) else ret []) (\<lambda>chap.
       ret (d @ [(''tag'', PInt (tpg_tag g)), (''enable'', PBool en), (''luns'', PList luns),
                 (''portals'', PList nps), (''node_acls'', PList acls)] @ chap)))))))"

definition Target_dump :: "env \<Rightarrow> target \<Rightarrow> pydict W" where
  "Target_dump K t =
     bindM (node_dump ''Target'' (tgt_path t)) (\<lambda>d.
     bindM (collect (list_tpgs K t) (\<lambda>g. bindM (TPG_dump K g) (\<lambda>x. ret (PDict x)))) (\<lambda>tpgs.
       ret (d @ [(''wwn'', PStr (tgt_wwn t)), (''fabric'', PStr (fm_name (tgt_fm t))), (''tpgs'', PList tpgs)])))"

section \<open>Setting up from a saved dictionary\<close>

text \<open>
  The elements of a list in the dictionary, each with its own dictionary; an element that is no
  dictionary fails at the first access to a key.
\<close>

definition for_dicts :: "pyval \<Rightarrow> (pydict \<Rightarrow> unit W) \<Rightarrow> unit W" where
  "for_dicts v body =
     bindM (lift (py_elems v)) (\<lambda>xs. for_each (iter xs) (\<lambda>x. bindM (lift (py_items x)) body))"

text \<open>\<^verbatim>\<open>set_attributes(obj, d.get('attributes', {}), err_func)\<close>, and the same for the parameters.\<close>

definition setup_attributes :: "env \<Rightarrow> string \<Rightarrow> path \<Rightarrow> pydict \<Rightarrow> (string \<Rightarrow> unit W) \<Rightarrow> unit W" where
  "setup_attributes K cls p d err_func =
     bindM (lift (py_items (dict_get d ''attributes'' (PDict [])))) (\<lambda>attrs.
       set_attributes K (set_attribute K cls p) attrs err_func)"

definition setup_parameters :: "env \<Rightarrow> string \<Rightarrow> path \<Rightarrow> pydict \<Rightarrow> (string \<Rightarrow> unit W) \<Rightarrow> unit W" where
  "setup_parameters K cls p d err_func =
     bindM (lift (py_items (dict_get d ''parameters'' (PDict [])))) (\<lambda>params.
       set_parameters K (set_parameter K cls p) params err_func)"

text \<open>\<^verbatim>\<open>except (RTSLibError, KeyError)\<close>.\<close>

definition setup_error :: "exn \<Rightarrow> bool" where
  "setup_error e = (is_rtslib_error e \<or> is_keyerror e)"

definition so_field :: "pydict \<Rightarrow> (string \<times> string) option" where
  "so_field lun = (case map_of lun ''storage_object'' of
      Some (PStr s) \<Rightarrow> (case drop 2 (split_on (CHR ''/'') s) of [bs, so] \<Rightarrow> Some (bs, so) | _ \<Rightarrow> None)
    | _ \<Rightarrow> None)"

text \<open>
  After a failed creation \<^verbatim>\<open>lun_obj\<close> is not bound: the assignment of the ALUA group, when the
  dictionary names one, raises \<^verbatim>\<open>UnboundLocalError\<close>.
\<close>

definition LUN_setup :: "env \<Rightarrow> tpg \<Rightarrow> pydict \<Rightarrow> (string \<Rightarrow> unit W) \<Rightarrow> unit W" where
  "LUN_setup K g lun err_func =
     (case map_of lun ''index'' of
        None \<Rightarrow> err_func ([CHR 0x27] @ ''index'' @ [CHR 0x27] @ '' missing from a LUN in TPG '' @ str_of_int (tpg_tag g))
      | Some index \<Rightarrow>
     (case so_field lun of
        None \<Rightarrow> bindM (lift (fmt_d index)) (\<lambda>i. err_func (''Malformed storage object field for LUN '' @ i))
      | Some (bs_name, name) \<Rightarrow>
     bindM (find_first (so_all K) (\<lambda>so. ret (so_name so = name \<and> so_plugin so = bs_name))) (\<lambda>found.
       case found of
         None \<Rightarrow> bindM (lift (fmt_d index)) (\<lambda>i. err_func (''Could not find matching StorageObject for LUN '' @ i))
       | Some match_so \<Rightarrow>
     bindM (catchM (bindM (LUN_init K g index (Some match_so) (dict_get lun ''alias'' PNone)) (\<lambda>l. ret (Some l)))
              (\<lambda>e. if setup_error e
                   then bindM (lift (fmt_d index)) (\<lambda>i.
                     seqM (err_func (''Creating TPG '' @ str_of_int (tpg_tag g) @ '' LUN index '' @ i @ '' failed'')) (ret None))
                   else raise e)) (\<lambda>lun_obj.
     ignored is_keyerror
       (bindM (the_or (KeyErr ''alua_tg_pt_gp_name'') (map_of lun ''alua_tg_pt_gp_name'')) (\<lambda>gp.
        bindM (the_or (UnboundLocalErr ''lun_obj'') lun_obj) (\<lambda>l.
        bindM (set_alua_tg_pt_gp_name K l gp) (\<lambda>_. ret ()))))))))"

definition NetworkPortal_setup :: "env \<Rightarrow> tpg \<Rightarrow> pydict \<Rightarrow> (string \<Rightarrow> unit W) \<Rightarrow> unit W" where
  "NetworkPortal_setup K g p err_func =
     (case map_of p ''ip_address'' of
        None \<Rightarrow> err_func ([CHR 0x27] @ ''ip_address'' @ [CHR 0x27] @ '' field missing from a portal in TPG '' @ str_of_int (tpg_tag g))
      | Some ip_address \<Rightarrow>
     (case map_of p ''port'' of
        None \<Rightarrow> err_func ([CHR 0x27] @ ''port'' @ [CHR 0x27] @ '' field missing from a portal in TPG '' @ str_of_int (tpg_tag g))
      | Some port \<Rightarrow>
     catchM (bindM (NetworkPortal_init K g ip_address port ''any'') (\<lambda>np.
               seqM (set_iser K np (dict_get p ''iser'' (PBool False)))
                 (set_offload K np (dict_get p ''offload'' (PBool False)))))
       (\<lambda>e. if setup_error e
            then err_func (''Creating NetworkPortal object '' @ py_str ip_address @ '':'' @ py_str port @
                   '' failed: '' @ exn_str K e)
            else raise e)))"

text \<open>The attribute \<^verbatim>\<open>tag\<close> that is set at the end is one of the Python object only.\<close>

definition MappedLUN_setup :: "env \<Rightarrow> tpg \<Rightarrow> node_acl \<Rightarrow> pydict \<Rightarrow> (string \<Rightarrow> unit W) \<Rightarrow> unit W" where
  "MappedLUN_setup K g na mlun err_func =
     (case map_of mlun ''tpg_lun'' of
        None \<Rightarrow> err_func ([CHR 0x27] @ ''tpg_lun'' @ [CHR 0x27] @ '' not in a mapped_lun'')
      | Some tpg_lun \<Rightarrow>
     (case map_of mlun ''index'' of
        None \<Rightarrow> err_func ([CHR 0x27] @ ''index'' @ [CHR 0x27] @ '' not in a mapped_lun'')
      | Some index \<Rightarrow>
     bindM (find_first (list_luns K g) (\<lambda>l. ret (py_eq_int tpg_lun (lun_lun l)))) (\<lambda>found.
       case found of
         None \<Rightarrow> bindM (lift (fmt_d tpg_lun)) (\<lambda>i.
           err_func (''Could not find matching TPG LUN '' @ i @ '' for MappedLUN '' @ py_str index))
       | Some l \<Rightarrow>
     catchM (seqM (MappedLUN_init K na index (Some (Inr l)) (dict_get mlun ''write_protect'' PNone)
                     (dict_get mlun ''alias'' PNone)) (ret ()))
       (\<lambda>e. if setup_error e
            then bindM (lift (fmt_d index)) (\<lambda>i. err_func (''Creating MappedLUN object '' @ i @ '' failed''))
            else raise e))))"

text \<open>
  \<^verbatim>\<open>setattr\<close> on a node ACL and on a portal group: the writable properties store in configfs, the others raise, and any
  other public name becomes an attribute of the Python object, which is dropped after the restore.
\<close>

definition chap_property :: "string \<Rightarrow> string option" where
  "chap_property name = (if startswith name ''chap_'' then chap_file (drop 5 name) else None)"

definition na_setattr :: "env \<Rightarrow> node_acl \<Rightarrow> string \<Rightarrow> pyval \<Rightarrow> unit W" where
  "na_setattr K na name value =
     (case chap_property name of
        Some file \<Rightarrow> na_set_auth K na value file
      | None \<Rightarrow>
          if name = ''tcq_depth'' then set_tcq_depth K na value
          else if name = ''tag'' then set_tag K na value
          else if name \<in> {''parent_tpg'', ''node_wwn'', ''mapped_luns'', ''session'', ''authenticate_target'', ''path'', ''exists''}
          then raise (AttributeErr name) else ret ())"

definition tpg_setattr :: "env \<Rightarrow> tpg \<Rightarrow> string \<Rightarrow> pyval \<Rightarrow> unit W" where
  "tpg_setattr K g name value =
     (case chap_property name of
        Some file \<Rightarrow> tpg_set_auth K g value file
      | None \<Rightarrow>
          if name = ''enable'' then set_enable K g value
          else if name = ''nexus'' then
            (case value of PStr s \<Rightarrow> set_nexus K g (Some s)
             | _ \<Rightarrow> if truthy value then raise (AttributeErr ''strip'') else set_nexus K g None)
          else if name \<in> {''tag'', ''parent_target'', ''network_portals'', ''node_acls'', ''node_acl_groups'', ''luns'',
                          ''authenticate_target'', ''path'', ''exists''}
          then raise (AttributeErr name) else ret ())"

text \<open>A name that is not a string fails in the first string method that is called on it.\<close>

fun wwn_arg :: "pyval \<Rightarrow> exn + string" where
  "wwn_arg (PStr s) = Inr s"
| "wwn_arg _ = Inl (AttributeErr ''strip'')"

definition Target_of :: "env \<Rightarrow> fabric \<Rightarrow> pyval \<Rightarrow> target W" where
  "Target_of K fm wwn = (case wwn of
      PStr s \<Rightarrow> Target_init K fm (Some s) ''any''
    | PNone \<Rightarrow> Target_init K fm None ''any''
    | _ \<Rightarrow> seqM (fm_check_self K fm) (raise (AttributeErr ''startswith'')))"

text \<open>The message of the last handler reads a key that has just been removed: it raises \<^verbatim>\<open>KeyError\<close>.\<close>

definition NodeACL_setup :: "env \<Rightarrow> tpg \<Rightarrow> pydict \<Rightarrow> (string \<Rightarrow> unit W) \<Rightarrow> unit W" where
  "NodeACL_setup K g acl err_func =
     (case map_of acl ''node_wwn'' of
        None \<Rightarrow> err_func ([CHR 0x27] @ ''node_wwn'' @ [CHR 0x27] @ '' missing in node_acl'')
      | Some node_wwn \<Rightarrow>
     try_else (bindM (lift (wwn_arg node_wwn)) (\<lambda>s. NodeACL_init K g s ''any''))
       (\<lambda>e. if is_rtslib_error e
            then err_func (''Error when creating NodeACL for '' @ py_str node_wwn @ '': '' @ exn_str K e) else raise e)
       (\<lambda>na.
     seqM (setup_attributes K ''NodeACL'' (na_path na) acl err_func)
     (seqM (for_dicts (dict_get acl ''mapped_luns'' (PList [])) (\<lambda>mlun. MappedLUN_setup K g na mlun err_func))
       (let acl' = dict_remove acl [''attributes'', ''mapped_luns'', ''node_wwn''] in
        for_each (iter acl') (\<lambda>(name, value).
          whenM (truthy value)
            (catchM (na_setattr K na name value)
               (\<lambda>e. bindM (the_or (KeyErr ''node_wwn'') (map_of acl' ''node_wwn'')) (\<lambda>n.
                  err_func (''Could not set nodeacl '' @ py_str n @ '' attribute '' @ [CHR 0x27] @ name @ [CHR 0x27])))))))))"

definition TPG_setup :: "env \<Rightarrow> target \<Rightarrow> pydict \<Rightarrow> (string \<Rightarrow> unit W) \<Rightarrow> unit W" where
  "TPG_setup K t tpg err_func =
     bindM (TPG_init K t (dict_get tpg ''tag'' PNone) ''any'') (\<lambda>g.
     seqM (setup_attributes K ''TPG'' (tpg_path g) tpg err_func)
     (seqM (setup_parameters K ''TPG'' (tpg_path g) tpg err_func)
     (seqM (for_dicts (dict_get tpg ''luns'' (PList [])) (\<lambda>lun. LUN_setup K g lun err_func))
     (seqM (for_dicts (dict_get tpg ''portals'' (PList [])) (\<lambda>p. NetworkPortal_setup K g p err_func))
     (seqM (for_dicts (dict_get tpg ''node_acls'' (PList [])) (\<lambda>acl. NodeACL_setup K g acl err_func))
     (seqM (set_enable K g (dict_get tpg ''enable'' (PBool True)))
       (for_each (iter (dict_remove tpg [''luns'', ''portals'', ''node_acls'', ''tag'', ''attributes'', ''parameters'', ''enable'']))
          (\<lambda>(name, value).
             whenM (truthy value)
               (catchM (tpg_setattr K g name value)
                  (\<lambda>e. err_func (''Could not set tpg '' @ str_of_int (tpg_tag g) @ '' attribute '' @
                          [CHR 0x27] @ name @ [CHR 0x27])))))))))))"

definition Target_setup :: "env \<Rightarrow> fabric \<Rightarrow> pydict \<Rightarrow> (string \<Rightarrow> unit W) \<Rightarrow> unit W" where
  "Target_setup K fm t err_func =
     (case map_of t ''wwn'' of
        None \<Rightarrow> err_func ([CHR 0x27] @ ''wwn'' @ [CHR 0x27] @ '' not defined for Target'')
      | Some wwn \<Rightarrow>
     try_else (Target_of K fm wwn)
       (\<lambda>e. if is_rtslib_error e then err_func (''Could not create Target object: '' @ exn_str K e) else raise e)
       (\<lambda>t_obj. for_dicts (dict_get t ''tpgs'' (PList [])) (\<lambda>tpg. TPG_setup K t_obj tpg err_func)))"

section \<open>Which paths a method touches\<close>

text \<open>
  Looking a storage object up may remove its adapter directory when the object is missing, so a
  method that looks storage objects up may touch what is below \<^verbatim>\<open>core\<close>.
\<close>

lemma Backstore_yields: "yields (\<lambda>bs. prefix core_dir (bs_path bs)) (Backstore_init K name cls mode index)"
  unfolding Backstore_init_def Let_def hba_path by (intro yields_rules) simp

lemma chap_stays [pres]: "stays (frame A) (na_get_auth na a)" "stays (frame A) (tpg_get_auth g a)"
  unfolding na_get_auth_def tpg_get_auth_def get_auth_attr_def by (intro fr.comb fr.base pres)+

context configfs
begin

lemma StorageObject_lookup_stays:
  assumes "below core_dir A"
  shows "stays (frame A) (StorageObject_init K cls name ''lookup'' index)"
  unfolding StorageObject_init_def Let_def
  by (intro fr.if_stays fr.base fr.bindM_stays_on [OF Backstore_lookup_stays Backstore_yields] fr.bindM_stays fr.seqM_stays
      fr.catchM_stays pres stays_below_mono [OF Backstore_delete_stays _])
    (auto intro: assms)

lemma so_from_path_stays: "below core_dir A \<Longrightarrow> stays (frame A) (so_from_path K p)"
  unfolding so_from_path_def so_lookup_def by (intro fr.comb fr.base pres StorageObject_lookup_stays)

lemma so_all_stays:
  "below core_dir A \<Longrightarrow> (\<And>so c. stays (frame A) (body so c)) \<Longrightarrow> stays (frame A) (so_all K body c)"
  unfolding so_all_def by (rule core_glob_stays) (auto intro: fr.bindM_stays so_from_path_stays split: prod.splits)

lemma get_storage_object_stays: "below core_dir A \<Longrightarrow> stays (frame A) (get_storage_object K l)"
  unfolding get_storage_object_def by (intro fr.comb fr.base pres so_from_path_stays)

lemma alua_gp_stays:
  assumes "below core_dir A"
  shows "stays (frame A) (get_alua_tg_pt_gp_name K l)" and "stays (frame A) (set_alua_tg_pt_gp_name K l v)"
proof -
  show get: "stays (frame A) (get_alua_tg_pt_gp_name K l)"
    unfolding get_alua_tg_pt_gp_name_def by (intro fr.comb fr.base pres get_storage_object_stays assms)
  show "stays (frame A) (set_alua_tg_pt_gp_name K l v)"
    unfolding set_alua_tg_pt_gp_name_def by (intro fr.comb fr.base pres get fwrite_stays)
qed

lemma MappedLUN_init_stays:
  assumes "below (na_path na) A"
  shows "stays (frame A) (MappedLUN_init K na v l prot alias)"
proof -
  have below: "below (ml_path (ml_at na n)) A" for n
    by (rule below_down [OF assms]) (simp add: ml_at_def)
  have link: "below (pjoin (ml_path (ml_at na n)) x) A" for n x
    by (rule below_down [OF below [of n]]) simp
  have conf: "stays (frame A) (ml_configure K (ml_at na n) l prot alias)" for n l
    unfolding ml_configure_def set_write_protect_def
    by (intro fr.comb fr.base pres list_luns_stays fwrite_stays symlink_below link)
  have "stays (frame A) (MappedLUN_create K na v l prot alias)" for l
    unfolding MappedLUN_create_def Let_def
    by (intro fr.comb fr.base pres conf MappedLUN_delete_stays create_below below)
  then show ?thesis
    unfolding MappedLUN_init_def by (intro fr.comb fr.base pres)
qed

lemma LUN_init_stays:
  assumes "below (tpg_path g) A"
  shows "stays (frame A) (LUN_init K g v so alias)"
proof -
  have below: "below (lun_path (lun_at g n)) A" for n
    by (rule below_down [OF assms]) (simp add: lun_at_def)
  have link: "below (pjoin (lun_path (lun_at g n)) x) A" for n x
    by (rule below_down [OF below [of n]]) simp
  have parts: "strict_prefix (tpg_path (lun_tpg (lun_at g n))) p \<Longrightarrow> below p A" for n p
    by (rule below_down [OF assms]) (simp add: lun_at_def strict_prefix_def)
  show ?thesis
    unfolding LUN_init_def lun_configure_def so_exists_def Let_def
    by (intro fr.comb fr.base pres list_luns_stays create_below below LUN_delete_stays parts
        symlink_below link) auto
qed

lemma setup_attributes_stays:
  assumes "\<And>s. stays (frame A) (err s)"
  shows "stays (frame A) (setup_attributes K cls p d err)"
  unfolding setup_attributes_def set_attributes_def
  by (intro fr.comb fr.base pres set_attribute_stays assms)

lemma setup_parameters_stays:
  assumes "\<And>s. stays (frame A) (err s)"
  shows "stays (frame A) (setup_parameters K cls p d err)"
  unfolding setup_parameters_def set_parameters_def
  by (intro fr.comb fr.base pres set_parameter_stays assms)

lemma for_dicts_stays: "(\<And>d. stays (frame A) (body d)) \<Longrightarrow> stays (frame A) (for_dicts v body)"
  unfolding for_dicts_def by (intro fr.comb fr.base pres)

lemma LUN_setup_stays:
  assumes "below (tpg_path g) A" and "below core_dir A" and "\<And>s. stays (frame A) (err s)"
  shows "stays (frame A) (LUN_setup K g d err)"
  unfolding LUN_setup_def
  by (intro fr.comb fr.base pres so_all_stays LUN_init_stays alua_gp_stays assms)

lemma NetworkPortal_init_stays:
  "below (tpg_path g) A \<Longrightarrow> stays (frame A) (NetworkPortal_init K g ip pt mode)"
  unfolding NetworkPortal_init_def Let_def
  by (intro fr.comb fr.base pres create_below) (auto elim: below_down simp: pjoin_def)

lemma NetworkPortal_setup_stays:
  assumes "below (tpg_path g) A" and "\<And>s. stays (frame A) (err s)"
  shows "stays (frame A) (NetworkPortal_setup K g d err)"
  unfolding NetworkPortal_setup_def set_iser_def set_offload_def
  by (intro fr.comb fr.base pres NetworkPortal_init_stays np_set_flag_stays assms)

lemma MappedLUN_setup_stays:
  assumes "below (na_path na) A" and "\<And>s. stays (frame A) (err s)"
  shows "stays (frame A) (MappedLUN_setup K g na d err)"
  unfolding MappedLUN_setup_def
  by (intro fr.comb fr.base pres list_luns_stays MappedLUN_init_stays assms)

lemma set_auth_attr_stays: "stays (frame A) check \<Longrightarrow> stays (frame A) (set_auth_attr K check p v a i)"
  unfolding set_auth_attr_def Let_def by (cases v) (auto intro!: fr.comb fr.base fwrite_stays)

lemma na_setattr_stays: "stays (frame A) (na_setattr K na name v)"
  unfolding na_setattr_def na_set_auth_def set_tcq_depth_def set_tag_def
  by (intro fr.comb fr.base pres fwrite_stays set_auth_attr_stays)

lemma tpg_setattr_stays: "stays (frame A) (tpg_setattr K g name v)"
proof -
  have "stays (frame A) (case v of PStr s \<Rightarrow> set_nexus K g (Some s)
      | _ \<Rightarrow> if truthy v then raise (AttributeErr ''strip'') else set_nexus K g None)"
    by (cases v) (auto intro!: fr.base set_nexus_stays)
  then show ?thesis
    unfolding tpg_setattr_def tpg_set_auth_def
    by (intro fr.option_stays fr.if_stays fr.base pres set_auth_attr_stays set_enable_stays)
qed

lemma NodeACL_init_stays: "below (tpg_path g) A \<Longrightarrow> stays (frame A) (NodeACL_init K g n mode)"
  unfolding NodeACL_init_def Let_def
  by (intro fr.comb fr.base pres create_below) (auto elim: below_down simp: pjoin_def)

lemma NodeACL_setup_stays:
  assumes "below (tpg_path g) A" and "\<And>s. stays (frame A) (err s)"
  shows "stays (frame A) (NodeACL_setup K g d err)"
  unfolding NodeACL_setup_def Let_def
proof (intro fr.option_stays assms fr.try_else_stays_on [where P = "\<lambda>na. below (na_path na) A"])
  show "stays (frame A) (bindM (lift (wwn_arg n)) (\<lambda>s. NodeACL_init K g s ''any''))" for n
    by (intro fr.comb fr.base NodeACL_init_stays assms)
  have "yields (\<lambda>na. below (na_path na) A) (NodeACL_init K g s ''any'')" for s
    using NodeACL_yields by (rule yields_mono) (auto intro: below_down [OF assms(1)])
  then show "yields (\<lambda>na. below (na_path na) A) (bindM (lift (wwn_arg n)) (\<lambda>s. NodeACL_init K g s ''any''))" for n
    by (rule yields_bindM)
qed (intro fr.comb fr.base setup_attributes_stays for_dicts_stays MappedLUN_setup_stays na_setattr_stays assms; assumption)+

lemma TPG_at_below: "below (tgt_path t) A \<Longrightarrow> stays (frame A) (TPG_at K t n mode)"
  by (rule stays_below_mono [OF TPG_at_stays]) auto

lemma TPG_init_stays: "below (tgt_path t) A \<Longrightarrow> stays (frame A) (TPG_init K t tag mode)"
  unfolding TPG_init_def by (intro fr.comb fr.base pres list_tpgs_stays TPG_at_below)

lemma TPG_setup_stays:
  assumes t: "below (tgt_path t) A" and core: "below core_dir A" and err: "\<And>s. stays (frame A) (err s)"
  shows "stays (frame A) (TPG_setup K t d err)"
  unfolding TPG_setup_def
proof (rule fr.bindM_stays_on [where P = "\<lambda>g. below (tpg_path g) A"])
  show "stays (frame A) (TPG_init K t (dict_get d ''tag'' PNone) ''any'')"
    by (rule TPG_init_stays [OF t])
  show "yields (\<lambda>g. below (tpg_path g) A) (TPG_init K t (dict_get d ''tag'' PNone) ''any'')"
    unfolding TPG_init_def
    by (rule yields_bindM, rule yields_mono [OF TPG_at_yields]) (auto intro: below_down [OF t])
qed (intro fr.seqM_stays fr.for_each_stays fr.iter_stays fr.prod_stays fr.whenM_stays fr.catchM_stays
    setup_attributes_stays setup_parameters_stays for_dicts_stays
    LUN_setup_stays NetworkPortal_setup_stays NodeACL_setup_stays set_enable_stays tpg_setattr_stays core err; assumption)+

end

text \<open>The fabric directory is there: nothing is loaded.\<close>

lemma fm_check_self_loaded: "is_dir (fs w) (fm_path fm) \<Longrightarrow> fm_check_self K fm w = (Ok (), w)"
  by (simp add: fm_check_self_def check_self_def exists_def is_dirM_def seqM_def bindM_def gets_def ret_def)

lemma try_else_seq: "m w = (Ok (), w) \<Longrightarrow> try_else (seqM m n) h k w = try_else n h k w"
  by (simp add: try_else_def seqM_def bindM_def)

section \<open>Properties\<close>

definition saved_name :: "string \<Rightarrow> string" where
  "saved_name s = (if startswith s ''naa.6'' then ''naa.5'' @ drop 5 s else s)"

text \<open>
  C13. Setting up one target leaves the others alone. With the fabric loaded, \<^verbatim>\<open>Target.setup\<close> with either error
  function changes, in every outcome, the shape of nothing but the target's own directory and what is below
  \<^verbatim>\<open>core\<close> (where looking a missing storage object up removes its empty adapter): the targets of other
  names, on this fabric and on others, keep all their entries.
\<close>

theorem target_setup_frame:
  assumes "configfs K" and "is_dir (fs w) (fm_path fm)" and "err \<in> {err_collect, err_abort}"
    and "map_of t ''wwn'' = Some (PStr s)" and "to_normalized_wwn fm (saved_name s) = Inr (name, ty)"
  shows "frame (\<lambda>q. prefix (pjoin (fm_path fm) (to_fabric_wwn fm name)) q \<or> prefix core_dir q) w
    (snd (Target_setup K fm t err w))"
proof -
  let ?p = "pjoin (fm_path fm) (to_fabric_wwn fm name)"
  let ?A = "\<lambda>q. prefix ?p q \<or> prefix core_dir q"
  let ?new = "seqM (create_in_cfs_ine K ''Target'' ?p ''any'') (ret \<lparr>tgt_fm = fm, tgt_wwn = name, tgt_wwn_type = ty, tgt_path = ?p\<rparr>)"
  let ?h = "\<lambda>e. if is_rtslib_error e then err (''Could not create Target object: '' @ exn_str K e) else raise e"
  let ?k = "\<lambda>t_obj. for_dicts (dict_get t ''tpgs'' (PList [])) (\<lambda>tpg. TPG_setup K t_obj tpg err)"
  have err: "stays (frame ?A) (err s)" for s using assms(3) by (auto intro: pres)
  have below: "below ?p ?A" "below core_dir ?A" by (auto simp: below_def)
  have "Target_setup K fm t err w = try_else (seqM (fm_check_self K fm) ?new) ?h ?k w"
    using assms(4,5)
    by (simp add: Target_setup_def Target_of_def Target_init_def target_name_def saved_name_def lift_def Let_def
        bindM_def seqM_def ret_def try_else_def split: prod.splits res.splits if_splits)
  also have "\<dots> = try_else ?new ?h ?k w"
    by (rule try_else_seq) (rule fm_check_self_loaded [OF assms(2)])
  finally have run: "Target_setup K fm t err w = try_else ?new ?h ?k w" .
  have "stays (frame ?A) (try_else ?new ?h ?k)"
  proof (rule fr.try_else_stays_on [where P = "\<lambda>u. tgt_path u = ?p"])
    show "stays (frame ?A) ?new"
      by (intro fr.comb fr.base configfs.create_below [OF assms(1)] below)
    show "yields (\<lambda>u. tgt_path u = ?p) ?new"
      by (intro yields_seqM yields_ret) simp
  qed (auto intro!: fr.comb fr.base err configfs.for_dicts_stays [OF assms(1)] configfs.TPG_setup_stays [OF assms(1)] simp: below)
  then show ?thesis by (simp add: run stays_def)
qed

definition demo_config :: pydict where
  "demo_config = [(''wwn'', PStr ''iqn.2003-01.org.x:sn.1''), (''fabric'', PStr ''iscsi''),
     (''tpgs'', PList [PDict [(''tag'', PInt 1), (''enable'', PBool True),
        (''portals'', PList [PDict [(''ip_address'', PStr ''0.0.0.0''), (''port'', PInt 3260), (''iser'', PBool True)]])]])]"

theorem target_setup_frame_witness:
  "frame (\<lambda>q. prefix (fm_path iscsi_fabric @ [''iqn.2003-01.org.x:sn.1'']) q \<or> prefix core_dir q) world0
     (snd (Target_setup lio iscsi_fabric demo_config err_collect world0))"
proof -
  have "is_dir (fs world0) (fm_path iscsi_fabric)" by code_simp
  moreover have "map_of demo_config ''wwn'' = Some (PStr ''iqn.2003-01.org.x:sn.1'')" by code_simp
  moreover have "to_normalized_wwn iscsi_fabric (saved_name ''iqn.2003-01.org.x:sn.1'') =
      Inr (''iqn.2003-01.org.x:sn.1'', ''iqn'')" by code_simp
  moreover have "pjoin (fm_path iscsi_fabric) (to_fabric_wwn iscsi_fabric ''iqn.2003-01.org.x:sn.1'') =
      fm_path iscsi_fabric @ [''iqn.2003-01.org.x:sn.1'']" by code_simp
  ultimately show ?thesis
    using target_setup_frame [OF lio_fs.configfs_axioms, of world0 iscsi_fabric err_collect demo_config
        "''iqn.2003-01.org.x:sn.1''" "''iqn.2003-01.org.x:sn.1''" "''iqn''"] by simp
qed

context configfs
begin

lemma node_delete_gone: "wp (node_delete K p) (\<lambda>_ w'. \<not> is_dir (fs w') p) (\<lambda>_ _. True) w"
  using rmdir_not_dir by (auto simp: node_delete_def exists_def is_dirM_def wp rmdir_def split: sum.splits)

lemma LUN_delete_gone: "wp (LUN_delete K l) (\<lambda>_ w'. \<not> is_dir (fs w') (lun_path l)) (\<lambda>_ _. True) w"
  unfolding LUN_delete_def by (intro wp_seq_any node_delete_gone)

lemma MappedLUN_delete_gone: "wp (MappedLUN_delete K ml) (\<lambda>_ w'. \<not> is_dir (fs w') (ml_path ml)) (\<lambda>_ _. True) w"
  unfolding MappedLUN_delete_def by (intro wp_seq_any node_delete_gone)

end

text \<open>
  Roll-back of a LUN. If linking a new LUN to its storage object fails and the clean-up returns, then the
  constructor raises the error of the failed step and the directory it made is gone again.
\<close>

theorem lun_create_rollback:
  assumes "configfs K" and "check_lun v = Inr n" and "v \<noteq> PNone"
    and "create_in_cfs_ine K ''LUN'' (lun_path (lun_at g n)) ''create'' w = (Ok (), w1)"
    and "lun_configure K (lun_at g n) so alias w1 = (Err e, w2)" and "LUN_delete K (lun_at g n) w2 = (Ok (), w3)"
  shows "LUN_init K g v (Some so) alias w = (Err e, w3) \<and> \<not> is_dir (fs w3) (lun_path (lun_at g n))"
  using wpD [OF configfs.LUN_delete_gone [OF assms(1)] assms(6)] assms(2-6)
  by (simp add: LUN_init_def lift_def ret_def seqM_def bindM_def catchM_def raise_def Let_def)

theorem lun_create_rollback_witness:
  "\<exists>w3. LUN_init lio demo_tpg (PInt 3) (Some demo_so) (PStr ''a/b'') demo_world = (Err (RTSLibError ''Invalid alias: a/b''), w3) \<and>
     \<not> is_dir (fs w3) (lun_path (lun_at demo_tpg 3))"
proof -
  let ?l = "lun_at demo_tpg 3" let ?e = "RTSLibError ''Invalid alias: a/b''"
  let ?make = "create_in_cfs_ine lio ''LUN'' (lun_path ?l) ''create'' demo_world"
  have conf: "case ?make of (r, w1) \<Rightarrow> r = Ok () \<and>
      (case lun_configure lio ?l demo_so (PStr ''a/b'') w1 of (r2, w2) \<Rightarrow> r2 = Err ?e \<and> fst (LUN_delete lio ?l w2) = Ok ())"
    by code_simp
  have v: "check_lun (PInt 3) = Inr 3" "PInt 3 \<noteq> PNone" by code_simp+
  obtain w1 w2 where make: "?make = (Ok (), w1)" and fail: "lun_configure lio ?l demo_so (PStr ''a/b'') w1 = (Err ?e, w2)"
    and "fst (LUN_delete lio ?l w2) = Ok ()"
    using conf by (auto split: prod.splits)
  then obtain w3 where del: "LUN_delete lio ?l w2 = (Ok (), w3)" by (metis prod.collapse)
  show ?thesis
    using lun_create_rollback [OF lio_fs.configfs_axioms v make fail del] by blast
qed

text \<open>
  Roll-back of a mapped LUN. If mapping a new mapped LUN to a LUN of the portal group fails and the clean-up
  returns, then the constructor raises the error of the failed step and the directory it made is gone again.
\<close>

theorem mapped_lun_create_rollback:
  assumes "configfs K" and "ml_checks na v w = (Ok n, w)"
    and "create_in_cfs_ine K ''MappedLUN'' (ml_path (ml_at na n)) ''create'' w = (Ok (), w1)"
    and "ml_configure K (ml_at na n) l prot alias w1 = (Err e, w2)" and "MappedLUN_delete K (ml_at na n) w2 = (Ok (), w3)"
  shows "MappedLUN_init K na v (Some l) prot alias w = (Err e, w3) \<and> \<not> is_dir (fs w3) (ml_path (ml_at na n))"
  using wpD [OF configfs.MappedLUN_delete_gone [OF assms(1)] assms(5)] assms(2-5)
  by (simp add: MappedLUN_init_def MappedLUN_create_def ret_def seqM_def bindM_def catchM_def raise_def Let_def)

definition demo_map_world :: world where
  "demo_map_world = demo_world\<lparr>fs := fs demo_world @ [(na_path demo_acl, Dir)]\<rparr>"

theorem mapped_lun_create_rollback_witness:
  "\<exists>w3. MappedLUN_init lio demo_acl (PInt 0) (Some (Inl (PInt 7))) PNone PNone demo_map_world =
       (Err (RTSLibError ''LUN 7 does not exist in this TPG''), w3) \<and>
     \<not> is_dir (fs w3) (ml_path (ml_at demo_acl 0))"
proof -
  let ?ml = "ml_at demo_acl 0" let ?e = "RTSLibError ''LUN 7 does not exist in this TPG''"
  let ?make = "create_in_cfs_ine lio ''MappedLUN'' (ml_path ?ml) ''create'' demo_map_world"
  have conf: "case ?make of (r, w1) \<Rightarrow> r = Ok () \<and>
      (case ml_configure lio ?ml (Inl (PInt 7)) PNone PNone w1 of (r2, w2) \<Rightarrow>
         r2 = Err ?e \<and> fst (MappedLUN_delete lio ?ml w2) = Ok ())"
    by code_simp
  have v: "ml_checks demo_acl (PInt 0) demo_map_world = (Ok 0, demo_map_world)" by code_simp
  obtain w1 w2 where make: "?make = (Ok (), w1)" and fail: "ml_configure lio ?ml (Inl (PInt 7)) PNone PNone w1 = (Err ?e, w2)"
    and "fst (MappedLUN_delete lio ?ml w2) = Ok ()"
    using conf by (auto split: prod.splits)
  then obtain w3 where del: "MappedLUN_delete lio ?ml w2 = (Ok (), w3)" by (metis prod.collapse)
  show ?thesis
    using mapped_lun_create_rollback [OF lio_fs.configfs_axioms v make fail del] by blast
qed

section \<open>What a search finds\<close>

text \<open>
  The accumulator of a loop over a listing keeps a property that every run of the body keeps. A
  search therefore returns nothing but an element that passes its test.
\<close>

definition keeps :: "('c \<Rightarrow> bool) \<Rightarrow> ('a \<Rightarrow> 'c \<Rightarrow> ('s, 'c ctl) M) \<Rightarrow> bool" where
  "keeps I body \<longleftrightarrow> (\<forall>x c. I c \<longrightarrow> yields (\<lambda>r. I (ctl_val r)) (body x c))"

lemma iter_keeps: "keeps I body \<Longrightarrow> I c \<Longrightarrow> yields (\<lambda>r. I (ctl_val r)) (iter xs body c)"
proof (induction xs arbitrary: c)
  case (Cons x xs)
  have "yields (\<lambda>r. I (ctl_val r)) (body x c)" using Cons.prems by (simp add: keeps_def)
  then show ?case
    unfolding iter.simps by (rule yields_bindM_on) (auto split: ctl.splits intro: Cons yields_ret)
qed (simp add: yields_ret)

lemma find_first_test: "keeps (\<lambda>c. \<forall>x. c = Some x \<longrightarrow> P x) (\<lambda>x c. bindM (ret (P x)) (\<lambda>b. ret (if b then Break (Some x) else Next c)))"
  by (auto simp: keeps_def yields_def wp)

lemma find_first_sound:
  assumes "\<And>I body c. keeps I body \<Longrightarrow> I c \<Longrightarrow> yields (\<lambda>r. I (ctl_val r)) (g body c)"
  shows "yields (\<lambda>r. \<forall>x. r = Some x \<longrightarrow> P x) (find_first g (\<lambda>x. ret (P x)))"
  unfolding find_first_def
  by (rule yields_bindM_on [OF assms [OF find_first_test]]) (auto intro: yields_ret)

text \<open>
  The handles that the loop over all storage objects gives: the path and the plugin of each are those of its class, of an index and of its name.
\<close>

definition so_located :: "storage_object \<Rightarrow> bool" where
  "so_located so = (so_plugin so = fst (bs_params (so_cls so)) \<and>
     (\<exists>i. so_path so = pjoin (core_dir @ [bs_dirp (so_cls so) @ ''_'' @ str_of_int i]) (so_name so)))"

lemma Backstore_located:
  "yields (\<lambda>bs. bs_cls bs = cls \<and> (\<exists>i. bs_path bs = core_dir @ [bs_dirp cls @ ''_'' @ str_of_int i])) (Backstore_init K name cls mode index)"
  unfolding Backstore_init_def Let_def hba_path by (intro yields_rules) auto

lemma StorageObject_located: "yields so_located (StorageObject_init K cls name mode index)"
proof -
  have plugin: "yields (\<lambda>p. p = fst (bs_params (bs_cls bs))) (bs_get_plugin bs)" for bs
    unfolding bs_get_plugin_def by (intro yields_rules) simp
  show ?thesis
    unfolding StorageObject_init_def Let_def
    by (intro yields_if yields_raise yields_bindM_on [OF Backstore_located] yields_bindM_on [OF plugin] yields_seqM yields_ret)
      (auto simp: so_located_def)
qed

lemma so_from_path_located: "yields so_located (so_from_path K p)"
  unfolding so_from_path_def so_lookup_def by (intro yields_bindM) (auto intro: yields_bindM StorageObject_located)

lemma so_all_keeps:
  assumes "\<And>so c. so_located so \<Longrightarrow> I c \<Longrightarrow> yields (\<lambda>r. I (ctl_val r)) (body so c)" and I: "I c"
  shows "yields (\<lambda>r. I (ctl_val r)) (so_all K body c)"
proof -
  have "keeps I (\<lambda>n c''. bindM (is_dirM (core_dir @ [h, n])) (\<lambda>d.
      if d then (\<lambda>(h, n) c'. bindM (so_from_path K (core_dir @ [h, n])) (\<lambda>so. body so c')) (h, n) c'' else ret (Next c'')))" for h
    using assms(1) by (auto simp: keeps_def intro!: yields_bindM yields_if yields_ret yields_bindM_on [OF so_from_path_located])
  then show ?thesis
    unfolding so_all_def core_glob_def
    by (intro yields_bindM iter_keeps I) (auto simp: keeps_def intro!: yields_bindM iter_keeps)
qed

lemma list_luns_keeps: "keeps I body \<Longrightarrow> I c \<Longrightarrow> yields (\<lambda>r. I (ctl_val r)) (list_luns K g body c)"
  unfolding list_luns_def iterdir_def
  by (intro yields_seqM yields_bindM iter_keeps) (auto simp: keeps_def intro!: yields_bindM)

lemma so_all_found: "yields (\<lambda>r. \<forall>x. r = Some x \<longrightarrow> so_located x \<and> P x) (find_first (so_all K) (\<lambda>x. ret (P x)))"
  unfolding find_first_def
  by (rule yields_bindM_on [OF so_all_keeps [where I = "\<lambda>c. \<forall>x. c = Some x \<longrightarrow> so_located x \<and> P x"]]) (auto simp: yields_def wp)

lemma list_luns_found: "yields (\<lambda>r. \<forall>x. r = Some x \<longrightarrow> P x) (find_first (list_luns K g) (\<lambda>x. ret (P x)))"
  by (rule find_first_sound) (rule list_luns_keeps)

lemma wp_yields: "yields P m \<Longrightarrow> wp m (\<lambda>a _. P a) (\<lambda>_ _. True) s"
  by (simp add: yields_def)

text \<open>A link to a storage object below a directory.\<close>

definition linked_to :: "storage_object \<Rightarrow> path \<Rightarrow> world \<Rightarrow> bool" where
  "linked_to so p w = (\<exists>dst. prefix p dst \<and> map_of (fs w) dst = Some (Link (so_path so)))"

lemma LUN_init_links:
  assumes "configfs K"
  shows "wp (LUN_init K g (PInt n) (Some so) al) (\<lambda>_. linked_to so (lun_path (lun_at g n))) (\<lambda>_ _. True) s"
proof -
  let ?Q = "linked_to so (lun_path (lun_at g n))"
  have "wp (seqM (create_in_cfs_ine K ''LUN'' (lun_path (lun_at g n)) ''create'')
      (seqM (catchM (lun_configure K (lun_at g n) so al) (\<lambda>e. seqM (LUN_delete K (lun_at g n)) (raise e)))
        (ret (lun_at g n)))) (\<lambda>_. ?Q) (\<lambda>_ _. True) t" for t
  proof (rule wp_seq_any)
    fix u
    have "wp (catchM (lun_configure K (lun_at g n) so al) (\<lambda>e. seqM (LUN_delete K (lun_at g n)) (raise e)))
        (\<lambda>_. ?Q) (\<lambda>_ _. True) u"
      unfolding wp_catchM linked_to_def by (rule wp_mono [OF lun_configure_links [OF assms]]) simp_all
    then show "wp (seqM (catchM (lun_configure K (lun_at g n) so al) (\<lambda>e. seqM (LUN_delete K (lun_at g n)) (raise e)))
        (ret (lun_at g n))) (\<lambda>_. ?Q) (\<lambda>_ _. True) u"
      by (rule wp_seqI) (simp add: wp)
  qed
  then show ?thesis by (simp add: LUN_init_def Let_def wp_bindM wp_lift check_lun_def)
qed

lemma ignored_keeps_link:
  assumes "stays (frame (prefix core_dir)) m" and "parallel (tpg_path g) core_dir" and "linked_to so (lun_path (lun_at g n)) s"
  shows "wp (ignored is_keyerror m) (\<lambda>_. linked_to so (lun_path (lun_at g n))) (\<lambda>_ _. True) s"
proof -
  obtain dst where dst: "prefix (lun_path (lun_at g n)) dst" "map_of (fs s) dst = Some (Link (so_path so))"
    using assms(3) by (auto simp: linked_to_def)
  then have "prefix (tpg_path g) dst" by (auto simp: lun_at_def dest: append_prefixD)
  then have "\<not> prefix core_dir dst" using assms(2) by (metis parallelE prefix_same_cases)
  then have keep: "frame (prefix core_dir) s s' \<Longrightarrow> linked_to so (lun_path (lun_at g n)) s'" for s'
    using dst map_of_shape_cong(3) unfolding frame_def linked_to_def by blast
  show ?thesis
    by (rule wp_mono [OF ignored_stays [OF assms(1), unfolded stays_wp, rule_format]]) (rule keep | simp)+
qed

text \<open>
  C14. A saved LUN is restored as a LUN of its storage object. When \<^verbatim>\<open>LUN.setup\<close> of an entry with an index and
  a storage object field returns without an error being reported, a link below the LUN's directory points to the directory of the saved
  name in an adapter directory of the saved plugin: \<^verbatim>\<open>core/<prefix of the plugin>_<index>/<name>\<close>.
\<close>

theorem lun_setup_links:
  assumes "configfs K" and "map_of d ''index'' = Some (PInt n)" and "so_field d = Some (plugin, name)"
    and "parallel (tpg_path g) core_dir"
  shows "wp (LUN_setup K g d err_abort)
    (\<lambda>_ w'. \<exists>cls i dst. fst (bs_params cls) = plugin \<and> prefix (lun_path (lun_at g n)) dst \<and>
       map_of (fs w') dst = Some (Link (pjoin (core_dir @ [bs_dirp cls @ ''_'' @ str_of_int i]) name))) (\<lambda>_ _. True) w"
proof -
  show ?thesis
    unfolding LUN_setup_def assms(2,3) option.case prod.case
    apply (rule wp_bindI [OF wp_yields [OF so_all_found]])
    subgoal premises found for found s
    proof (cases found)
      case None
      then show ?thesis by (simp add: wp err_abort_def)
    next
      case (Some so)
      with found obtain i where so: "fst (bs_params (so_cls so)) = plugin"
        "so_path so = pjoin (core_dir @ [bs_dirp (so_cls so) @ ''_'' @ str_of_int i]) name"
        by (auto simp: so_located_def)
      have link: "\<exists>cls i dst. fst (bs_params cls) = plugin \<and> prefix (lun_path (lun_at g n)) dst \<and>
          map_of (fs t) dst = Some (Link (pjoin (core_dir @ [bs_dirp cls @ ''_'' @ str_of_int i]) name))"
        if "linked_to so (lun_path (lun_at g n)) t" for t
        using that so(1) unfolding linked_to_def so(2) by blast
      have gp: "stays (frame (prefix core_dir)) (bindM (the_or (KeyErr ''alua_tg_pt_gp_name'') (map_of d ''alua_tg_pt_gp_name''))
          (\<lambda>gp. bindM (the_or (UnboundLocalErr ''lun_obj'') lo) (\<lambda>l. bindM (set_alua_tg_pt_gp_name K l gp) (\<lambda>_. ret ()))))" for lo
        by (intro fr.comb fr.base configfs.alua_gp_stays [OF assms(1)]) (simp add: below_prefix)
      show ?thesis
        unfolding Some option.case
        apply (rule wp_bindI [where P = "\<lambda>_. linked_to so (lun_path (lun_at g n))"])
        subgoal
          unfolding wp_catchM wp_bindM wp_ret
          by (rule wp_mono [OF LUN_init_links [OF assms(1)]]) (simp_all add: linked_to_def wp err_abort_def split: sum.splits)
        subgoal for lo t
          by (rule wp_mono [OF ignored_keeps_link [OF gp assms(4)]]) (assumption | rule link TrueI)+
        done
    qed
    done
qed

theorem lun_setup_links_witness:
  "\<exists>w' i dst. LUN_setup lio demo_tpg [(''index'', PInt 2), (''storage_object'', PStr ''/backstores/fileio/d''), (''alias'', PStr ''a'')]
       err_abort demo_world = (Ok (), w') \<and>
     prefix (lun_path (lun_at demo_tpg 2)) dst \<and> map_of (fs w') dst = Some (Link (pjoin (core_dir @ [''fileio_'' @ str_of_int i]) ''d''))"
proof -
  let ?d = "[(''index'', PInt 2), (''storage_object'', PStr ''/backstores/fileio/d''), (''alias'', PStr ''a'')]"
  have "fst (LUN_setup lio demo_tpg ?d err_abort demo_world) = Ok ()" by code_simp
  then obtain w' where run: "LUN_setup lio demo_tpg ?d err_abort demo_world = (Ok (), w')" by (metis prod.collapse)
  have d: "map_of ?d ''index'' = Some (PInt 2)" "so_field ?d = Some (''fileio'', ''d'')" by code_simp+
  have "\<not> prefix (tpg_path demo_tpg) core_dir" "\<not> prefix core_dir (tpg_path demo_tpg)" by code_simp+
  then have par: "parallel (tpg_path demo_tpg) core_dir" by (simp add: parallel_def)
  from wpD [OF lun_setup_links [OF lio_fs.configfs_axioms d par] run] obtain cls i dst where
    cls: "fst (bs_params cls) = ''fileio''" and link: "prefix (lun_path (lun_at demo_tpg 2)) dst"
      "map_of (fs w') dst = Some (Link (pjoin (core_dir @ [bs_dirp cls @ ''_'' @ str_of_int i]) ''d''))" by blast
  from cls have "bs_dirp cls = ''fileio''" by (cases cls) (simp_all add: bs_dirp_def)
  with run link show ?thesis by auto
qed

text \<open>
  A LUN that cannot be created ends the restore. In the collecting mode, when the constructor refuses a saved LUN with
  an error of the library and the entry names an ALUA group, as every dump does, \<^verbatim>\<open>LUN.setup\<close> reports the error and
  then raises \<^verbatim>\<open>UnboundLocalError\<close>, because the handler falls through to a use of the object that was not made.
\<close>

theorem lun_setup_unbound:
  assumes "map_of d ''index'' = Some (PInt n)" and "so_field d = Some (plugin, name)"
    and "map_of d ''alua_tg_pt_gp_name'' = Some gp"
    and "find_first (so_all K) (\<lambda>so. ret (so_name so = name \<and> so_plugin so = plugin)) w = (Ok (Some so), w1)"
    and "LUN_init K g (PInt n) (Some so) (dict_get d ''alias'' PNone) w1 = (Err e, w2)" and "is_rtslib_error e"
  shows "LUN_setup K g d err_collect w = (Err (UnboundLocalErr ''lun_obj''),
    w2\<lparr>errors := errors w2 @ [''Creating TPG '' @ str_of_int (tpg_tag g) @ '' LUN index '' @ str_of_int n @ '' failed'' @ '', skipped'']\<rparr>)"
  using assms
  by (simp add: LUN_setup_def bindM_def catchM_def seqM_def lift_def ret_def setup_error_def ignored_def the_or_def raise_def
      err_collect_def modify_def)

lemma found_cases:
  assumes "case x of (Ok (Some a), s) \<Rightarrow> (case fst (f a s) of Err e \<Rightarrow> P e | _ \<Rightarrow> False) | _ \<Rightarrow> False"
  obtains a s e t where "x = (Ok (Some a), s)" and "f a s = (Err e, t)" and "P e"
  proof -
  obtain r s where x: "x = (r, s)" by (cases x)
  with assms obtain a where a: "r = Ok (Some a)" by (auto split: res.splits option.splits)
  with assms x obtain e where "fst (f a s) = Err e" "P e" by (auto split: res.splits)
  then show ?thesis using that x a by (metis prod.collapse)
qed

theorem lun_setup_unbound_witness:
  "\<exists>w'. LUN_setup lio demo_tpg [(''index'', PInt 3), (''storage_object'', PStr ''/backstores/fileio/d''), (''alias'', PStr ''a/b''),
       (''alua_tg_pt_gp_name'', PStr ''default_tg_pt_gp'')] err_collect demo_world = (Err (UnboundLocalErr ''lun_obj''), w')"
proof -
  let ?d = "[(''index'', PInt 3), (''storage_object'', PStr ''/backstores/fileio/d''), (''alias'', PStr ''a/b''), (''alua_tg_pt_gp_name'', PStr ''default_tg_pt_gp'')]"
  let ?find = "find_first (so_all lio) (\<lambda>so. ret (so_name so = ''d'' \<and> so_plugin so = ''fileio'')) demo_world"
  let ?init = "\<lambda>so. LUN_init lio demo_tpg (PInt 3) (Some so) (dict_get ?d ''alias'' PNone)"
  have "case ?find of (Ok (Some so), w1) \<Rightarrow> (case fst (?init so w1) of Err e \<Rightarrow> is_rtslib_error e | _ \<Rightarrow> False) | _ \<Rightarrow> False"
    by code_simp
  then obtain so w1 e w2 where find: "?find = (Ok (Some so), w1)" and init: "?init so w1 = (Err e, w2)" and e: "is_rtslib_error e"
    by (rule found_cases)
  have "map_of ?d ''index'' = Some (PInt 3)" "so_field ?d = Some (''fileio'', ''d'')"
    "map_of ?d ''alua_tg_pt_gp_name'' = Some (PStr ''default_tg_pt_gp'')" by code_simp+
  from lun_setup_unbound [OF this find init e] show ?thesis by blast
qed

end
