(* ===== verification/AclGroups.thy ===== *)
theory AclGroups
  imports TargetSetup
begin

text \<open>
  \<^verbatim>\<open>target.py\<close>, the groups: node ACLs of a portal group that share a tag (\<^verbatim>\<open>NodeACLGroup\<close>), and the mapped
  LUNs with one index across such a group (\<^verbatim>\<open>MappedLUNGroup\<close>). A group keeps no members of its own: the
  listing of its members is computed from configfs whenever it is used, which is why the methods of the base
  class \<^verbatim>\<open>Group\<close> take that listing (\<^verbatim>\<open>_mem_func\<close>) as an argument.
\<close>

section \<open>The base class\<close>

definition get_first_member :: "(world, 'm, 'm option) gen \<Rightarrow> 'm W" where
  "get_first_member mem_func =
     bindM (find_first mem_func (\<lambda>_. ret True)) (\<lambda>m. the_or (IndexErr ''Group is empty'') m)"

definition group_get_prop :: "(world, 'm, 'm option) gen \<Rightarrow> ('m \<Rightarrow> 'v W) \<Rightarrow> 'v W" where
  "group_get_prop mem_func get = bindM (get_first_member mem_func) get"

definition group_set_prop :: "(world, 'm, unit) gen \<Rightarrow> ('m \<Rightarrow> 'v \<Rightarrow> unit W) \<Rightarrow> 'v \<Rightarrow> unit W" where
  "group_set_prop mem_func setter value = for_each mem_func (\<lambda>mem. setter mem value)"

text \<open>The members are node ACLs or mapped LUNs: what they are as configfs nodes is their class name and path.\<close>

definition group_list_attributes ::
  "(world, 'm, 'm option) gen \<Rightarrow> ('m \<Rightarrow> string \<times> path) \<Rightarrow> bool option \<Rightarrow> bool option \<Rightarrow> string list W" where
  "group_list_attributes mem_func node writable readable =
     bindM (get_first_member mem_func) (\<lambda>m. list_attributes (fst (node m)) (snd (node m)) writable readable)"

definition group_list_parameters ::
  "(world, 'm, 'm option) gen \<Rightarrow> ('m \<Rightarrow> string \<times> path) \<Rightarrow> bool option \<Rightarrow> bool option \<Rightarrow> string list W" where
  "group_list_parameters mem_func node writable readable =
     bindM (get_first_member mem_func) (\<lambda>m. list_parameters (fst (node m)) (snd (node m)) writable readable)"

definition group_set_attribute ::
  "env \<Rightarrow> (world, 'm, unit) gen \<Rightarrow> ('m \<Rightarrow> string \<times> path) \<Rightarrow> string \<Rightarrow> pyval \<Rightarrow> unit W" where
  "group_set_attribute K mem_func node attribute value =
     for_each mem_func (\<lambda>m. set_attribute K (fst (node m)) (snd (node m)) attribute value)"

definition group_set_parameter ::
  "env \<Rightarrow> (world, 'm, unit) gen \<Rightarrow> ('m \<Rightarrow> string \<times> path) \<Rightarrow> string \<Rightarrow> pyval \<Rightarrow> unit W" where
  "group_set_parameter K mem_func node parameter value =
     for_each mem_func (\<lambda>m. set_parameter K (fst (node m)) (snd (node m)) parameter value)"

definition group_get_attribute ::
  "(world, 'm, 'm option) gen \<Rightarrow> ('m \<Rightarrow> string \<times> path) \<Rightarrow> string \<Rightarrow> string W" where
  "group_get_attribute mem_func node attribute =
     bindM (get_first_member mem_func) (\<lambda>m. get_attribute (fst (node m)) (snd (node m)) attribute)"

definition group_get_parameter ::
  "(world, 'm, 'm option) gen \<Rightarrow> ('m \<Rightarrow> string \<times> path) \<Rightarrow> string \<Rightarrow> string W" where
  "group_get_parameter mem_func node parameter =
     bindM (get_first_member mem_func) (\<lambda>m. get_parameter (fst (node m)) (snd (node m)) parameter)"

definition group_delete :: "(world, 'm, unit) gen \<Rightarrow> ('m \<Rightarrow> unit W) \<Rightarrow> unit W" where
  "group_delete mem_func delete = for_each mem_func delete"

definition group_exists :: "(world, 'm, 'm option) gen \<Rightarrow> bool W" where
  "group_exists mem_func = any_gen mem_func"

section \<open>Groups of node ACLs\<close>

record node_acl_group =
  nag_name :: string
  nag_tpg :: tpg

definition check_group_name :: "string \<Rightarrow> exn + unit" where
  "check_group_name name =
     (if CHR ''.'' \<in> set name then Inl (RTSLibError ([CHR 0x27, CHR ''.'', CHR 0x27] @ '' not permitted in group names.''))
      else Inr ())"

definition NodeACLGroup_init :: "tpg \<Rightarrow> string \<Rightarrow> node_acl_group W" where
  "NodeACLGroup_init g name =
     seqM (lift (check_group_name name)) (ret \<lparr>nag_name = name, nag_tpg = g\<rparr>)"

text \<open>The members: the node ACLs of the portal group whose tag is the group's name.\<close>

definition nag_node_acls :: "env \<Rightarrow> node_acl_group \<Rightarrow> (world, node_acl, 'c) gen" where
  "nag_node_acls K nag body c =
     list_node_acls K (nag_tpg nag) (\<lambda>na c'.
       bindM (get_tag na) (\<lambda>tag. if tag = Some (nag_name nag) then body na c' else ret (Next c'))) c"

definition nag_set_name :: "env \<Rightarrow> node_acl_group \<Rightarrow> string \<Rightarrow> node_acl_group W" where
  "nag_set_name K nag name =
     seqM (lift (check_group_name name))
       (seqM (for_each (nag_node_acls K nag) (\<lambda>na. set_tag K na (PStr name)))
          (ret (nag\<lparr>nag_name := name\<rparr>)))"

text \<open>Two nodes are equal when their paths are. \<^verbatim>\<open>finally\<close> sets the tag whatever the copying raised; what setting it raises wins.\<close>

definition finallyM :: "'a W \<Rightarrow> unit W \<Rightarrow> 'a W" where
  "finallyM m f = bindM (catchM (bindM m (\<lambda>a. ret (Inr a))) (\<lambda>e. ret (Inl e))) (\<lambda>r.
     seqM f (case r of Inr a \<Rightarrow> ret a | Inl e \<Rightarrow> raise e))"

definition nag_copy :: "env \<Rightarrow> node_acl \<Rightarrow> node_acl \<Rightarrow> unit W" where
  "nag_copy K model nacl =
     seqM (for_each (na_list_mapped_luns K nacl) (MappedLUN_delete K))
     (seqM (for_each (na_list_mapped_luns K model) (\<lambda>ml.
        bindM (get_tpg_lun K ml) (\<lambda>l. bindM (get_write_protect ml) (\<lambda>prot.
          seqM (MappedLUN_init K nacl (PInt (ml_lun ml)) (Some (Inr l)) (PBool prot) PNone) (ret ())))))
     (seqM (bindM (list_attributes ''NodeACL'' (na_path model) (Some True) None) (\<lambda>items.
        for_each (iter items) (\<lambda>item. bindM (get_attribute ''NodeACL'' (na_path model) item) (\<lambda>v.
          set_attribute K ''NodeACL'' (na_path nacl) item (PStr v)))))
       (bindM (list_parameters ''NodeACL'' (na_path model) (Some True) None) (\<lambda>items.
        for_each (iter items) (\<lambda>item. bindM (get_parameter ''NodeACL'' (na_path model) item) (\<lambda>v.
          set_parameter K ''NodeACL'' (na_path nacl) item (PStr v)))))))"

definition nag_add_acl :: "env \<Rightarrow> node_acl_group \<Rightarrow> string \<Rightarrow> unit W" where
  "nag_add_acl K nag node_wwn =
     bindM (NodeACL_init K (nag_tpg nag) node_wwn ''any'') (\<lambda>nacl.
     bindM (find_first (nag_node_acls K nag) (\<lambda>na. ret (na_path na = na_path nacl))) (\<lambda>member.
       if member \<noteq> None then ret ()
       else finallyM
         (bindM (find_first (nag_node_acls K nag) (\<lambda>_. ret True)) (\<lambda>model.
            case model of None \<Rightarrow> ret () | Some m \<Rightarrow> nag_copy K m nacl))
         (set_tag K nacl (PStr (nag_name nag)))))"

definition nag_remove_acl :: "env \<Rightarrow> node_acl_group \<Rightarrow> string \<Rightarrow> unit W" where
  "nag_remove_acl K nag node_wwn =
     bindM (NodeACL_init K (nag_tpg nag) node_wwn ''lookup'') (NodeACL_delete K)"

definition nag_wwns :: "env \<Rightarrow> node_acl_group \<Rightarrow> string list W" where
  "nag_wwns K nag = collect (nag_node_acls K nag) (\<lambda>na. ret (na_wwn na))"

definition nag_has_feature :: "node_acl_group \<Rightarrow> string \<Rightarrow> bool" where
  "nag_has_feature nag feature = tpg_has_feature (nag_tpg nag) feature"

definition nag_sessions :: "env \<Rightarrow> node_acl_group \<Rightarrow> (world, session, 'c) gen" where
  "nag_sessions K nag body c =
     nag_node_acls K nag (\<lambda>na c'. bindM (get_session na) (\<lambda>s.
       case s of Some se \<Rightarrow> if session_truthy s then body se c' else ret (Next c') | None \<Rightarrow> ret (Next c'))) c"

text \<open>The \<^verbatim>\<open>chap_\<close> properties of all members, or of the member of one name.\<close>

definition nag_get_chap :: "env \<Rightarrow> node_acl_group \<Rightarrow> string \<Rightarrow> (string \<times> string option) list W" where
  "nag_get_chap K nag name =
     collect (nag_node_acls K nag) (\<lambda>na.
       bindM (the_or (AttributeErr (''chap_'' @ name)) (chap_file name)) (\<lambda>file.
         bindM (na_get_auth na file) (\<lambda>v. ret (na_wwn na, v))))"

definition nag_set_chap :: "env \<Rightarrow> node_acl_group \<Rightarrow> string \<Rightarrow> pyval \<Rightarrow> string option \<Rightarrow> unit W" where
  "nag_set_chap K nag name value wwn =
     seqM (nag_node_acls K nag (\<lambda>na c.
       if wwn = None \<or> wwn = Some '''' then seqM (na_setattr K na (''chap_'' @ name) value) (ret (Next ()))
       else if wwn = Some (na_wwn na) then seqM (na_setattr K na (''chap_'' @ name) value) (ret (Break ()))
       else ret (Next ())) ()) (ret ())"

definition nag_get_tcq_depth :: "env \<Rightarrow> node_acl_group \<Rightarrow> string W" where
  "nag_get_tcq_depth K nag = group_get_prop (nag_node_acls K nag) get_tcq_depth"

definition nag_set_tcq_depth :: "env \<Rightarrow> node_acl_group \<Rightarrow> pyval \<Rightarrow> unit W" where
  "nag_set_tcq_depth K nag value = group_set_prop (nag_node_acls K nag) (set_tcq_depth K) value"

definition nag_authenticate_target :: "env \<Rightarrow> node_acl_group \<Rightarrow> bool W" where
  "nag_authenticate_target K nag = group_get_prop (nag_node_acls K nag) na_authenticate_target"

definition nag_delete :: "env \<Rightarrow> node_acl_group \<Rightarrow> unit W" where
  "nag_delete K nag = group_delete (nag_node_acls K nag) (NodeACL_delete K)"

text \<open>
  The groups of a portal group: \<^verbatim>\<open>None\<close> without the \<open>acls\<close> feature, else a generator that makes one group for each tag in
  use (a Python set, here in the order in which the tags are first seen).
\<close>

definition list_node_acl_groups :: "env \<Rightarrow> tpg \<Rightarrow> string list option W" where
  "list_node_acl_groups K g =
     seqM (tpg_check g)
       (if \<not> tpg_has_feature g ''acls'' then ret None
        else bindM (collect (list_node_acls K g) get_tag) (\<lambda>tags.
          ret (Some (remdups (concat (map (\<lambda>t. case t of Some s \<Rightarrow> if s \<noteq> '''' then [s] else [] | None \<Rightarrow> []) tags))))))"

definition iter_node_acl_groups :: "tpg \<Rightarrow> string list \<Rightarrow> (world, node_acl_group, 'c) gen" where
  "iter_node_acl_groups g names body c =
     iter names (\<lambda>n c'. bindM (NodeACLGroup_init g n) (\<lambda>nag. body nag c')) c"

section \<open>Groups of mapped LUNs\<close>

record mapped_lun_group =
  mlg_nag :: node_acl_group
  mlg_lun :: pyval

definition MappedLUNGroup_init ::
  "env \<Rightarrow> node_acl_group \<Rightarrow> pyval \<Rightarrow> (pyval + lun) option \<Rightarrow> pyval \<Rightarrow> mapped_lun_group W" where
  "MappedLUNGroup_init K nag mapped_lun tpg_lun write_protect =
     seqM (for_each (nag_node_acls K nag) (\<lambda>na.
             seqM (MappedLUN_init K na mapped_lun tpg_lun write_protect PNone) (ret ())))
       (ret \<lparr>mlg_nag = nag, mlg_lun = mapped_lun\<rparr>)"

definition mlg_mapped_luns :: "env \<Rightarrow> mapped_lun_group \<Rightarrow> (world, mapped_lun, 'c) gen" where
  "mlg_mapped_luns K mlg body c =
     nag_node_acls K (mlg_nag mlg) (\<lambda>na c'.
       na_list_mapped_luns K na (\<lambda>ml c''.
         if py_eq_int (mlg_lun mlg) (ml_lun ml) then body ml c'' else ret (Next c'')) c') c"

definition nag_mapped_lun_group ::
  "env \<Rightarrow> node_acl_group \<Rightarrow> pyval \<Rightarrow> (pyval + lun) option \<Rightarrow> pyval \<Rightarrow> mapped_lun_group W" where
  "nag_mapped_lun_group K nag mapped_lun tpg_lun write_protect =
     MappedLUNGroup_init K nag mapped_lun tpg_lun write_protect"

definition nag_mapped_lun_groups :: "env \<Rightarrow> node_acl_group \<Rightarrow> (world, mapped_lun_group, 'c) gen" where
  "nag_mapped_lun_groups K nag body c =
     bindM (find_first (nag_node_acls K nag) (\<lambda>_. ret True)) (\<lambda>first.
       case first of
         None \<Rightarrow> ret (Next c)
       | Some na \<Rightarrow> na_list_mapped_luns K na (\<lambda>ml c'.
           bindM (MappedLUNGroup_init K nag (PInt (ml_lun ml)) None PNone) (\<lambda>mlg. body mlg c')) c)"

definition mlg_get_write_protect :: "env \<Rightarrow> mapped_lun_group \<Rightarrow> bool W" where
  "mlg_get_write_protect K mlg = group_get_prop (mlg_mapped_luns K mlg) get_write_protect"

definition mlg_set_write_protect :: "env \<Rightarrow> mapped_lun_group \<Rightarrow> pyval \<Rightarrow> unit W" where
  "mlg_set_write_protect K mlg value = group_set_prop (mlg_mapped_luns K mlg) (\<lambda>ml v. set_write_protect K ml (truthy v)) value"

definition mlg_get_tpg_lun :: "env \<Rightarrow> mapped_lun_group \<Rightarrow> lun W" where
  "mlg_get_tpg_lun K mlg = group_get_prop (mlg_mapped_luns K mlg) (get_tpg_lun K)"

definition mlg_delete :: "env \<Rightarrow> mapped_lun_group \<Rightarrow> unit W" where
  "mlg_delete K mlg = group_delete (mlg_mapped_luns K mlg) (MappedLUN_delete K)"

subsection \<open>The CHAP accessors of a group\<close>

definition get_userids :: "env \<Rightarrow> node_acl_group \<Rightarrow> (string \<times> string option) list W" where
  "get_userids K nag = nag_get_chap K nag ''userid''"

definition set_userids :: "env \<Rightarrow> node_acl_group \<Rightarrow> pyval \<Rightarrow> string option \<Rightarrow> unit W" where
  "set_userids K nag value wwn = nag_set_chap K nag ''userid'' value wwn"

definition get_passwords :: "env \<Rightarrow> node_acl_group \<Rightarrow> (string \<times> string option) list W" where
  "get_passwords K nag = nag_get_chap K nag ''password''"

definition set_passwords :: "env \<Rightarrow> node_acl_group \<Rightarrow> pyval \<Rightarrow> string option \<Rightarrow> unit W" where
  "set_passwords K nag value wwn = nag_set_chap K nag ''password'' value wwn"

definition get_mutual_userids :: "env \<Rightarrow> node_acl_group \<Rightarrow> (string \<times> string option) list W" where
  "get_mutual_userids K nag = nag_get_chap K nag ''mutual_userid''"

definition set_mutual_userids :: "env \<Rightarrow> node_acl_group \<Rightarrow> pyval \<Rightarrow> string option \<Rightarrow> unit W" where
  "set_mutual_userids K nag value wwn = nag_set_chap K nag ''mutual_userid'' value wwn"

definition get_mutual_passwords :: "env \<Rightarrow> node_acl_group \<Rightarrow> (string \<times> string option) list W" where
  "get_mutual_passwords K nag = nag_get_chap K nag ''mutual_password''"

definition set_mutual_passwords :: "env \<Rightarrow> node_acl_group \<Rightarrow> pyval \<Rightarrow> string option \<Rightarrow> unit W" where
  "set_mutual_passwords K nag value wwn = nag_set_chap K nag ''mutual_password'' value wwn"

section \<open>Which paths a method touches\<close>

lemma get_tag_stays [pres]: "stays (frame A) (get_tag na)"
  unfolding get_tag_def by (intro fr.comb fr.base pres)

lemma get_write_protect_stays [pres]: "stays (frame A) (get_write_protect ml)"
  unfolding get_write_protect_def by (intro fr.comb fr.base pres)

lemma get_tpg_lun_stays [pres]: "stays (frame A) (get_tpg_lun K ml)"
  unfolding get_tpg_lun_def by (intro fr.comb fr.base pres list_luns_stays)

lemma nag_node_acls_stays:
  assumes "\<And>na c. na_tpg na = nag_tpg nag \<and> strict_prefix (tpg_path (nag_tpg nag)) (na_path na) \<Longrightarrow> stays (frame A) (body na c)"
  shows "stays (frame A) (nag_node_acls K nag body c)"
  unfolding nag_node_acls_def by (intro fr.comb fr.base pres list_node_acls_stays assms)

lemma finallyM_stays: "stays (frame A) m \<Longrightarrow> stays (frame A) f \<Longrightarrow> stays (frame A) (finallyM m f)"
  unfolding finallyM_def by (intro fr.comb fr.base)

context configfs
begin

lemma nag_copy_stays:
  assumes "below (na_path nacl) A"
  shows "stays (frame A) (nag_copy K model nacl)"
proof -
  have del: "stays (frame A) (for_each (na_list_mapped_luns K nacl) (MappedLUN_delete K))"
    by (intro each_mapped_lun_stays MappedLUN_delete_stays below_down [OF assms]) simp
  have new: "stays (frame A) (for_each (na_list_mapped_luns K model) (\<lambda>ml.
        bindM (get_tpg_lun K ml) (\<lambda>l. bindM (get_write_protect ml) (\<lambda>prot.
          seqM (MappedLUN_init K nacl (PInt (ml_lun ml)) (Some (Inr l)) (PBool prot) PNone) (ret ())))))"
    by (intro each_mapped_lun_stays fr.comb fr.base pres MappedLUN_init_stays assms)
  show ?thesis
    unfolding nag_copy_def
    by (rule fr.seqM_stays [OF del], rule fr.seqM_stays [OF new])
      (intro fr.seqM_stays fr.bindM_stays fr.for_each_stays fr.iter_stays pres set_attribute_stays set_parameter_stays)
qed

lemma set_tag_stays: "stays (frame A) (set_tag K na v)"
  unfolding set_tag_def by (intro fr.comb fr.base pres fwrite_stays)

end

section \<open>Properties\<close>

text \<open>
  Joining a group touches one node ACL. Adding an initiator to a group, whatever the outcome, changes the shape of
  nothing but the directory of that initiator's node ACL: the other members, from one of which the
  configuration is copied, and the LUNs stay as they are.
\<close>

theorem nag_add_acl_frame:
  assumes "configfs K" and "normalize_wwn (fm_wwn_types (tgt_fm (tpg_target (nag_tpg nag)))) node_wwn = Inr (name, t)"
  shows "stays (frame (prefix (pjoin (tpg_path (nag_tpg nag) @ [''acls'']) (to_fabric_wwn (tgt_fm (tpg_target (nag_tpg nag))) name))))
    (nag_add_acl K nag node_wwn)"
proof -
  let ?p = "pjoin (tpg_path (nag_tpg nag) @ [''acls'']) (to_fabric_wwn (tgt_fm (tpg_target (nag_tpg nag))) name)"
  have below: "below ?p (prefix ?p)" by (simp add: below_prefix)
  have init: "NodeACL_init K (nag_tpg nag) node_wwn ''any'' = seqM (create_in_cfs_ine K ''NodeACL'' ?p ''any'')
      (ret \<lparr>na_tpg = nag_tpg nag, na_wwn = name, na_wwn_type = t, na_path = ?p\<rparr>)"
    by (simp add: NodeACL_init_def assms(2) Let_def lift_def bindM_ret)
  show ?thesis
    unfolding nag_add_acl_def
  proof (rule fr.bindM_stays_on [where P = "\<lambda>na. na_path na = ?p"])
    show "stays (frame (prefix ?p)) (NodeACL_init K (nag_tpg nag) node_wwn ''any'')"
      unfolding init by (intro fr.seqM_stays fr.base configfs.create_below [OF assms(1) below])
    show "yields (\<lambda>na. na_path na = ?p) (NodeACL_init K (nag_tpg nag) node_wwn ''any'')"
      unfolding init by (intro yields_seqM yields_ret) simp
  next
    fix nacl :: node_acl assume "na_path nacl = ?p"
    then have "below (na_path nacl) (prefix ?p)" using below by simp
    note copy = configfs.nag_copy_stays [OF assms(1) this]
    show "stays (frame (prefix ?p)) (bindM (find_first (nag_node_acls K nag) (\<lambda>na. ret (na_path na = na_path nacl))) (\<lambda>member.
       if member \<noteq> None then ret ()
       else finallyM (bindM (find_first (nag_node_acls K nag) (\<lambda>_. ret True)) (\<lambda>model.
            case model of None \<Rightarrow> ret () | Some m \<Rightarrow> nag_copy K m nacl))
         (set_tag K nacl (PStr (nag_name nag)))))"
      by (intro fr.bindM_stays fr.if_stays fr.option_stays fr.find_first_stays fr.base nag_node_acls_stays finallyM_stays
          copy configfs.set_tag_stays [OF assms(1)])
  qed
qed

definition demo_group :: node_acl_group where
  "demo_group = \<lparr>nag_name = ''grp'', nag_tpg = demo_tpg\<rparr>"

definition demo_group_world :: world where
  "demo_group_world = demo_world\<lparr>fs := fs demo_world @ [(na_path demo_acl, Dir), (na_path demo_acl @ [''tag''], File 420 (Inr ''grp'')),
     (na_path demo_acl @ [''attrib''], Dir), (na_path demo_acl @ [''attrib'', ''nopin_timeout''], File 420 (Inr ''30''))]\<rparr>"

theorem nag_add_acl_frame_witness:
  "stays (frame (prefix (tpg_path demo_tpg @ [''acls'', ''iqn.1994-05.com.x:d'']))) (nag_add_acl lio demo_group ''iqn.1994-05.com.x:d'')"
proof -
  have "normalize_wwn (fm_wwn_types (tgt_fm (tpg_target (nag_tpg demo_group)))) ''iqn.1994-05.com.x:d'' =
      Inr (''iqn.1994-05.com.x:d'', ''iqn'')" by code_simp
  note nag_add_acl_frame [OF lio_fs.configfs_axioms this]
  moreover have "pjoin (tpg_path (nag_tpg demo_group) @ [''acls'']) (to_fabric_wwn (tgt_fm (tpg_target (nag_tpg demo_group))) ''iqn.1994-05.com.x:d'')
      = tpg_path demo_tpg @ [''acls'', ''iqn.1994-05.com.x:d'']" by code_simp
  ultimately show ?thesis by simp
qed

text \<open>
  C25. Joining a group ends in the group. When the initiator is no member yet, the configuration of the first member is
  copied, and whether or not the copying raised, the tag is written last: the outcome is that of the copying, and the
  node ACL's tag reads as the group's name, which makes it a member.
\<close>

theorem nag_add_acl_joins:
  assumes "configfs K" and "NodeACL_init K (nag_tpg nag) node_wwn ''any'' w = (Ok nacl, w1)"
    and "find_first (nag_node_acls K nag) (\<lambda>na. ret (na_path na = na_path nacl)) w1 = (Ok None, w2)"
    and "find_first (nag_node_acls K nag) (\<lambda>_. ret True) w2 = (Ok (Some model), w3)" and "nag_copy K model nacl w3 = (r, w4)"
    and "fwrite K (na_path nacl @ [''tag'']) (nag_name nag) w4 = (Ok (), w5)"
    and "echoes K (na_path nacl @ [''tag'']) (fs w4)" and "is_dir (fs w4) (na_path nacl)"
    and "strip (nag_name nag) = nag_name nag" and "nag_name nag \<noteq> []"
  shows "nag_add_acl K nag node_wwn w = (r, w5) \<and> get_tag nacl w5 = (Ok (Some (nag_name nag)), w5)"
proof -
  have "is_dir (fs w5) (na_path nacl)"
    using staysD [OF configfs.fwrite_stays [OF assms(1)] assms(6), of no_shape] assms(8) by (simp add: frame_no_shape_is_dir)
  then have "get_tag nacl w5 = (Ok (Some (nag_name nag)), w5)"
    using fread_after_fwrite [OF assms(7,6)] assms(9,10)
    by (simp add: get_tag_def na_check_def check_self_def exists_def is_dirM_def gets_def seqM_def bindM_def catchM_def ret_def)
  moreover have "nag_add_acl K nag node_wwn w = (r, w5)"
    using assms(2-6)
    by (cases r) (simp_all add: nag_add_acl_def finallyM_def set_tag_def ignored_def bindM_def seqM_def catchM_def ret_def raise_def)
  ultimately show ?thesis by blast
qed

theorem nag_add_acl_joins_witness:
  "\<exists>(nacl :: node_acl) w'. nag_add_acl lio demo_group ''iqn.1994-05.com.x:d'' demo_group_world = (Ok (), w') \<and>
     na_wwn nacl = ''iqn.1994-05.com.x:d'' \<and> get_tag nacl w' = (Ok (Some ''grp''), w')"
proof -
  let ?nacl = "\<lparr>na_tpg = demo_tpg, na_wwn = ''iqn.1994-05.com.x:d'', na_wwn_type = ''iqn'',
     na_path = tpg_path demo_tpg @ [''acls'', ''iqn.1994-05.com.x:d'']\<rparr>"
  let ?other = "find_first (nag_node_acls lio demo_group) (\<lambda>na. ret (na_path na = na_path ?nacl))"
  let ?first = "find_first (nag_node_acls lio demo_group) (\<lambda>_. ret True)"
  obtain w1 w2 w3 w4 w5 where steps: "snd (NodeACL_init lio demo_tpg ''iqn.1994-05.com.x:d'' ''any'' demo_group_world) = w1"
    "snd (?other w1) = w2" "snd (?first w2) = w3" "snd (nag_copy lio demo_acl ?nacl w3) = w4"
    "snd (fwrite lio (na_path ?nacl @ [''tag'']) ''grp'' w4) = w5" by blast
  have "case NodeACL_init lio demo_tpg ''iqn.1994-05.com.x:d'' ''any'' demo_group_world of (a, w1) \<Rightarrow> a = Ok ?nacl \<and>
      (case ?other w1 of (b, w2) \<Rightarrow> b = Ok None \<and> (case ?first w2 of (c, w3) \<Rightarrow> c = Ok (Some demo_acl) \<and>
        (case nag_copy lio demo_acl ?nacl w3 of (d, w4) \<Rightarrow> d = Ok () \<and> is_dir (fs w4) (na_path ?nacl) \<and>
          fst (fwrite lio (na_path ?nacl @ [''tag'']) ''grp'' w4) = Ok ())))"
    by code_simp
  then have run: "NodeACL_init lio (nag_tpg demo_group) ''iqn.1994-05.com.x:d'' ''any'' demo_group_world = (Ok ?nacl, w1)"
    "?other w1 = (Ok None, w2)" "?first w2 = (Ok (Some demo_acl), w3)" "nag_copy lio demo_acl ?nacl w3 = (Ok (), w4)"
    "fwrite lio (na_path ?nacl @ [''tag'']) (nag_name demo_group) w4 = (Ok (), w5)" and dir: "is_dir (fs w4) (na_path ?nacl)"
    using steps by (simp_all add: demo_group_def prod_eq_iff split: prod.splits)
  have "echoes lio (na_path ?nacl @ [''tag'']) (fs w4)" by (rule echoes_lio) simp
  moreover have "strip (nag_name demo_group) = nag_name demo_group" "nag_name demo_group \<noteq> []" "nag_name demo_group = ''grp''" by code_simp+
  ultimately show ?thesis
    using nag_add_acl_joins [OF lio_fs.configfs_axioms run _ dir]
    by (intro exI [of _ ?nacl] exI [of _ w5]) simp
qed

end
