(* ===== verification/Root.thy ===== *)
theory Root
  imports AclGroups
begin

text \<open>
  \<^verbatim>\<open>root.py\<close>: the root of the tree. It lists everything below it, dumps the whole configuration, clears it and
  restores it, either collecting the errors or stopping at the first one, all of it or one target or one storage
  object. The optional names \<^verbatim>\<open>target\<close> and \<^verbatim>\<open>storage_object\<close> are strings, empty when they are not given.
\<close>

section \<open>Listings\<close>

definition root_targets :: "env \<Rightarrow> (world, target, 'c) gen" where
  "root_targets K body c = seqM root_check (list_fabric_modules (\<lambda>fm c'. fm_list_targets K fm body c') c)"

definition root_storage_objects :: "env \<Rightarrow> (world, storage_object, 'c) gen" where
  "root_storage_objects K body c = seqM root_check (so_all K body c)"

definition root_alua_tpgs :: "env \<Rightarrow> (world, alua_tpg, 'c) gen" where
  "root_alua_tpgs K body c = seqM root_check (root_storage_objects K (\<lambda>so c'. list_alua_tpgs K so body c') c)"

definition root_tpgs :: "env \<Rightarrow> (world, tpg, 'c) gen" where
  "root_tpgs K body c = seqM root_check (root_targets K (\<lambda>t c'. list_tpgs K t body c') c)"

definition root_node_acls :: "env \<Rightarrow> (world, node_acl, 'c) gen" where
  "root_node_acls K body c = seqM root_check (root_tpgs K (\<lambda>g c'. list_node_acls K g body c') c)"

text \<open>\<^verbatim>\<open>yield from None\<close> is a type error: a portal group without the \<open>acls\<close> feature ends this listing.\<close>

definition root_node_acl_groups :: "env \<Rightarrow> (world, node_acl_group, 'c) gen" where
  "root_node_acl_groups K body c =
     seqM root_check (root_tpgs K (\<lambda>g c'. bindM (list_node_acl_groups K g) (\<lambda>names.
       case names of
         None \<Rightarrow> raise (TypeErr ''NoneType object is not iterable'')
       | Some ns \<Rightarrow> iter_node_acl_groups g ns body c')) c)"

definition root_mapped_luns :: "env \<Rightarrow> (world, mapped_lun, 'c) gen" where
  "root_mapped_luns K body c = seqM root_check (root_node_acls K (\<lambda>na c'. na_list_mapped_luns K na body c') c)"

definition root_mapped_lun_groups :: "env \<Rightarrow> (world, mapped_lun_group, 'c) gen" where
  "root_mapped_lun_groups K body c =
     seqM root_check (root_node_acl_groups K (\<lambda>nag c'. nag_mapped_lun_groups K nag body c') c)"

definition root_network_portals :: "env \<Rightarrow> (world, portal, 'c) gen" where
  "root_network_portals K body c = seqM root_check (root_tpgs K (\<lambda>g c'. list_network_portals K g body c') c)"

definition root_luns :: "env \<Rightarrow> (world, lun, 'c) gen" where
  "root_luns K body c = seqM root_check (root_tpgs K (\<lambda>g c'. list_luns K g body c') c)"

text \<open>The session is read twice: for the test and for the value that is yielded.\<close>

definition root_sessions :: "env \<Rightarrow> (world, session option, 'c) gen" where
  "root_sessions K body c =
     seqM root_check (root_node_acls K (\<lambda>na c'.
       bindM (get_session na) (\<lambda>s.
         if session_truthy s then bindM (get_session na) (\<lambda>s'. body s' c') else ret (Next c'))) c)"

section \<open>Dump\<close>

definition root_dump :: "env \<Rightarrow> pydict W" where
  "root_dump K =
     bindM (node_dump ''RTSRoot'' configfs_dir) (\<lambda>d.
     bindM (collect (root_storage_objects K) (\<lambda>so. bindM (so_dump K so) (\<lambda>x. ret (PDict x)))) (\<lambda>sos.
     bindM (collect (root_targets K) (\<lambda>t. bindM (Target_dump K t) (\<lambda>x. ret (PDict x)))) (\<lambda>tgs.
     bindM (collect list_fabric_modules (\<lambda>f.
         if fm_has_feature f ''discovery_auth''
         then bindM (get_discovery_enable_auth K f) (\<lambda>en.
           if en then bindM (fm_dump K f) (\<lambda>x. ret [PDict x]) else ret [])
         else ret [])) (\<lambda>fms.
       ret (d @ [(''storage_objects'', PList sos), (''targets'', PList tgs), (''fabric_modules'', PList (concat fms))])))))"

section \<open>Clearing\<close>

text \<open>Is an object selected, when one name may have been given for its kind and one for the other kind?\<close>

definition selected :: "string \<Rightarrow> string \<Rightarrow> bool \<Rightarrow> bool" where
  "selected own other eq = (own = '''' \<and> other = '''' \<or> own \<noteq> '''' \<and> eq)"

definition clear_hbas :: "env \<Rightarrow> unit W" where
  "clear_hbas K = bindM (gets (\<lambda>w. if is_dir (fs w) core_dir
       then filter (\<lambda>h. CHR ''_'' \<in> set h) (children (fs w) (realpath (fs w) core_dir)) else []))
     (\<lambda>hbas. for_each (iter hbas) (\<lambda>h. rmdir K (core_dir @ [h])))"

definition clear_existing :: "env \<Rightarrow> string \<Rightarrow> string \<Rightarrow> bool \<Rightarrow> unit W" where
  "clear_existing K tgt storage_object confirm =
     (if \<not> confirm then raise (RTSLibError ''As a precaution, confirm=True needs to be set'')
      else
     seqM (root_targets K (\<lambda>t c.
        if selected tgt storage_object (tgt_wwn t = tgt)
        then seqM (Target_delete K t) (ret (if tgt \<noteq> '''' then Break () else Next ()))
        else ret (Next ())) ())
     (seqM (for_each list_fabric_modules (\<lambda>f.
        whenM (fm_has_feature f ''discovery_auth'') (clear_discovery_auth_settings K f)))
     (seqM (root_storage_objects K (\<lambda>so c.
        if selected storage_object tgt (so_name so = storage_object)
        then seqM (so_delete K so) (ret (if storage_object \<noteq> '''' then Break () else Next ()))
        else ret (Next ())) ())
       (whenM (storage_object = '''' \<and> tgt = '''') (clear_hbas K)))))"

section \<open>Restore\<close>

text \<open>\<^verbatim>\<open>d[k]\<close>, and the list \<^verbatim>\<open>config.get(k, [])\<close>.\<close>

definition item :: "pydict \<Rightarrow> string \<Rightarrow> pyval W" where
  "item d k = the_or (KeyErr k) (map_of d k)"

definition config_list :: "pydict \<Rightarrow> string \<Rightarrow> pyval list W" where
  "config_list config k = lift (py_elems (dict_get config k (PList [])))"

text \<open>The refusal to restore over an object that exists.\<close>

definition refuse_so :: "env \<Rightarrow> pydict \<Rightarrow> unit W" where
  "refuse_so K config =
     bindM (config_list config ''storage_objects'') (\<lambda>sos.
       for_each (iter sos) (\<lambda>v. bindM (lift (py_items v)) (\<lambda>config_so.
         for_each (root_storage_objects K) (\<lambda>loaded_so.
           bindM (item config_so ''name'') (\<lambda>name.
             if name = PStr (so_name loaded_so) then
               bindM (item config_so ''plugin'') (\<lambda>plugin.
                 whenM (plugin = PStr (so_plugin loaded_so))
                   (raise (RTSLibError (''storageobject '' @ [CHR 0x27] @ so_plugin loaded_so @ '':'' @ so_name loaded_so @
                      [CHR 0x27] @ '' exist not restoring''))))
             else ret ())))))"

definition refuse_target :: "env \<Rightarrow> pydict \<Rightarrow> unit W" where
  "refuse_target K config =
     bindM (config_list config ''targets'') (\<lambda>tgs.
       for_each (iter tgs) (\<lambda>v. bindM (lift (py_items v)) (\<lambda>config_tg.
         for_each (root_targets K) (\<lambda>loaded_tg.
           bindM (item config_tg ''wwn'') (\<lambda>wwn.
             whenM (wwn = PStr (tgt_wwn loaded_tg))
               (raise (RTSLibError (''target with wwn '' @ tgt_wwn loaded_tg @ '' exist, not restoring'')))))))) "

definition refuse_existing :: "env \<Rightarrow> pydict \<Rightarrow> unit W" where
  "refuse_existing K config =
     bindM (any_gen (root_storage_objects K)) (\<lambda>so1.
     bindM (if so1 then ret True else any_gen (root_targets K)) (\<lambda>some.
       if some then
         seqM (bindM (any_gen (root_storage_objects K)) (\<lambda>so2. whenM so2 (refuse_so K config)))
           (bindM (any_gen (root_targets K)) (\<lambda>tg. whenM tg (refuse_target K config)))
       else ret ()))"

definition plugin_class :: "pydict \<Rightarrow> (so_class option) W" where
  "plugin_class so = (case map_of so ''plugin'' of
      Some (PStr p) \<Rightarrow> ret (map_of so_mapping p)
    | Some (PList _) \<Rightarrow> raise (TypeErr ''unhashable type'')
    | Some (PDict _) \<Rightarrow> raise (TypeErr ''unhashable type'')
    | _ \<Rightarrow> ret None)"

definition is_alua_unsupported :: "exn \<Rightarrow> bool" where
  "is_alua_unsupported e = (case e of RTSLibALUANotSupportedError _ \<Rightarrow> True | _ \<Rightarrow> False)"

text \<open>The attributes and the ALUA groups of a restored storage object. The ALUA setup takes the error function but never calls it.\<close>

definition so_settings :: "env \<Rightarrow> storage_object \<Rightarrow> pydict \<Rightarrow> (string \<Rightarrow> unit W) \<Rightarrow> unit W" where
  "so_settings K so_obj so err_func =
     seqM (bindM (lift (py_items (dict_get so ''attributes'' (PDict [])))) (\<lambda>attrs.
       set_attributes K (set_attribute K (so_cls_name (so_cls so_obj)) (so_path so_obj)) attrs (\<lambda>x.
         bindM (item so ''plugin'') (\<lambda>plugin. bindM (item so ''name'') (\<lambda>name.
           err_func (''Storage Object '' @ py_str plugin @ ''/'' @ py_str name @ '': '' @ x))))))
       (for_dicts (dict_get so ''alua_tpgs'' (PDict [])) (\<lambda>alua_tpg.
          ignored is_alua_unsupported (Alua_setup K so_obj alua_tpg)))"

text \<open>One storage object of the configuration; the result says whether the loop goes on.\<close>

definition restore_so :: "env \<Rightarrow> string \<Rightarrow> string \<Rightarrow> (string \<Rightarrow> unit W) \<Rightarrow> nat \<Rightarrow> pydict \<Rightarrow> unit ctl W" where
  "restore_so K tgt storage_object err_func index so =
     (let leave = ret (if storage_object \<noteq> '''' then Break () else Next ()) in
      case map_of so ''name'' of
        None \<Rightarrow> seqM (err_func ([CHR 0x27] @ ''name'' @ [CHR 0x27] @ '' not defined in storage object '' @ str_of_nat index)) (ret (Next ()))
      | Some name \<Rightarrow>
          if selected storage_object tgt (name = PStr storage_object) then
            bindM (plugin_class so) (\<lambda>cls.
              case cls of
                None \<Rightarrow> seqM (err_func ([CHR 0x27] @ ''plugin'' @ [CHR 0x27] @ '' not defined or invalid in storageobject '' @ py_str name)) leave
              | Some c \<Rightarrow>
                  try_else (so_from_kwargs K c (dict_remove so restore_removes))
                    (\<lambda>e. seqM (err_func (''Could not create StorageObject '' @ py_str name @ '': '' @ exn_str K e)) leave)
                    (\<lambda>so_obj. seqM (so_settings K so_obj so err_func) leave))
          else ret (Next ()))"

definition restore_fm :: "env \<Rightarrow> (string \<Rightarrow> unit W) \<Rightarrow> nat \<Rightarrow> pydict \<Rightarrow> unit W" where
  "restore_fm K err_func index fm =
     (case map_of fm ''name'' of
        None \<Rightarrow> err_func ([CHR 0x27] @ ''name'' @ [CHR 0x27] @ '' not defined in fabricmodule '' @ str_of_nat index)
      | Some name \<Rightarrow>
          seqM (list_fabric_modules (\<lambda>fm_obj c.
            if name = PStr (fm_name fm_obj) then seqM (fm_setup K fm_obj fm err_func) (ret (Break ())) else ret (Next ())) ())
            (ret ()))"

definition restore_target :: "env \<Rightarrow> string \<Rightarrow> string \<Rightarrow> (string \<Rightarrow> unit W) \<Rightarrow> nat \<Rightarrow> pydict \<Rightarrow> unit ctl W" where
  "restore_target K tgt storage_object err_func index t =
     (let leave = ret (if tgt \<noteq> '''' then Break () else Next ()) in
      case map_of t ''wwn'' of
        None \<Rightarrow> seqM (err_func ([CHR 0x27] @ ''wwn'' @ [CHR 0x27] @ '' not defined in target '' @ str_of_nat index)) (ret (Next ()))
      | Some wwn \<Rightarrow>
          if selected tgt storage_object (wwn = PStr tgt) then
            (case map_of t ''fabric'' of
               None \<Rightarrow> seqM (err_func (''target '' @ py_str wwn @ '' missing '' @ [CHR 0x27] @ ''fabric'' @ [CHR 0x27] @ '' field'')) leave
             | Some fabric \<Rightarrow>
                 bindM (find_first list_fabric_modules (\<lambda>f. ret (PStr (fm_name f) = fabric))) (\<lambda>known.
                   if known = None
                   then seqM (err_func (''Unknown fabric '' @ [CHR 0x27] @ py_str fabric @ [CHR 0x27])) leave
                   else bindM (lift (FabricModule (py_str fabric))) (\<lambda>fm_obj.
                     seqM (Target_setup K fm_obj t err_func) leave)))
          else ret (Next ()))"

text \<open>\<^verbatim>\<open>for index, x in enumerate(config.get(k, []))\<close> over dictionaries.\<close>

definition for_entries :: "pydict \<Rightarrow> string \<Rightarrow> (nat \<Rightarrow> pydict \<Rightarrow> unit ctl W) \<Rightarrow> unit W" where
  "for_entries config k body =
     bindM (config_list config k) (\<lambda>xs.
       seqM (iter (enumerate 0 xs) (\<lambda>(i, v) c. bindM (lift (py_items v)) (body i)) ()) (ret ()))"

definition restore_all :: "env \<Rightarrow> pydict \<Rightarrow> string \<Rightarrow> string \<Rightarrow> (string \<Rightarrow> unit W) \<Rightarrow> unit W" where
  "restore_all K config tgt storage_object err_func =
     seqM (for_entries config ''storage_objects'' (restore_so K tgt storage_object err_func))
     (seqM (for_entries config ''fabric_modules'' (\<lambda>i fm. seqM (restore_fm K err_func i fm) (ret (Next ()))))
       (for_entries config ''targets'' (restore_target K tgt storage_object err_func)))"

definition restore :: "env \<Rightarrow> pydict \<Rightarrow> string \<Rightarrow> string \<Rightarrow> bool \<Rightarrow> bool \<Rightarrow> string list W" where
  "restore K config tgt storage_object clear abort_on_error =
     seqM (if clear then clear_existing K tgt storage_object True else refuse_existing K config)
     (seqM (modify (\<lambda>w. w\<lparr>errors := []\<rparr>))
     (seqM (restore_all K config tgt storage_object (if abort_on_error then err_abort else err_collect))
       (gets errors)))"

definition invalidate_caches :: "unit W" where
  "invalidate_caches = modify (\<lambda>w. w\<lparr>bs_cache := []\<rparr>)"

section \<open>Properties\<close>

lemma set_attributes_collects:
  assumes "\<And>x s. wp (err x) (\<lambda>_ _. True) (\<lambda>_ _. False) s"
  shows "wp (set_attributes K (set_attribute K cls p) d err) (\<lambda>_ _. True) (\<lambda>_ _. False) s"
  unfolding set_attributes_def
proof (rule for_each_iter_total)
  fix x :: "string \<times> pyval" and t
  obtain n v where x: "x = (n, v)" by (cases x)
  have "wp (set_attribute K cls p n v) (\<lambda>_ _. True) (\<lambda>e _. is_rtslib_error e) t"
    by (auto simp: set_attribute_def wp is_fileM_def fwrite_def write_text_def Let_def split: sum.splits)
  then show "wp (case x of (n, v) \<Rightarrow> catchM (set_attribute K cls p n v)
      (\<lambda>e. if is_rtslib_error e then err (exn_str K e) else raise e)) (\<lambda>_ _. True) (\<lambda>_ _. False) t"
    unfolding x prod.case wp_catchM by (rule wp_mono) (simp_all add: assms)
qed simp

lemma so_settings_total:
  assumes so: "map_of so ''plugin'' = Some plugin" "map_of so ''name'' = Some name"
    and "case map_of so ''attributes'' of None \<Rightarrow> True | Some v \<Rightarrow> \<exists>a. v = PDict a" and "map_of so ''alua_tpgs'' = None"
  shows "wp (so_settings K so_obj so err_collect) (\<lambda>_ _. True) (\<lambda>_ _. False) s"
proof -
  obtain a where a: "py_items (dict_get so ''attributes'' (PDict [])) = Inr a"
    using assms(3) by (auto simp: dict_get_def split: option.splits)
  have attrs: "wp (set_attributes K (set_attribute K (so_cls_name (so_cls so_obj)) (so_path so_obj)) a (\<lambda>x.
       bindM (item so ''plugin'') (\<lambda>plugin. bindM (item so ''name'') (\<lambda>name.
         err_collect (''Storage Object '' @ py_str plugin @ ''/'' @ py_str name @ '': '' @ x))))) (\<lambda>_ _. True) (\<lambda>_ _. False) s"
    by (rule set_attributes_collects) (simp add: item_def so wp err_collect_def)
  have alua: "wp (for_dicts (dict_get so ''alua_tpgs'' (PDict [])) body) (\<lambda>_ _. True) (\<lambda>_ _. False) t" for body t
    by (simp add: dict_get_def assms(4) for_dicts_def for_each_def wp)
  show ?thesis
    unfolding so_settings_def a by (rule wp_seqI [where P = "\<lambda>_. True"]) (use attrs alua in \<open>simp_all add: wp_bindM wp_lift\<close>)
qed

text \<open>
  C20. One bad storage object does not stop a restore. In the collecting mode, restoring an entry that has a plugin that
  is a string or missing, a dictionary of attributes or none, and no ALUA groups, never raises: whatever the constructor
  raises, and whichever attributes the kernel refuses, it is reported and the loop goes on or is left as the
  selection demands.
\<close>

theorem restore_so_total:
  assumes "case map_of so ''plugin'' of None \<Rightarrow> True | Some v \<Rightarrow> \<exists>p. v = PStr p"
    and "case map_of so ''attributes'' of None \<Rightarrow> True | Some v \<Rightarrow> \<exists>a. v = PDict a" and "map_of so ''alua_tpgs'' = None"
  shows "wp (restore_so K tgt storage_object err_collect index so)
    (\<lambda>r _. r = Next () \<or> r = Break () \<and> storage_object \<noteq> []) (\<lambda>_ _. False) w"
proof -
  have leave: "wp (ret (if storage_object \<noteq> '''' then Break () else Next ()))
      (\<lambda>r _. r = Next () \<or> r = Break () \<and> storage_object \<noteq> []) (\<lambda>_ _. False) s" for s
    by (simp add: wp)
  have report: "wp (seqM (err_collect x) (ret (if storage_object \<noteq> '''' then Break () else Next ())))
      (\<lambda>r _. r = Next () \<or> r = Break () \<and> storage_object \<noteq> []) (\<lambda>_ _. False) s" for x s
    by (simp add: wp err_collect_def)
  have create: "wp (try_else m (\<lambda>e. seqM (err_collect (x e)) (ret (if storage_object \<noteq> '''' then Break () else Next ())))
        (\<lambda>so_obj. seqM (so_settings K so_obj so err_collect) (ret (if storage_object \<noteq> '''' then Break () else Next ()))))
      (\<lambda>r _. r = Next () \<or> r = Break () \<and> storage_object \<noteq> []) (\<lambda>_ _. False) s"
    if so: "map_of so ''plugin'' = Some plugin" "map_of so ''name'' = Some name" for m x plugin name s
    unfolding wp_try_else
    by (rule wp_mono [OF wp_True]) (rule report wp_seqI [OF so_settings_total [OF so assms(2,3)]] leave)+
  show ?thesis
  proof (cases "map_of so ''name''")
    case None
    then show ?thesis by (simp add: restore_so_def wp err_collect_def)
  next
    case name: (Some name)
    show ?thesis
    proof (cases "selected storage_object tgt (name = PStr storage_object)")
      case False
      with name show ?thesis by (simp add: restore_so_def wp)
    next
      case True
      consider "map_of so ''plugin'' = None" | p where "map_of so ''plugin'' = Some (PStr p)" "map_of so_mapping p = None"
        | p c where "map_of so ''plugin'' = Some (PStr p)" "map_of so_mapping p = Some c"
        using assms(1) by (cases "map_of so ''plugin''") auto
      then show ?thesis
      proof cases
        case 3
        then show ?thesis
          using create [OF 3(1) name] name True by (simp only: restore_so_def Let_def plugin_class_def option.case pyval.case bindM_ret if_True)
      qed (use name True report in \<open>simp_all only: restore_so_def Let_def plugin_class_def option.case pyval.case bindM_ret if_True\<close>)
    qed
  qed
qed

theorem restore_so_total_witness:
  "wp (restore_so lio '''' '''' err_collect 0 [(''name'', PStr ''x''), (''plugin'', PStr ''block''), (''dev'', PStr ''/dev/none'')])
    (\<lambda>r _. r = Next ()) (\<lambda>_ _. False) world0"
  using restore_so_total [of "[(''name'', PStr ''x''), (''plugin'', PStr ''block''), (''dev'', PStr ''/dev/none'')]" lio "''''" "''''" 0 world0]
  by simp

text \<open>A section whose every entry is skipped is skipped.\<close>

lemma iter_skips:
  assumes "\<And>x. x \<in> set xs \<Longrightarrow> body x () = ret (Next ())"
  shows "iter xs body () = ret (Next ())"
  using assms by (induction xs) (simp_all add: bindM_ret)

lemma for_entries_skips:
  assumes "py_elems (dict_get config k (PList [])) = Inr xs"
    and "\<And>v. v \<in> set xs \<Longrightarrow> \<exists>d. v = PDict d \<and> (\<forall>i. body i d = ret (Next ()))"
  shows "for_entries config k body = ret ()"
proof -
  have "iter (enumerate 0 xs) (\<lambda>(i, v) c. bindM (lift (py_items v)) (body i)) () = ret (Next ())"
  proof (rule iter_skips)
    fix x assume "x \<in> set (enumerate 0 xs)"
    then have "snd x \<in> set (map snd (enumerate 0 xs))" by (simp only: list.set_map imageI)
    then have "snd x \<in> set xs" by simp
    then obtain i v where x: "x = (i, v)" "v \<in> set xs" by (cases x) simp
    obtain d where "v = PDict d" "body i d = ret (Next ())" using assms(2) [OF x(2)] by blast
    with x show "(case x of (i, v) \<Rightarrow> \<lambda>c. bindM (lift (py_items v)) (body i)) () = ret (Next ())"
      by (simp add: lift_def bindM_ret)
  qed
  then show ?thesis
    by (simp add: for_entries_def config_list_def assms(1) lift_def bindM_ret seqM_def)
qed

text \<open>Entries that have the key by which they are selected.\<close>

definition keyed :: "pydict \<Rightarrow> string \<Rightarrow> string \<Rightarrow> bool" where
  "keyed config section key = (case py_elems (dict_get config section (PList [])) of
      Inl e \<Rightarrow> False
    | Inr xs \<Rightarrow> \<forall>v \<in> set xs. case v of PDict d \<Rightarrow> map_of d key \<noteq> None | _ \<Rightarrow> False)"

lemma keyed_skips:
  assumes "keyed config section key" and "\<And>d i. map_of d key \<noteq> None \<Longrightarrow> body i d = ret (Next ())"
  shows "for_entries config section body = ret ()"
proof -
  obtain xs where xs: "py_elems (dict_get config section (PList [])) = Inr xs"
    and d: "\<forall>v \<in> set xs. case v of PDict d \<Rightarrow> map_of d key \<noteq> None | _ \<Rightarrow> False"
    using assms(1) by (auto simp: keyed_def split: sum.splits)
  show ?thesis
  proof (rule for_entries_skips [OF xs])
    fix v assume "v \<in> set xs"
    with d have "case v of PDict d \<Rightarrow> map_of d key \<noteq> None | _ \<Rightarrow> False" by blast
    with assms(2) show "\<exists>d. v = PDict d \<and> (\<forall>i. body i d = ret (Next ()))" by (cases v) auto
  qed
qed

lemma for_entries_absent: "map_of config k = None \<Longrightarrow> for_entries config k body = ret ()"
  by (rule for_entries_skips [where xs = "[]"]) (simp_all add: dict_get_def)

lemma for_entries_cong: "map_of config k = map_of config' k \<Longrightarrow> for_entries config k body = for_entries config' k body"
  by (simp add: for_entries_def config_list_def dict_get_def)

lemma restore_all_selection:
  assumes "keyed config ''storage_objects'' ''name''" and "keyed config ''targets'' ''wwn''" and "name \<noteq> []"
  shows "restore_all K config name [] err = restore_all K (dict_del config ''storage_objects'') name [] err"
    and "restore_all K config [] name err = restore_all K (dict_del config ''targets'') [] name err"
proof -
  have "for_entries config ''storage_objects'' (restore_so K name [] err) = ret ()"
    by (rule keyed_skips [OF assms(1)]) (use assms(3) in \<open>auto simp: restore_so_def selected_def Let_def\<close>)
  moreover have "for_entries config ''targets'' (restore_target K [] name err) = ret ()"
    by (rule keyed_skips [OF assms(2)]) (use assms(3) in \<open>auto simp: restore_target_def selected_def Let_def\<close>)
  moreover have "for_entries (dict_del config k') k body = for_entries config k body" if "k \<noteq> k'" for k k' body
    by (rule for_entries_cong) (simp add: that)
  ultimately show "restore_all K config name [] err = restore_all K (dict_del config ''storage_objects'') name [] err"
    "restore_all K config [] name err = restore_all K (dict_del config ''targets'') [] name err"
    by (simp_all add: restore_all_def for_entries_absent)
qed

text \<open>
  C21. Restoring a part. When it is asked to clear first, \<^verbatim>\<open>restore\<close> with the name of a target and none of a storage object does exactly what it
  does with the storage objects taken out of the configuration, and with the name of a storage object and none of a
  target exactly what it does with the targets taken out: the other kind of entry has no effect. When it is not asked to
  clear, the refusal to overwrite looks at the whole configuration, whatever the selection, and may raise for an entry that was not selected; the same holds
  then for every start from which the check passes, to the same state, with and without those entries. Every
  storage object of the configuration has a name and every target a WWN.
\<close>

theorem restore_selection:
  assumes "keyed config ''storage_objects'' ''name''" and "keyed config ''targets'' ''wwn''" and "name \<noteq> []"
  shows "restore K config name [] True abort = restore K (dict_del config ''storage_objects'') name [] True abort \<and>
    restore K config [] name True abort = restore K (dict_del config ''targets'') [] name True abort \<and>
    (refuse_existing K config w = (Ok (), w1) \<and> refuse_existing K (dict_del config ''storage_objects'') w = (Ok (), w1) \<longrightarrow>
       restore K config name [] False abort w = restore K (dict_del config ''storage_objects'') name [] False abort w) \<and>
    (refuse_existing K config w = (Ok (), w1) \<and> refuse_existing K (dict_del config ''targets'') w = (Ok (), w1) \<longrightarrow>
       restore K config [] name False abort w = restore K (dict_del config ''targets'') [] name False abort w)"
  unfolding restore_def restore_all_selection [OF assms] by (simp add: seqM_def bindM_def)

theorem restore_selection_witness:
  "restore lio [(''storage_objects'', PList [PDict [(''name'', PStr ''d'')]]), (''targets'', PList [PDict demo_config])] ''d'' [] True True =
     restore lio [(''targets'', PList [PDict demo_config])] ''d'' [] True True"
proof -
  let ?c = "[(''storage_objects'', PList [PDict [(''name'', PStr ''d'')]]), (''targets'', PList [PDict demo_config])]"
  have "keyed ?c ''storage_objects'' ''name''" "keyed ?c ''targets'' ''wwn''" by code_simp+
  moreover have "dict_del ?c ''storage_objects'' = [(''targets'', PList [PDict demo_config])]" by (simp add: dict_del_def)
  ultimately show ?thesis using restore_selection [of ?c "''d''" lio True world0 world0] by simp
qed

section \<open>Clearing everything\<close>

context configfs
begin

lemma rmdir_child_wp:
  "wp (rmdir K (p @ [h]))
     (\<lambda>_ s'. map_of (fs s') (p @ [h]) = None \<and> (map_of (fs s') p = Some Dir \<longleftrightarrow> map_of (fs s) p = Some Dir) \<and>
        (\<forall>g. map_of (fs s) (p @ [g]) = None \<longrightarrow> map_of (fs s') (p @ [g]) = None)) (\<lambda>_ _. True) s"
proof -
  have "map_of f' (p @ [g]) = None" if f': "k_rmdir K (fs s) (p @ [h]) = Inr f'" and "map_of (fs s) (p @ [g]) = None" for f' g
    using that rmdir_gone [OF f', of "p @ [g]"] map_of_shape_cong(1) [OF rmdir_frame [OF f', of "p @ [g]"]] by auto
  moreover have "map_of f' (p @ [h]) = None" "map_of f' p = Some Dir \<longleftrightarrow> map_of (fs s) p = Some Dir" if f': "k_rmdir K (fs s) (p @ [h]) = Inr f'" for f'
    using rmdir_gone [OF f', of "p @ [h]"] map_of_shape_cong(2) [OF rmdir_frame [OF f', of p]] prefix_length_le [of "p @ [h]" p]
    by auto
  ultimately show ?thesis by (auto simp: rmdir_def wp split: sum.splits)
qed

lemma clear_hbas_gone:
  "wp (clear_hbas K) (\<lambda>_ w'. map_of (fs w') core_dir = Some Dir \<longrightarrow>
     (\<forall>h. CHR ''_'' \<in> set h \<longrightarrow> map_of (fs w') (core_dir @ [h]) = None)) (\<lambda>_ _. True) w"
proof (cases "map_of (fs w) core_dir = Some Dir")
  case True
  let ?hs = "filter (\<lambda>h. CHR ''_'' \<in> set h) (children (fs w) core_dir)"
  let ?I = "\<lambda>pre (c :: unit) (s :: world). \<forall>h. CHR ''_'' \<in> set h \<and> (h \<notin> set ?hs \<or> h \<in> set pre) \<longrightarrow> map_of (fs s) (core_dir @ [h]) = None"
  have run: "clear_hbas K w = for_each (iter ?hs) (\<lambda>h. rmdir K (core_dir @ [h])) w"
    using True by (simp add: clear_hbas_def bindM_def gets_def is_dir_plain realpath_def)
  have "wp (for_each (iter ?hs) (\<lambda>h. rmdir K (core_dir @ [h])))
      (\<lambda>_ s. \<forall>h. CHR ''_'' \<in> set h \<longrightarrow> map_of (fs s) (core_dir @ [h]) = None) (\<lambda>_ _. True) w"
    unfolding for_each_def wp_seqM wp_ret
  proof (rule wp_iter_visited [where I = ?I])
    fix pre x c and s :: world assume "x \<in> set ?hs" and I: "?I pre c s"
    show "wp (seqM (rmdir K (core_dir @ [x])) (ret (Next ()))) (\<lambda>r s'. case r of Next c' \<Rightarrow> ?I (pre @ [x]) c' s'
        | Break c' \<Rightarrow> \<forall>h. CHR ''_'' \<in> set h \<longrightarrow> map_of (fs s') (core_dir @ [h]) = None) (\<lambda>_ _. True) s"
      unfolding wp_seqM by (rule wp_mono [OF rmdir_child_wp]) (use I in \<open>auto simp: wp\<close>)
  qed (auto simp: children_iff)
  then show ?thesis unfolding wp_def run by (auto split: prod.splits res.splits)
next
  case False
  let ?ok = "\<lambda>s :: world. map_of (fs s) core_dir \<noteq> Some Dir"
  have "wp (for_each (iter hs) (\<lambda>h. rmdir K (core_dir @ [h]))) (\<lambda>_. ?ok) (\<lambda>_ _. True) w" for hs
    unfolding for_each_def wp_seqM wp_ret
  proof (rule wp_iter [where I = "\<lambda>_. ?ok"])
    fix x c and s :: world assume ok: "?ok s"
    show "wp (seqM (rmdir K (core_dir @ [x])) (ret (Next ()))) (\<lambda>r s'. case r of Next c' \<Rightarrow> ?ok s' | Break c' \<Rightarrow> ?ok s')
        (\<lambda>_ _. True) s"
      unfolding wp_seqM by (rule wp_mono [OF rmdir_child_wp]) (use ok in \<open>auto simp: wp\<close>)
  qed (use False in simp_all)
  then show ?thesis
    unfolding clear_hbas_def wp_bindM wp_gets by (rule wp_mono) simp_all
qed

end

text \<open>
  C22. Clearing leaves no adapter. When a clear of everything returns, the directory of the core modules has no entry of an adapter any
  more: the adapters of the deleted storage objects are gone, and so are those that held none.
\<close>

theorem clear_existing_no_adapters:
  assumes "configfs K"
  shows "wp (clear_existing K '''' '''' True)
    (\<lambda>_ w'. map_of (fs w') core_dir = Some Dir \<longrightarrow> (\<forall>h. CHR ''_'' \<in> set h \<longrightarrow> map_of (fs w') (core_dir @ [h]) = None))
    (\<lambda>_ _. True) w"
proof -
  have "wp (whenM True (clear_hbas K))
      (\<lambda>_ w'. map_of (fs w') core_dir = Some Dir \<longrightarrow> (\<forall>h. CHR ''_'' \<in> set h \<longrightarrow> map_of (fs w') (core_dir @ [h]) = None))
      (\<lambda>_ _. True) s" for s
    using configfs.clear_hbas_gone [OF assms] by (simp add: wp)
  then show ?thesis
    by (simp add: clear_existing_def wp_seq_any)
qed

definition demo_clear_world :: world where
  "demo_clear_world = demo_world\<lparr>fs := fs demo_world @ [(core_dir @ [''iblock_7''], Dir), (so_path demo_so @ [''alua''], Dir), (so_path demo_so @ [''enable''], File 420 (Inr ''0'')),
     (fm_path iscsi_fabric @ [''discovery_auth''], Dir)] @
     map (\<lambda>a. (fm_path iscsi_fabric @ [''discovery_auth'', a], File 420 (Inr '''')))
       [''password_mutual'', ''userid_mutual'', ''password'', ''userid'', ''enforce_discovery_auth'']\<rparr>"


theorem clear_existing_no_adapters_witness:
  "\<exists>w'. clear_existing lio '''' '''' True demo_clear_world = (Ok (), w') \<and> map_of (fs demo_clear_world) (core_dir @ [''iblock_7'']) = Some Dir \<and>
     map_of (fs w') (core_dir @ [''iblock_7'']) = None"
proof -
  let ?run = "clear_existing lio '''' '''' True demo_clear_world"
  have "case ?run of (r, w') \<Rightarrow> r = Ok () \<and> map_of (fs w') core_dir = Some Dir" by code_simp
  then obtain w' where run: "?run = (Ok (), w')" and dir: "map_of (fs w') core_dir = Some Dir" by (auto split: prod.splits)
  moreover have "map_of (fs demo_clear_world) (core_dir @ [''iblock_7'']) = Some Dir" by code_simp
  ultimately show ?thesis
    using wpD [OF clear_existing_no_adapters [OF lio_fs.configfs_axioms] run] by auto
qed

section \<open>Restoring over an object that exists\<close>

text \<open>A loop that cannot pass one of its elements.\<close>

lemma wp_iter_blocks:
  assumes "x \<in> set xs" and "P s"
    and "\<And>y c s. P s \<Longrightarrow> wp (body y c) (\<lambda>r s'. case r of Next c' \<Rightarrow> P s' | Break c' \<Rightarrow> Q c' s') (\<lambda>_ _. True) s"
    and "\<And>c s. P s \<Longrightarrow> wp (body x c) (\<lambda>r s'. case r of Next c' \<Rightarrow> False | Break c' \<Rightarrow> Q c' s') (\<lambda>_ _. True) s"
  shows "wp (iter xs body c) (\<lambda>r s'. case r of Next c' \<Rightarrow> False | Break c' \<Rightarrow> Q c' s') (\<lambda>_ _. True) s"
  using assms(1,2)
proof (induction xs arbitrary: c s)
  case (Cons y ys)
  show ?case
  proof (cases "y = x")
    case True
    show ?thesis
      unfolding iter.simps wp_bindM True
      by (rule wp_mono [OF assms(4) [OF Cons(3)]]) (auto split: ctl.splits simp: wp)
  next
    case False
    show ?thesis
      unfolding iter.simps wp_bindM
    proof (rule wp_mono [OF assms(3) [OF Cons(3)]])
      fix r s' assume "case r of Next c' \<Rightarrow> P s' | Break c' \<Rightarrow> Q c' s'"
      then show "wp (case r of Next c' \<Rightarrow> iter ys body c' | Break c' \<Rightarrow> ret (Break c'))
          (\<lambda>r s'. case r of Next c' \<Rightarrow> False | Break c' \<Rightarrow> Q c' s') (\<lambda>_ _. True) s'"
        using Cons.IH Cons.prems(1) False by (cases r) (simp_all add: wp)
    qed simp
  qed
qed simp

lemma wp_core_glob_blocks:
  assumes "(h, n) \<in> set (so_dirs f)" and "fs w = f"
    and "\<And>y c s. fs s = f \<Longrightarrow> wp (body y c) (\<lambda>r s'. case r of Next c' \<Rightarrow> fs s' = f | Break c' \<Rightarrow> Q c' s') (\<lambda>_ _. True) s"
    and "\<And>c s. fs s = f \<Longrightarrow> wp (body (h, n) c) (\<lambda>r s'. case r of Next c' \<Rightarrow> False | Break c' \<Rightarrow> Q c' s') (\<lambda>_ _. True) s"
  shows "wp (core_glob body c) (\<lambda>r s'. case r of Next c' \<Rightarrow> False | Break c' \<Rightarrow> Q c' s') (\<lambda>_ _. True) w"
proof -
  let ?inner = "\<lambda>h. \<lambda>n c''. bindM (is_dirM (core_dir @ [h, n])) (\<lambda>d. if d then body (h, n) c'' else ret (Next c''))"
  let ?outer = "\<lambda>h c'. bindM (gets (\<lambda>w. if is_dir (fs w) (core_dir @ [h])
      then children (fs w) (realpath (fs w) (core_dir @ [h])) else [])) (\<lambda>names. iter names (?inner h) c')"
  from assms(1) have h: "h \<in> set (hba_names f)" "n \<in> set (children f (realpath f (core_dir @ [h])))" "is_dir f (core_dir @ [h, n])"
    and hd: "is_dir f (core_dir @ [h])"
    by (auto simp: so_dirs_def hba_names_def split: if_splits)
  have inner: "wp (?inner g m c) (\<lambda>r s'. case r of Next c' \<Rightarrow> fs s' = f | Break c' \<Rightarrow> Q c' s') (\<lambda>_ _. True) s" if "fs s = f" for g m c s
    using assms(3) [OF that] that by (simp add: wp is_dirM_def)
  have "wp (iter (hba_names f) ?outer c) (\<lambda>r s'. case r of Next c' \<Rightarrow> False | Break c' \<Rightarrow> Q c' s') (\<lambda>_ _. True) w"
  proof (rule wp_iter_blocks [where P = "\<lambda>s. fs s = f" and x = h])
    fix g c' and s :: world assume s: "fs s = f"
    show "wp (?outer g c') (\<lambda>r s'. case r of Next c' \<Rightarrow> fs s' = f | Break c' \<Rightarrow> Q c' s') (\<lambda>_ _. True) s"
      unfolding wp_bindM [of "gets _"] wp_gets
    proof (rule wp_iter [where I = "\<lambda>_ s. fs s = f"])
      fix m c'' and t :: world assume "fs t = f"
      from inner [OF this] show "wp (?inner g m c'') (\<lambda>r s'. case r of Next c' \<Rightarrow> fs s' = f
          | Break c' \<Rightarrow> (case Break c' of Next c' \<Rightarrow> fs s' = f | Break c' \<Rightarrow> Q c' s')) (\<lambda>_ _. True) t"
        by (rule wp_mono) (auto split: ctl.splits)
    qed (use s in simp_all)
  next
    fix c' and s :: world assume s: "fs s = f"
    have "wp (iter (children f (realpath f (core_dir @ [h]))) (?inner h) c')
        (\<lambda>r s'. case r of Next c' \<Rightarrow> False | Break c' \<Rightarrow> Q c' s') (\<lambda>_ _. True) s"
      by (rule wp_iter_blocks [where P = "\<lambda>s. fs s = f" and x = n]) (use h s inner assms(4) in \<open>simp_all add: wp is_dirM_def\<close>)
    then show "wp (?outer h c') (\<lambda>r s'. case r of Next c' \<Rightarrow> False | Break c' \<Rightarrow> Q c' s') (\<lambda>_ _. True) s"
      using s hd by (simp add: wp_bindM wp_gets)
  qed (use h assms(2) in simp_all)
  then show ?thesis by (simp add: core_glob_def wp_bindM wp_gets assms(2))
qed

text \<open>Looking a storage object up by its path reads only, when it succeeds.\<close>

lemma wp_create_lookup: "wp (create_in_cfs_ine K cls p ''lookup'') (\<lambda>_ s'. s' = s) (\<lambda>_ _. True) s"
  by (auto simp: create_in_cfs_ine_def wp exists_def is_dirM_def)

lemma wp_so_lookup:
  "wp (so_lookup K cls name (PStr i))
     (\<lambda>so s'. fs s' = fs s \<and> so_name so = name \<and> so_plugin so = fst (bs_params cls)) (\<lambda>_ _. True) s"
proof -
  have bs: "wp (Backstore_init K name cls ''lookup'' (PStr i)) (\<lambda>bs s'. s' = s \<and> bs_cls bs = cls) (\<lambda>_ _. True) s" for s
    unfolding Backstore_init_def Let_def bs_find_index_def
    by (auto simp: wp wp_ret [abs_def] split: sum.splits intro!: wp_mono [OF wp_create_lookup])
  have plugin: "wp (bs_get_plugin bs) (\<lambda>p s'. s' = s \<and> p = fst (bs_params (bs_cls bs))) (\<lambda>_ _. True) s" for bs s
    by (simp add: bs_get_plugin_def check_self_def exists_def is_dirM_def wp)
  have create: "wp (catchM (create_in_cfs_ine K c p ''lookup'') (\<lambda>e. seqM (Backstore_delete K bs) (raise e))) (\<lambda>_ s'. s' = s) (\<lambda>_ _. True) s"
    for c p bs s
    unfolding wp_catchM by (rule wp_mono [OF wp_create_lookup]) simp_all
  show ?thesis
    unfolding so_lookup_def StorageObject_init_def Let_def wp_if wp_bindM wp_seqM wp_ret
    by (auto simp: wp_raise intro!: wp_mono [OF bs] wp_mono [OF plugin] wp_mono [OF create])
qed


lemma wp_so_from_path:
  "wp (so_from_path K p)
     (\<lambda>so s'. fs s' = fs s \<and> so_name so = last p \<and> (\<forall>d i cls. rsplit1 (CHR ''_'') (last (butlast p)) = Some (d, i) \<longrightarrow>
        map_of so_mapping d = Some cls \<longrightarrow> so_plugin so = fst (bs_params cls))) (\<lambda>_ _. True) s"
  unfolding so_from_path_def
  by (auto simp: wp intro!: wp_mono [OF wp_so_lookup] split: option.splits)

text \<open>With a storage object in the tree, the listing is not empty, and a test that rejects that object ends the loop over it.\<close>

lemma wp_root_check: "wp m Q (\<lambda>_ _. True) w \<Longrightarrow> wp (seqM root_check m) Q (\<lambda>_ _. True) w"
  by (simp add: root_check_def check_self_def exists_def is_dirM_def wp)

lemma wp_any_so:
  assumes "(h, n) \<in> set (so_dirs (fs w))"
  shows "wp (any_gen (root_storage_objects K)) (\<lambda>b s'. b \<and> fs s' = fs w) (\<lambda>_ _. True) w"
proof -
  let ?body = "\<lambda>(h, n) c'. bindM (so_from_path K (core_dir @ [h, n])) (\<lambda>so.
      bindM (ret True) (\<lambda>b. ret (if b then Break (Some so) else Next c')))"
  have body: "wp (?body y c) (\<lambda>r s'. case r of Next c' \<Rightarrow> False | Break c' \<Rightarrow> c' \<noteq> None \<and> fs s' = fs w) (\<lambda>_ _. True) s"
    if "fs s = fs w" for y c s
    unfolding case_prod_beta wp_bindM wp_ret if_True ctl.case
    by (rule wp_mono [OF wp_so_from_path]) (use that in simp_all)
  have "wp (core_glob ?body None) (\<lambda>r s'. case r of Next c' \<Rightarrow> False | Break c' \<Rightarrow> c' \<noteq> None \<and> fs s' = fs w) (\<lambda>_ _. True) w"
  proof (rule wp_core_glob_blocks [OF assms refl])
    fix y c and s :: world assume "fs s = fs w"
    from body [OF this] show "wp (?body y c) (\<lambda>r s'. case r of Next c' \<Rightarrow> fs s' = fs w | Break c' \<Rightarrow> c' \<noteq> None \<and> fs s' = fs w) (\<lambda>_ _. True) s"
      by (rule wp_mono) (auto split: ctl.splits)
  qed (rule body)
  then show ?thesis
    unfolding any_gen_def find_first_def root_storage_objects_def so_all_def wp_bindM wp_ret
    by (intro wp_root_check) (rule wp_mono, assumption, auto split: ctl.splits)
qed

lemma wp_so_loop_blocks:
  assumes "(h, n) \<in> set (so_dirs f)" and "fs w = f"
    and "\<And>so s. wp (body so) (\<lambda>_ s'. s' = s) (\<lambda>_ _. True) s"
    and "rsplit1 (CHR ''_'') h = Some (d, i)" and "map_of so_mapping d = Some cls"
    and "\<And>so s. so_name so = n \<Longrightarrow> so_plugin so = fst (bs_params cls) \<Longrightarrow> wp (body so) (\<lambda>_ _. False) (\<lambda>_ _. True) s"
  shows "wp (for_each (root_storage_objects K) body) (\<lambda>_ _. False) (\<lambda>_ _. True) w"
proof -
  let ?body = "\<lambda>(h, n) c'. bindM (so_from_path K (core_dir @ [h, n])) (\<lambda>so. seqM (body so) (ret (Next ())))"
  have "wp (core_glob ?body ()) (\<lambda>r s'. case r of Next c' \<Rightarrow> False | Break c' \<Rightarrow> False) (\<lambda>_ _. True) w"
  proof (rule wp_core_glob_blocks [OF assms(1,2)])
    fix y c and s :: world assume s: "fs s = f"
    show "wp (?body y c) (\<lambda>r s'. case r of Next c' \<Rightarrow> fs s' = f | Break c' \<Rightarrow> False) (\<lambda>_ _. True) s"
      unfolding case_prod_beta wp_bindM wp_seqM wp_ret ctl.case
      by (rule wp_mono [OF wp_so_from_path], rule wp_mono [OF assms(3)]) (use s in simp_all)
  next
    fix c and s :: world assume "fs s = f"
    show "wp (?body (h, n) c) (\<lambda>r s'. case r of Next c' \<Rightarrow> False | Break c' \<Rightarrow> False) (\<lambda>_ _. True) s"
      unfolding prod.case wp_bindM wp_seqM wp_ret ctl.case
      by (rule wp_mono [OF wp_so_from_path]) (use assms(4-6) in \<open>simp_all add: butlast_append\<close>)
  qed
  then show ?thesis
    unfolding for_each_def root_storage_objects_def so_all_def wp_seqM [of "seqM _ _"] wp_ret
    by (intro wp_root_check) (rule wp_mono, assumption, auto split: ctl.splits)
qed


lemma wp_so_loop_reads:
  assumes "\<And>so s. wp (body so) (\<lambda>_ s'. s' = s) (\<lambda>_ _. True) s"
  shows "wp (for_each (root_storage_objects K) body) (\<lambda>_ s'. fs s' = fs w) (\<lambda>_ _. True) w"
proof -
  let ?find = "\<lambda>(h, n). bindM (so_from_path K (core_dir @ [h, n])) body"
  have "wp (for_each core_glob ?find) (\<lambda>_ s'. fs s' = fs w) (\<lambda>_ _. True) w"
  proof (rule wp_core_glob [where I = "\<lambda>s. fs s = fs w" and f = "fs w"])
    fix h n and s :: world assume s: "fs s = fs w"
    show "wp (?find (h, n)) (\<lambda>_ s'. fs s' = fs w) (\<lambda>_ _. True) s"
      unfolding prod.case wp_bindM by (rule wp_mono [OF wp_so_from_path], rule wp_mono [OF assms]) (use s in simp_all)
  qed simp_all
  moreover have "(\<lambda>(h, n) c'. bindM (so_from_path K (core_dir @ [h, n])) (\<lambda>so. seqM (body so) (ret (Next ())))) =
      (\<lambda>x (c :: unit). seqM (?find x) (ret (Next ())))"
    by (auto simp: fun_eq_iff bindM_def seqM_def split: prod.splits res.splits)
  ultimately have "wp (seqM root_check (for_each core_glob ?find)) (\<lambda>_ s'. fs s' = fs w) (\<lambda>_ _. True) w"
    and eq: "for_each (root_storage_objects K) body = seqM root_check (for_each core_glob ?find)"
    by (simp_all add: wp_root_check for_each_def root_storage_objects_def so_all_def seqM_assoc)
  then show ?thesis by (simp only: eq)
qed

definition refuse_test :: "pydict \<Rightarrow> storage_object \<Rightarrow> unit W" where
  "refuse_test config_so loaded_so =
     bindM (item config_so ''name'') (\<lambda>name.
       if name = PStr (so_name loaded_so) then
         bindM (item config_so ''plugin'') (\<lambda>plugin.
           whenM (plugin = PStr (so_plugin loaded_so))
             (raise (RTSLibError (''storageobject '' @ [CHR 0x27] @ so_plugin loaded_so @ '':'' @ so_name loaded_so @
                [CHR 0x27] @ '' exist not restoring''))))
       else ret ())"

lemma refuse_so_blocks:
  assumes "(h, n) \<in> set (so_dirs (fs w))" and "rsplit1 (CHR ''_'') h = Some (dirp, i)" and "map_of so_mapping dirp = Some cls"
    and "py_elems (dict_get config ''storage_objects'' (PList [])) = Inr xs" and "PDict d \<in> set xs"
    and "map_of d ''name'' = Some (PStr n)" and "map_of d ''plugin'' = Some (PStr (fst (bs_params cls)))"
  shows "wp (refuse_so K config) (\<lambda>_ _. False) (\<lambda>_ _. True) w"
proof -
  let ?body = "\<lambda>v. bindM (lift (py_items v)) (\<lambda>config_so. for_each (root_storage_objects K) (refuse_test config_so))"
  have reads: "wp (refuse_test e so) (\<lambda>_ s'. s' = s) (\<lambda>_ _. True) s" for e so s
    by (auto simp: refuse_test_def item_def wp split: option.splits)
  have loop: "wp (for_each (root_storage_objects K) (refuse_test e)) (\<lambda>_ s'. fs s' = fs s) (\<lambda>_ _. True) s" for e s
    by (rule wp_so_loop_reads [OF reads])
  have "wp (iter xs (\<lambda>x c. seqM (?body x) (ret (Next ()))) ()) (\<lambda>r s'. case r of Next c' \<Rightarrow> False | Break c' \<Rightarrow> False) (\<lambda>_ _. True) w"
  proof (rule wp_iter_blocks [where P = "\<lambda>s. fs s = fs w" and x = "PDict d"])
    fix y c and s :: world assume s: "fs s = fs w"
    have "wp (?body y) (\<lambda>_ s'. fs s' = fs w) (\<lambda>_ _. True) s"
      using loop [of _ s] s by (auto simp: wp split: sum.splits)
    then show "wp (seqM (?body y) (ret (Next ()))) (\<lambda>r s'. case r of Next c' \<Rightarrow> fs s' = fs w | Break c' \<Rightarrow> False) (\<lambda>_ _. True) s"
      by (simp add: wp_seqM wp_ret [abs_def])
  next
    fix c and s :: world assume s: "fs s = fs w"
    have "wp (for_each (root_storage_objects K) (refuse_test d)) (\<lambda>_ _. False) (\<lambda>_ _. True) s"
      by (rule wp_so_loop_blocks [OF assms(1) s reads assms(2,3)]) (use assms(6,7) in \<open>simp add: refuse_test_def item_def wp\<close>)
    then show "wp (seqM (?body (PDict d)) (ret (Next ()))) (\<lambda>r s'. case r of Next c' \<Rightarrow> False | Break c' \<Rightarrow> False) (\<lambda>_ _. True) s"
      by (simp add: wp wp_ret [abs_def])
  qed (use assms(5) in simp_all)
  then have "wp (for_each (iter xs) ?body) (\<lambda>_ _. False) (\<lambda>_ _. True) w"
    unfolding for_each_def wp_seqM wp_ret by (rule wp_mono) (auto split: ctl.splits)
  then show ?thesis
    by (simp add: refuse_so_def config_list_def assms(4) lift_def bindM_ret refuse_test_def [abs_def])
qed


context configfs
begin

lemma root_so_stays:
  assumes "below core_dir A" and "\<And>so c. stays (frame A) (body so c)"
  shows "stays (frame A) (root_storage_objects K body c)"
  unfolding root_storage_objects_def root_check_def
  by (intro fr.comb check_self_stays so_all_stays) (use assms in auto)

lemma any_so_stays: "below core_dir A \<Longrightarrow> stays (frame A) (any_gen (root_storage_objects K))"
  unfolding any_gen_def find_first_def by (intro fr.comb fr.base root_so_stays)

lemma refuse_so_stays: "below core_dir A \<Longrightarrow> stays (frame A) (refuse_so K config)"
  unfolding refuse_so_def config_list_def for_each_def item_def
  by (intro fr.comb fr.base fr.iter_stays root_so_stays)

end

text \<open>
  C4. A restore never overwrites. While the tree has a storage object of the name and the plugin of an entry of the configuration, a
  restore that was not asked to clear never returns, and it raises before it has touched anything but
  the directory of the core modules, where looking up a half-made storage object removes its adapter.
\<close>

theorem restore_no_overwrite:
  assumes "configfs K" and "(h, n) \<in> set (so_dirs (fs w))"
    and "rsplit1 (CHR ''_'') h = Some (dirp, i)" and "map_of so_mapping dirp = Some cls"
    and "py_elems (dict_get config ''storage_objects'' (PList [])) = Inr xs" and "PDict d \<in> set xs"
    and "map_of d ''name'' = Some (PStr n)" and "map_of d ''plugin'' = Some (PStr (fst (bs_params cls)))"
  shows "wp (restore K config tgt storage_object False abort) (\<lambda>_ _. False) (\<lambda>_ w'. frame (prefix core_dir) w w') w"
proof -
  let ?A = "prefix core_dir"
  have below: "below core_dir ?A" by (simp add: below_prefix)
  have any: "wp (any_gen (root_storage_objects K)) (\<lambda>b s'. b \<and> fs s' = fs w) (\<lambda>_ s'. frame ?A w s') s" if "fs s = fs w" for s
    by (rule wp_mono [OF wp_and_stays [OF configfs.any_so_stays [OF assms(1) below] wp_any_so [of h n s K]]])
      (use assms(2) that in \<open>auto simp: frame_def\<close>)
  have refuse: "wp (refuse_so K config) (\<lambda>_ _. False) (\<lambda>_ s'. frame ?A w s') s" if "fs s = fs w" for s
    by (rule wp_mono [OF wp_and_stays [OF configfs.refuse_so_stays [OF assms(1) below] refuse_so_blocks [of h n s, OF _ assms(3-8)]]])
      (use assms(2) that in \<open>auto simp: frame_def\<close>)
  have "wp (refuse_existing K config) (\<lambda>_ _. False) (\<lambda>_ s'. frame ?A w s') w"
    unfolding refuse_existing_def
  proof (rule wp_bindI [OF any [OF refl]])
    fix so1 and s :: world assume so1: "so1 \<and> fs s = fs w"
    have "wp (bindM (any_gen (root_storage_objects K)) (\<lambda>so2. whenM so2 (refuse_so K config))) (\<lambda>_ _. False) (\<lambda>_ s'. frame ?A w s') s"
      by (rule wp_bindI [OF any]) (use so1 refuse in \<open>simp_all add: wp_whenM\<close>)
    then have "wp (seqM (bindM (any_gen (root_storage_objects K)) (\<lambda>so2. whenM so2 (refuse_so K config))) m) (\<lambda>_ _. False) (\<lambda>_ s'. frame ?A w s') s"
      for m :: "unit W" by (rule wp_seqI) simp
    with so1 show "wp (bindM (if so1 then ret True else any_gen (root_targets K)) (\<lambda>some. if some then
        seqM (bindM (any_gen (root_storage_objects K)) (\<lambda>so2. whenM so2 (refuse_so K config)))
          (bindM (any_gen (root_targets K)) (\<lambda>tg. whenM tg (refuse_target K config))) else ret ()))
        (\<lambda>_ _. False) (\<lambda>_ s'. frame ?A w s') s" by (simp add: bindM_ret)
  qed
  then show ?thesis
    unfolding restore_def if_False by (rule wp_seqI) simp
qed


theorem restore_no_overwrite_witness:
  "wp (restore lio [(''storage_objects'', PList [PDict [(''name'', PStr ''d''), (''plugin'', PStr ''fileio'')]])] '''' '''' False False)
    (\<lambda>_ _. False) (\<lambda>_ w'. frame (prefix core_dir) demo_world w') demo_world"
proof (rule restore_no_overwrite [OF lio_fs.configfs_axioms])
  show "(''fileio_0'', ''d'') \<in> set (so_dirs (fs demo_world))" by code_simp
  show "rsplit1 (CHR ''_'') ''fileio_0'' = Some (''fileio'', ''0'')" by code_simp
  show "map_of so_mapping ''fileio'' = Some FileIO" by code_simp
  show "py_elems (dict_get [(''storage_objects'', PList [PDict [(''name'', PStr ''d''), (''plugin'', PStr ''fileio'')]])] ''storage_objects'' (PList [])) =
      Inr [PDict [(''name'', PStr ''d''), (''plugin'', PStr ''fileio'')]]" by code_simp
qed (simp_all, code_simp+)

end
