(* ===== verification/IndexRuns.thy ===== *)
theory IndexRuns
  imports Root
begin

text \<open>
  The cache of adapter indexes over the life of a process. The module variable \<^verbatim>\<open>bs_cache\<close> of \<^verbatim>\<open>tcm.py\<close> starts empty and is
  changed by the constructor and the deletion of \<^verbatim>\<open>_Backstore\<close> and by \<^verbatim>\<open>RTSRoot.invalidate_caches\<close> only; everything else a
  program does between two such calls, and everything other processes do to the tree, leaves it alone. The step relation has one
  rule for each. The label of a step says whether it fills the empty cache from the tree, which is the only moment at
  which the tree decides what the cache holds.
\<close>

section \<open>Steps\<close>

inductive cache_step :: "env \<Rightarrow> world \<Rightarrow> bool \<Rightarrow> world \<Rightarrow> bool" for K where
  init: "Backstore_init K name cls mode index w = (r, w') \<Longrightarrow> cache_step K w (index = PNone \<and> bs_cache w = []) w'"
| delete: "Backstore_delete K bs w = (r', w') \<Longrightarrow> cache_step K w False w'"
| forget: "invalidate_caches w = (r', w') \<Longrightarrow> cache_step K w False w'"
| other: "bs_cache w' = bs_cache w \<Longrightarrow> cache_step K w False w'"

section \<open>Every step keeps the cache free of duplicates\<close>

text \<open>Whatever the mode, and with an index given or not.\<close>

lemma bs_find_index_ok:
  assumes "cache_ok (bs_cache w)"
  shows "wp (bs_find_index K name cls mode index) (\<lambda>_ w'. cache_ok (bs_cache w')) (\<lambda>_ w'. cache_ok (bs_cache w')) w"
  unfolding bs_find_index_def Let_def
  by (auto simp: wp bs_alloc.alloc_Some cache_ok_set assms split: option.splits sum.splits)

lemma Backstore_init_ok:
  assumes "configfs K" and "cache_ok (bs_cache w)" and "index = PNone \<and> bs_cache w = [] \<Longrightarrow> own_index (fs w)"
  shows "wp (Backstore_init K name cls mode index) (\<lambda>_ w'. cache_ok (bs_cache w')) (\<lambda>_ w'. cache_ok (bs_cache w')) w"
proof -
  let ?key = "bs_dirp cls @ ''/'' @ name"
  let ?ok = "\<lambda>w' :: world. cache_ok (bs_cache w')"
  have create: "wp (seqM (catchM (create_in_cfs_ine K ''_Backstore'' p mode) (\<lambda>e. seqM (drop_key ?key) (raise e))) (ret x))
      (\<lambda>_. ?ok) (\<lambda>_. ?ok) u" if "?ok u" for p u and x :: backstore
    unfolding wp_seqM wp_catchM
    by (rule wp_mono [OF configfs.create_post [OF assms(1)]]) (use that in \<open>auto simp: wp drop_key_def cache_ok_del\<close>)
  have fill: "wp (bindM (gets (\<lambda>w. index = PNone \<and> bs_cache w = [])) (\<lambda>b. whenM b fill_bs_cache)) (\<lambda>_. ?ok) (\<lambda>_. ?ok) w"
    using assms(2,3) wp_mono [OF fill_bs_cache_ok [of w]] by (auto simp: wp)
  show ?thesis
    unfolding Backstore_init_def Let_def
    by (rule wp_seqI [OF fill], rule wp_bindI [OF bs_find_index_ok]) (assumption | erule create)+
qed

lemma Backstore_delete_ok:
  assumes "cache_ok (bs_cache w)"
  shows "wp (Backstore_delete K bs) (\<lambda>_ w'. cache_ok (bs_cache w')) (\<lambda>_ w'. cache_ok (bs_cache w')) w"
  unfolding Backstore_delete_def node_delete_def exists_def is_dirM_def rmdir_def drop_key_def
  by (auto simp: wp cache_ok_del assms split: sum.splits)

lemma cache_step_ok:
  assumes "configfs K" and "cache_step K w fills w'" and "fills \<Longrightarrow> own_index (fs w)" and "cache_ok (bs_cache w)"
  shows "cache_ok (bs_cache w')"
  using assms(2)
proof cases
  case (init name cls mode index r)
  with Backstore_init_ok [OF assms(1,4), of index name cls mode] assms(3) show ?thesis by (cases r) (auto simp: wp_def)
next
  case (delete bs r)
  with Backstore_delete_ok [OF assms(4), of K bs] show ?thesis by (cases r) (auto simp: wp_def)
qed (use assms(4) in \<open>auto simp: invalidate_caches_def modify_def cache_ok_def\<close>)

section \<open>Properties\<close>

text \<open>
  C12. No index is given twice in the life of a process. Take any sequence of creations, lookups and deletions of adapter directories,
  successful or not and with an index given or not, of cache invalidations and of anything else that leaves the cache alone, from the start of the
  process, when the cache is empty. If at each moment at which an empty cache is filled from the tree no two
  storage objects of the tree have the same index, then at the end, and so at every moment in between, no two keys of the cache have
  the same index and no key is there twice.
\<close>

theorem cache_invariant:
  assumes "configfs K" and "bs_cache w0 = []"
    and "(\<lambda>u v. \<exists>fills. cache_step K u fills v \<and> (fills \<longrightarrow> own_index (fs u)))\<^sup>*\<^sup>* w0 w"
  shows "cache_ok (bs_cache w)"
  using assms(3)
  by (induction rule: rtranclp_induct) (use assms(2) cache_step_ok [OF assms(1)] in \<open>auto simp: cache_ok_def [of "[]"]\<close>)

lemma res_Ok: "(case r of Ok u \<Rightarrow> True | Err e \<Rightarrow> False) \<Longrightarrow> \<exists>u. r = Ok u"
  by (cases r) simp_all

lemma init_step:
  assumes "bs_cache u = [] \<Longrightarrow> own_index (fs u)"
  shows "\<exists>fills. cache_step K u fills (snd (Backstore_init K name cls mode index u)) \<and> (fills \<longrightarrow> own_index (fs u))"
  using cache_step.init [OF prod.collapse [symmetric]] assms by metis

theorem cache_invariant_witness:
  "\<exists>u v w. Backstore_init lio ''a'' FileIO ''create'' PNone world0 = (Ok u, v) \<and>
     bs_cache (snd (Backstore_init lio ''b'' Block ''create'' PNone v)) = w \<and> w = [(''fileio/a'', 0), (''iblock/b'', 1)] \<and> cache_ok w"
proof -
  let ?c1 = "Backstore_init lio ''a'' FileIO ''create'' PNone world0"
  let ?c2 = "Backstore_init lio ''b'' Block ''create'' PNone (snd ?c1)"
  define R where "R = (\<lambda>u v. \<exists>fills. cache_step lio u fills v \<and> (fills \<longrightarrow> own_index (fs u)))"
  have start: "bs_cache world0 = []" "own_index (fs world0)" "bs_cache (snd ?c1) \<noteq> []" "case fst ?c1 of Ok u \<Rightarrow> True | Err e \<Rightarrow> False"
    by code_simp+
  have "R world0 (snd ?c1)" unfolding R_def by (rule init_step [OF start(2)])
  moreover have "R (snd ?c1) (snd ?c2)" unfolding R_def by (rule init_step) (erule notE [OF start(3)])
  ultimately have run: "R\<^sup>*\<^sup>* world0 (snd ?c2)" by (rule rtranclp.rtrancl_into_rtrancl [OF r_into_rtranclp])
  moreover have "bs_cache (snd ?c2) = [(''fileio/a'', 0), (''iblock/b'', 1)]" by code_simp
  moreover from res_Ok [OF start(4)] obtain u where "fst ?c1 = Ok u" by (rule exE)
  then have "?c1 = (Ok u, snd ?c1)" by (rule prod_eqI [OF trans [OF _ fst_conv [symmetric]] snd_conv [symmetric]])
  ultimately show ?thesis using cache_invariant [OF lio_fs.configfs_axioms start(1) run [unfolded R_def]]
    by (intro exI [of _ u] exI [of _ "snd ?c1"] exI [of _ "bs_cache (snd ?c2)"] conjI) (assumption | rule refl)+
qed

end
