(* ===== verification/Coherence.thy ===== *)
theory Coherence
  imports IndexRuns Root
begin

text \<open>
  The index cache and the tree. The abstract state of the storage objects is the set of pairs of an adapter directory and a
  name that have a directory in configfs; the concrete state is the tree together with \<^verbatim>\<open>bs_cache\<close>. The theory
  states when the two agree, and shows that creating and looking up storage objects by name and removing their directories keep
  them in agreement whatever the kernel refuses, and that a creation adds one object with an index of its own or none
  at all. The locale \<open>lio_core\<close> adds to \<open>configfs\<close> what is used of the kernel: a new adapter directory has no directories
  in it.
\<close>

section \<open>The objects of a tree\<close>

text \<open>No links among the adapters and objects, which the kernel does not allow there.\<close>

definition core_plain :: "fsys \<Rightarrow> bool" where
  "core_plain f = (map_of f configfs_dir = Some Dir \<and> map_of f core_dir = Some Dir \<and>
     (\<forall>h. \<not> is_symlink f (core_dir @ [h])) \<and> (\<forall>h n. \<not> is_symlink f (core_dir @ [h, n])))"

lemma is_dir_no_link: "\<not> is_symlink f p \<Longrightarrow> is_dir f p \<longleftrightarrow> map_of f p = Some Dir"
  by (auto simp: is_symlink_def is_dir_def realpath_def split: option.splits node.splits)

lemma realpath_no_link: "\<not> is_symlink f p \<Longrightarrow> realpath f p = p"
  by (auto simp: is_symlink_def realpath_def split: option.splits node.splits)

definition objects :: "fsys \<Rightarrow> (string \<times> string) set" where
  "objects f = set (so_dirs f)"

lemma objects_iff:
  assumes "core_plain f"
  shows "(h, n) \<in> objects f \<longleftrightarrow>
    CHR ''_'' \<in> set h \<and> map_of f (core_dir @ [h]) = Some Dir \<and> map_of f (core_dir @ [h, n]) = Some Dir"
proof -
  have "realpath f core_dir = core_dir" "is_dir f core_dir"
    using assms by (simp_all add: core_plain_def realpath_def is_dir_def)
  moreover have "realpath f (core_dir @ [h]) = core_dir @ [h]" if "map_of f (core_dir @ [h]) = Some Dir" for h
    using that by (simp add: realpath_def)
  ultimately show ?thesis
    using assms by (auto simp: objects_def so_dirs_def hba_names_def core_plain_def is_dir_no_link children_iff)
qed

text \<open>The name of an adapter directory, as the library writes it.\<close>

definition hba :: "string \<Rightarrow> int \<Rightarrow> string" where
  "hba d i = d @ ''_'' @ str_of_int i"

lemma hba_parts: "so_dir_key (hba d i) n = d @ ''/'' @ n" "so_dir_index (hba d i) = i"
proof -
  have "CHR ''_'' \<notin> set (str_of_int i)" using str_of_int_chars by blast
  then have "rsplit1 (CHR ''_'') (hba d i) = Some (d, str_of_int i)" using rsplit1_append by (simp add: hba_def)
  then show "so_dir_key (hba d i) n = d @ ''/'' @ n" "so_dir_index (hba d i) = i"
    by (simp_all add: so_dir_key_def so_dir_index_def)
qed

definition canonical :: "fsys \<Rightarrow> bool" where
  "canonical f = (\<forall>(h, n) \<in> objects f. \<exists>d i. h = hba d i \<and> CHR ''/'' \<notin> set d)"

text \<open>No two objects share a name within a plugin.\<close>

definition own_key :: "fsys \<Rightarrow> bool" where
  "own_key f = inj_on (\<lambda>(h, n). so_dir_key h n) (objects f)"

lemma own_index_inj: "own_index f \<longleftrightarrow> inj_on (\<lambda>(h, n). so_dir_index h) (objects f)"
  unfolding own_index_def inj_on_def objects_def by fastforce

text \<open>Trees as the library makes them.\<close>

definition tree_ok :: "fsys \<Rightarrow> bool" where
  "tree_ok f = (core_plain f \<and> canonical f)"

lemma tree_ok_shrinks:
  assumes "tree_ok f" and "core_plain f'" and "objects f' \<subseteq> objects f"
  shows "tree_ok f'"
  using assms unfolding tree_ok_def canonical_def by fast

lemma tree_ok_grows:
  assumes "tree_ok f" and "core_plain f'" and "objects f' = insert (hba d i, n) (objects f)" and "CHR ''/'' \<notin> set d"
  shows "tree_ok f'"
  using assms unfolding tree_ok_def canonical_def by auto

lemma tree_ok_canonical: "tree_ok f \<Longrightarrow> (h, n) \<in> objects f \<Longrightarrow> \<exists>d i. h = hba d i \<and> CHR ''/'' \<notin> set d"
  unfolding tree_ok_def canonical_def by auto

lemma before_sep: "c \<notin> set xs \<Longrightarrow> c \<notin> set ys \<Longrightarrow> xs @ c # us = ys @ c # vs \<longleftrightarrow> xs = ys \<and> us = vs"
proof (induction xs arbitrary: ys)
  case Nil
  then show ?case by (cases ys) auto
next
  case (Cons x xs)
  then show ?case by (cases ys) auto
qed

text \<open>Key and index together determine the object.\<close>

lemma key_index_inj:
  assumes "tree_ok f" and "(h, n) \<in> objects f" and "(h', n') \<in> objects f"
    and "so_dir_key h n = so_dir_key h' n'" and "so_dir_index h = so_dir_index h'"
  shows "h = h' \<and> n = n'"
proof -
  obtain d i d' i' where "h = hba d i" "CHR ''/'' \<notin> set d" "h' = hba d' i'" "CHR ''/'' \<notin> set d'"
    using tree_ok_canonical [OF assms(1,2)] tree_ok_canonical [OF assms(1,3)] by blast
  then show ?thesis using assms(4,5) by (simp add: hba_parts before_sep)
qed

section \<open>Agreement of the cache with the tree\<close>

definition covers :: "world \<Rightarrow> bool" where
  "covers w = (\<forall>(h, n) \<in> objects (fs w). map_of (bs_cache w) (so_dir_key h n) = Some (so_dir_index h))"

text \<open>
  The cache knows every object under its index, or it is empty, to be filled by the next call, and
  no two objects share an index, nor a name within a plugin.
\<close>

definition coherent :: "world \<Rightarrow> bool" where
  "coherent w = (tree_ok (fs w) \<and> cache_ok (bs_cache w) \<and>
     (covers w \<or> bs_cache w = [] \<and> own_index (fs w) \<and> own_key (fs w)))"

lemma coversD: "covers w \<Longrightarrow> (h, n) \<in> objects (fs w) \<Longrightarrow> map_of (bs_cache w) (so_dir_key h n) = Some (so_dir_index h)"
  unfolding covers_def by auto

lemma covers_own:
  assumes "tree_ok (fs w)" and "cache_ok (bs_cache w)" and "covers w"
  shows "own_index (fs w)" and "own_key (fs w)"
proof -
  have "h = h' \<and> n = n'" if 1: "(h, n) \<in> objects (fs w)" "(h', n') \<in> objects (fs w)" and "so_dir_index h = so_dir_index h'" for h n h' n'
  proof -
    have "(so_dir_key h n, so_dir_index h) \<in> set (bs_cache w)" "(so_dir_key h' n', so_dir_index h) \<in> set (bs_cache w)"
      using coversD [OF assms(3) 1(1)] coversD [OF assms(3) 1(2)] that(3) by (auto dest: map_of_SomeD)
    moreover have "inj_on snd (set (bs_cache w))" using assms(2) by (simp add: cache_ok_def distinct_map)
    ultimately have "so_dir_key h n = so_dir_key h' n'" unfolding inj_on_def by force
    then show ?thesis using key_index_inj [OF assms(1) 1] that(3) by simp
  qed
  then show "own_index (fs w)" unfolding own_index_def objects_def by blast
  show "own_key (fs w)" unfolding own_key_def
  proof (rule inj_onI, clarify)
    fix h n h' n' assume 1: "(h, n) \<in> objects (fs w)" "(h', n') \<in> objects (fs w)" and "so_dir_key h n = so_dir_key h' n'"
    then show "h = h' \<and> n = n'"
      using coversD [OF assms(3) 1(1)] coversD [OF assms(3) 1(2)] key_index_inj [OF assms(1) 1] by simp
  qed
qed

lemma coherent_own:
  assumes "coherent w"
  shows "own_index (fs w)" and "own_key (fs w)"
  using assms covers_own [of w] unfolding coherent_def by argo+

text \<open>The cache may be emptied at any time.\<close>

lemma coherent_empty:
  assumes "coherent w"
  shows "coherent (w\<lparr>bs_cache := []\<rparr>)"
  using assms coherent_own [OF assms] by (simp add: coherent_def cache_ok_def)

section \<open>Filling the cache\<close>

lemma wp_core_glob_visited:
  assumes "I {} w" and "\<And>V w. I V w \<Longrightarrow> fs w = f"
    and "\<And>V h n w. I V w \<Longrightarrow> (h, n) \<in> objects f \<Longrightarrow> wp (body (h, n)) (\<lambda>_. I (insert (h, n) V)) E w"
    and "\<And>w. I (objects f) w \<Longrightarrow> Q () w"
  shows "wp (for_each core_glob body) Q E w"
proof -
  define V where "V hs = {(h, n) \<in> objects f. h \<in> set hs}" for hs
  define V1 where "V1 hs h ns = V hs \<union> {(h', n) \<in> objects f. h' = h \<and> n \<in> set ns}" for hs h ns
  have f: "fs w = f" using assms(1,2) by blast
  have V_all: "V (hba_names f) = objects f" by (auto simp: V_def objects_def so_dirs_def)
  have V1_all: "V1 hs h (children f (realpath f (core_dir @ [h]))) = V (hs @ [h])" for hs h
    by (auto simp: V1_def V_def objects_def so_dirs_def)
  have V1_dir: "V1 hs h (ns @ [n]) = insert (h, n) (V1 hs h ns)" if "(h, n) \<in> objects f" for hs h ns n
    using that by (auto simp: V1_def)
  have V1_skip: "V1 hs h (ns @ [n]) = V1 hs h ns" if "(h, n) \<notin> objects f" for hs h ns n
    using that by (auto simp: V1_def)
  show ?thesis
    unfolding for_each_def core_glob_def wp_seqM wp_bindM wp_gets f
  proof (rule wp_iter_visited [where I = "\<lambda>hs _. I (V hs)"])
    show "I (V []) w" using assms(1) by (simp add: V_def)
  next
    fix hs h c w' assume h: "h \<in> set (hba_names f)" and I: "I (V hs) w'"
    have f': "fs w' = f" using I assms(2) by blast
    have hdir: "is_dir f (core_dir @ [h])" using h by (auto simp: hba_names_def split: if_splits)
    show "wp (bindM (gets (\<lambda>w. if is_dir (fs w) (core_dir @ [h])
           then children (fs w) (realpath (fs w) (core_dir @ [h])) else []))
         (\<lambda>names. iter names (\<lambda>n c''. bindM (is_dirM (core_dir @ [h, n]))
             (\<lambda>d. if d then seqM (body (h, n)) (ret (Next ())) else ret (Next c''))) c))
        (\<lambda>r s'. case r of Next c' \<Rightarrow> I (V (hs @ [h])) s' | Break c' \<Rightarrow> wp (ret ()) Q E s') E w'"
      unfolding wp_bindM wp_gets f' if_P [OF hdir]
    proof (rule wp_iter_visited [where I = "\<lambda>ns _. I (V1 hs h ns)"])
      show "I (V1 hs h []) w'" using I by (simp add: V1_def)
    next
      fix ns n c' w'' assume n: "n \<in> set (children f (realpath f (core_dir @ [h])))" and I: "I (V1 hs h ns) w''"
      have f'': "fs w'' = f" using I assms(2) by blast
      have obj: "(h, n) \<in> objects f \<longleftrightarrow> is_dir f (core_dir @ [h, n])" using h n by (auto simp: objects_def so_dirs_def)
      show "wp (bindM (is_dirM (core_dir @ [h, n])) (\<lambda>d. if d then seqM (body (h, n)) (ret (Next ())) else ret (Next c')))
        (\<lambda>r s'. case r of Next c' \<Rightarrow> I (V1 hs h (ns @ [n])) s' | Break c' \<Rightarrow>
          (case Break c' of Next c' \<Rightarrow> I (V (hs @ [h])) s' | Break c' \<Rightarrow> wp (ret ()) Q E s')) E w''"
      proof (cases "(h, n) \<in> objects f")
        case True
        then show ?thesis using assms(3) [OF I True] obj
          by (simp add: wp wp_ret [abs_def] is_dirM_def f'' V1_dir [OF True])
      next
        case False
        then show ?thesis using I obj by (simp add: wp is_dirM_def f'' V1_skip [OF False])
      qed
    qed (simp add: V1_all)
  qed (use assms(4) V_all in \<open>simp add: wp\<close>)
qed

lemma fill_bs_cache_covers:
  assumes "coherent w" and "bs_cache w = []"
  shows "wp fill_bs_cache (\<lambda>_ w'. fs w' = fs w \<and> coherent w' \<and> covers w') (\<lambda>_ _. False) w"
proof -
  define I where "I V w' \<longleftrightarrow> fs w' = fs w \<and> V \<subseteq> objects (fs w) \<and>
    (\<forall>(h, n) \<in> V. map_of (bs_cache w') (so_dir_key h n) = Some (so_dir_index h))" for V and w' :: world
  have tree: "tree_ok (fs w)" and own: "own_index (fs w)" "own_key (fs w)"
    using assms(1) coherent_own [OF assms(1)] by (simp_all add: coherent_def)
  have "wp fill_bs_cache (\<lambda>_. I (objects (fs w))) (\<lambda>_ _. False) w"
    unfolding fill_bs_cache_def
  proof (rule wp_core_glob_visited [where I = I and f = "fs w"])
    fix V h n w' assume I: "I V w'" and hn: "(h, n) \<in> objects (fs w)"
    obtain d i where h: "h = hba d i" using tree_ok_canonical [OF tree hn] by blast
    have "CHR ''_'' \<notin> set (str_of_int i)" using str_of_int_chars by blast
    then have di: "rsplit1 (CHR ''_'') h = Some (d, str_of_int i)" using rsplit1_append by (simp add: h hba_def)
    have all: "map_of (dict_set (bs_cache w') (so_dir_key h n) i) (so_dir_key h' n') = Some (so_dir_index h')"
      if "(h', n') \<in> insert (h, n) V" for h' n'
    proof (cases "(h', n') = (h, n)")
      case False
      then have V: "(h', n') \<in> V" using that by blast
      then have "(h', n') \<in> objects (fs w)" using I unfolding I_def by blast
      then have "so_dir_key h' n' \<noteq> so_dir_key h n"
        using inj_onD [OF own(2) [unfolded own_key_def], of "(h', n')" "(h, n)"] hn False by auto
      then show ?thesis using I V unfolding I_def by auto
    qed (simp add: h hba_parts)
    have key: "so_dir_key h n = d @ ''/'' @ n" by (simp add: h hba_parts)
    have "\<forall>(h', n') \<in> insert (h, n) V.
        map_of (dict_set (bs_cache w') (d @ ''/'' @ n) i) (so_dir_key h' n') = Some (so_dir_index h')"
      using all unfolding key by blast
    then have "I (insert (h, n) V) (w'\<lparr>bs_cache := dict_set (bs_cache w') (d @ ''/'' @ n) i\<rparr>)"
      using I hn unfolding I_def by simp
    then show "wp (case (h, n) of (h, bs_name) \<Rightarrow>
        bindM (the_or (ValueErr ''not enough values to unpack'') (rsplit1 (CHR ''_'') h)) (\<lambda>(bs_dirp, bs_index).
         bindM (lift (to_int (PStr bs_index))) (\<lambda>i.
           modify (\<lambda>w. w\<lparr>bs_cache := dict_set (bs_cache w) (bs_dirp @ ''/'' @ bs_name) i\<rparr>))))
        (\<lambda>_. I (insert (h, n) V)) (\<lambda>_ _. False) w'"
      by (simp add: wp di)
  qed (simp_all add: I_def)
  from wp_conj [OF this fill_bs_cache_ok [OF own(1) assms(2)]] show ?thesis
    by (rule wp_mono) (use tree in \<open>auto simp: I_def coherent_def covers_def\<close>)
qed

section \<open>An index that is taken and not used yet\<close>

definition reserved :: "string \<Rightarrow> int \<Rightarrow> world \<Rightarrow> bool" where
  "reserved k i w = (tree_ok (fs w) \<and> cache_ok (bs_cache w) \<and> covers w \<and> map_of (bs_cache w) k = Some i \<and>
     (\<forall>(h, n) \<in> objects (fs w). so_dir_index h \<noteq> i \<and> so_dir_key h n \<noteq> k))"

text \<open>The same objects and the same cache.\<close>

definition same_objects :: "world \<Rightarrow> world \<Rightarrow> bool" where
  "same_objects w w' = (core_plain (fs w') \<and> objects (fs w') = objects (fs w) \<and> bs_cache w' = bs_cache w)"

lemma same_objects_trans: "same_objects u v \<Longrightarrow> same_objects v w \<Longrightarrow> same_objects u w"
  by (simp add: same_objects_def)

lemma same_tree_ok: "same_objects w w' \<Longrightarrow> tree_ok (fs w) \<Longrightarrow> tree_ok (fs w')"
  by (auto simp: same_objects_def intro: tree_ok_shrinks)

lemma same_covers: "same_objects w w' \<Longrightarrow> covers w' = covers w"
  by (simp add: same_objects_def covers_def)

lemma same_coherent: "same_objects w w' \<Longrightarrow> coherent w \<Longrightarrow> coherent w'"
  using same_tree_ok [of w w'] same_covers [of w w']
  unfolding coherent_def own_index_inj own_key_def by (auto simp: same_objects_def)

lemma same_reserved: "same_objects w w' \<Longrightarrow> reserved k i w \<Longrightarrow> reserved k i w'"
  using same_tree_ok [of w w'] same_covers [of w w'] unfolding reserved_def by (auto simp: same_objects_def)

lemma reserved_coherent: "reserved k i w \<Longrightarrow> coherent w"
  by (simp add: reserved_def coherent_def)

lemma reserved_free: "reserved k i w \<Longrightarrow> (hba d i, n) \<notin> objects (fs w)"
  by (auto simp: reserved_def hba_parts)

text \<open>Taking a key out of the cache that no object has.\<close>

lemma covers_drop:
  assumes "covers w" and "\<And>h n. (h, n) \<in> objects (fs w) \<Longrightarrow> so_dir_key h n \<noteq> k"
  shows "covers (w\<lparr>bs_cache := dict_del (bs_cache w) k\<rparr>)"
  using assms by (auto simp: covers_def)

lemma coherent_drop:
  assumes "coherent w" and "\<And>h n. (h, n) \<in> objects (fs w) \<Longrightarrow> so_dir_key h n \<noteq> k"
  shows "coherent (w\<lparr>bs_cache := dict_del (bs_cache w) k\<rparr>)"
proof (cases "covers w")
  case True
  from covers_drop [OF this assms(2)] show ?thesis using assms(1) by (simp add: coherent_def cache_ok_del)
next
  case False
  then show ?thesis using assms(1) by (auto simp: coherent_def dict_del_def)
qed

lemma coherent_shrinks:
  assumes "coherent w" and "core_plain f'" and "objects f' \<subseteq> objects (fs w)"
  shows "coherent (w\<lparr>fs := f'\<rparr>)"
proof -
  have "tree_ok f'" using tree_ok_shrinks [OF _ assms(2,3)] assms(1) by (simp add: coherent_def)
  moreover have "own_index f'" "own_key f'"
    using coherent_own [OF assms(1)] assms(3) unfolding own_index_inj own_key_def by (blast intro: inj_on_subset)+
  moreover have "covers w \<Longrightarrow> covers (w\<lparr>fs := f'\<rparr>)" using assms(3) by (auto simp: covers_def)
  ultimately show ?thesis using assms(1) by (auto simp: coherent_def)
qed

lemma reserved_drop: "reserved k i w \<Longrightarrow> coherent (w\<lparr>bs_cache := dict_del (bs_cache w) k\<rparr>)"
  by (rule coherent_drop) (auto simp: reserved_def coherent_def)

text \<open>The object the index was taken for appears.\<close>

lemma reserved_add:
  assumes "reserved (d @ ''/'' @ n) i w" and "core_plain f'" and "objects f' = insert (hba d i, n) (objects (fs w))"
    and "CHR ''/'' \<notin> set d"
  shows "coherent (w\<lparr>fs := f'\<rparr>)"
proof -
  have "tree_ok f'" using tree_ok_grows [OF _ assms(2-4)] assms(1) by (simp add: reserved_def)
  moreover have "covers (w\<lparr>fs := f'\<rparr>)"
    using assms(1,3) by (auto simp: covers_def reserved_def hba_parts)
  ultimately show ?thesis using assms(1) by (simp add: coherent_def reserved_def)
qed

text \<open>The index search reserves, in a state whose cache covers the tree.\<close>

lemma reserve:
  assumes "coherent w" and "covers w"
  shows "wp (bs_find_index K name cls ''create'' PNone)
    (\<lambda>i w'. fs w' = fs w \<and> reserved (bs_dirp cls @ ''/'' @ name) i w') (\<lambda>_ w'. w' = w) w"
proof -
  have "so_dir_index h \<in> snd ` set (bs_cache w)" if "(h, n) \<in> objects (fs w)" for h n
    using map_of_SomeD [OF coversD [OF assms(2) that]] by force
  moreover have "map_of (bs_cache w) (so_dir_key h n) \<noteq> None" if "(h, n) \<in> objects (fs w)" for h n
    using coversD [OF assms(2) that] by simp
  ultimately have free: "so_dir_index h \<noteq> i \<and> so_dir_key h n \<noteq> k"
    if "(h, n) \<in> objects (fs w)" "i \<notin> snd ` set (bs_cache w)" "map_of (bs_cache w) k = None" for h n i k
    using that by metis
  have "reserved k i (w\<lparr>bs_cache := dict_set (bs_cache w) k i\<rparr>)"
    if "map_of (bs_cache w) k = None" "i \<notin> snd ` set (bs_cache w)" for k i
    using assms free [OF _ that(2,1)] that by (auto simp: reserved_def coherent_def cache_ok_set covers_def)
  then show ?thesis
    unfolding bs_find_index_def Let_def by (auto simp: wp bs_alloc.alloc_Some split: option.splits)
qed

lemma fill_phase:
  assumes "coherent w"
  shows "wp (bindM (gets (\<lambda>w. PNone = PNone \<and> bs_cache w = [])) (\<lambda>b. whenM b fill_bs_cache))
    (\<lambda>_ u. fs u = fs w \<and> coherent u \<and> covers u) (\<lambda>_ _. False) w"
  using fill_bs_cache_covers [OF assms] assms by (auto simp: wp coherent_def)

section \<open>Handles\<close>

text \<open>The object a handle of the library stands for.\<close>

definition so_object :: "storage_object \<Rightarrow> string \<times> string" where
  "so_object so = (hba (bs_dirp (so_cls so)) (bs_index (so_backstore so)), so_name so)"

definition bs_handle :: "so_class \<Rightarrow> string \<Rightarrow> backstore \<Rightarrow> bool" where
  "bs_handle cls name bs = (bs_cls bs = cls \<and> bs_lookup_key bs = bs_dirp cls @ ''/'' @ name \<and>
     bs_path bs = core_dir @ [hba (bs_dirp cls) (bs_index bs)])"

definition so_handle :: "storage_object \<Rightarrow> bool" where
  "so_handle so = (bs_handle (so_cls so) (so_name so) (so_backstore so) \<and>
     so_path so = core_dir @ [fst (so_object so), snd (so_object so)] \<and> so_plugin so = fst (bs_params (so_cls so)))"

definition dir_name :: "string \<Rightarrow> bool" where
  "dir_name n = (n \<noteq> [] \<and> n \<noteq> ''.'')"

lemma bs_dirp_no_slash: "CHR ''/'' \<notin> set (bs_dirp cls)"
  by (cases cls) (simp_all add: bs_dirp_def)

lemma hba_pdiv: "pdiv core_dir (bs_dirp cls @ ''_'' @ str_of_int i) = core_dir @ [hba (bs_dirp cls) i]"
  unfolding hba_def by (rule hba_path)

lemma hba_underscore: "CHR ''_'' \<in> set (hba d i)"
  by (simp add: hba_def)

text \<open>Where the cache covers the tree, an entry finds its object, and the adapter has no other.\<close>

lemma entry_object:
  assumes "tree_ok (fs w)" and "covers w" and "map_of (bs_cache w) (bs_dirp cls @ ''/'' @ name) = Some i"
    and "(h, n) \<in> objects (fs w)" and "so_dir_key h n = bs_dirp cls @ ''/'' @ name"
  shows "(h, n) = (hba (bs_dirp cls) i, name)"
proof -
  obtain d j where h: "h = hba d j" "CHR ''/'' \<notin> set d" using tree_ok_canonical [OF assms(1,4)] by blast
  then show ?thesis
    using coversD [OF assms(2,4)] assms(3,5) bs_dirp_no_slash [of cls] by (simp add: hba_parts before_sep)
qed

lemma adapter_object:
  assumes "cache_ok (bs_cache w)" and "covers w" and "map_of (bs_cache w) (d @ ''/'' @ name) = Some i"
    and "(hba d i, n) \<in> objects (fs w)"
  shows "n = name"
proof -
  have "(d @ ''/'' @ n, i) \<in> set (bs_cache w)" "(d @ ''/'' @ name, i) \<in> set (bs_cache w)"
    using coversD [OF assms(2,4)] assms(3) by (simp_all add: hba_parts map_of_SomeD)
  moreover have "inj_on snd (set (bs_cache w))" using assms(1) by (simp add: cache_ok_def distinct_map)
  ultimately have "d @ ''/'' @ n = d @ ''/'' @ name" unfolding inj_on_def by force
  then show ?thesis by simp
qed

section \<open>Removal\<close>

text \<open>
  \<^verbatim>\<open>StorageObject.delete\<close> in two parts: first the ALUA groups, which are below the object's own directory, and the LUNs
  that export it, which are below the fabrics; then the two directories and the entry of the cache.
\<close>

definition so_detach :: "env \<Rightarrow> storage_object \<Rightarrow> unit W" where
  "so_detach K so =
     seqM (so_check so)
     (seqM (for_each (list_alua_tpgs K so) (\<lambda>a. whenM (at_name a \<noteq> ''default_tg_pt_gp'') (Alua_delete K a)))
     (bindM (is_configured so) (\<lambda>conf.
         if conf then
           seqM (gen_attached_luns K so (\<lambda>l c.
               bindM (so_get_status so) (\<lambda>st.
                 if st \<noteq> ''activated'' then ret (Break c)
                 else seqM (LUN_delete K l) (ret (Next c)))) ())
             (ret ())
         else ret ())))"

definition so_remove :: "env \<Rightarrow> storage_object \<Rightarrow> unit W" where
  "so_remove K so = seqM (node_delete K (so_path so)) (Backstore_delete K (so_backstore so))"

lemma so_delete_split: "so_delete K so = seqM (so_detach K so) (so_remove K so)"
  unfolding so_delete_def so_detach_def so_remove_def seqM_assoc ..

section \<open>What the kernel's calls do to the objects\<close>

locale lio_core = configfs +
  assumes hba_empty: "k_mkdir K f (core_dir @ [h]) = Inr f' \<Longrightarrow> map_of f' (core_dir @ [h, n]) \<noteq> Some Dir"
begin

lemma core_not_below: "p \<noteq> [] \<Longrightarrow> \<not> prefix (core_dir @ p) core_dir" "\<not> prefix (core_dir @ p) configfs_dir"
  by (auto dest: prefix_length_le simp: core_dir_def)

lemma plain_frame:
  assumes "core_plain f" and "p \<noteq> []" and "\<And>q. \<not> prefix (core_dir @ p) q \<Longrightarrow> shape f' q = shape f q"
    and "\<And>q. prefix (core_dir @ p) q \<Longrightarrow> \<not> is_symlink f' q"
  shows "core_plain f'"
proof -
  have "is_symlink f' q \<Longrightarrow> is_symlink f q" for q using assms(3,4) by (metis is_symlink_shape)
  moreover have "map_of f' core_dir = Some Dir" "map_of f' configfs_dir = Some Dir"
    using assms(1) map_of_shape_cong(2) [OF assms(3) [OF core_not_below(1) [OF assms(2)]]]
      map_of_shape_cong(2) [OF assms(3) [OF core_not_below(2)]] by (simp_all add: core_plain_def)
  ultimately show ?thesis using assms(1) unfolding core_plain_def by blast
qed

lemma mkdir_plain: "core_plain f \<Longrightarrow> p \<noteq> [] \<Longrightarrow> k_mkdir K f (core_dir @ p) = Inr f' \<Longrightarrow> core_plain f'"
  by (rule plain_frame [of f p]) (auto dest: mkdir_frame mkdir_default)

lemma rmdir_plain: "core_plain f \<Longrightarrow> p \<noteq> [] \<Longrightarrow> k_rmdir K f (core_dir @ p) = Inr f' \<Longrightarrow> core_plain f'"
  by (rule plain_frame [of f p]) (auto dest: rmdir_frame rmdir_gone simp: is_symlink_def)

text \<open>A call below a path leaves the objects elsewhere.\<close>

lemma objects_elsewhere:
  assumes "core_plain f" and "core_plain f'" and "\<And>q. \<not> prefix (core_dir @ p) q \<Longrightarrow> shape f' q = shape f q"
    and "\<not> prefix p [h]" and "\<not> prefix p [h, n]"
  shows "(h, n) \<in> objects f' \<longleftrightarrow> (h, n) \<in> objects f"
proof -
  have "map_of f' (core_dir @ q) = Some Dir \<longleftrightarrow> map_of f (core_dir @ q) = Some Dir" if "\<not> prefix p q" for q
    by (rule map_of_shape_cong(2), rule assms(3)) (use that in simp)
  from this [OF assms(4)] this [OF assms(5)] show ?thesis by (simp add: objects_iff [OF assms(1)] objects_iff [OF assms(2)])
qed

lemma rmdir_hba_objects:
  assumes "core_plain f" and "k_rmdir K f (core_dir @ [h]) = Inr f'"
  shows "objects f' = {(h', n) \<in> objects f. h' \<noteq> h}"
proof -
  have plain: "core_plain f'" using rmdir_plain [OF assms(1) _ assms(2)] by simp
  have "(h', n) \<in> objects f' \<longleftrightarrow> (h', n) \<in> objects f" if "h' \<noteq> h" for h' n
    by (rule objects_elsewhere [OF assms(1) plain rmdir_frame [OF assms(2)]]) (use that in auto)
  moreover have "(h, n) \<notin> objects f'" for n using rmdir_gone [OF assms(2)] objects_iff [OF plain] by simp
  ultimately have "(h', n) \<in> objects f' \<longleftrightarrow> (h', n) \<in> objects f \<and> h' \<noteq> h" for h' n by (cases "h' = h") simp_all
  then show ?thesis by auto
qed

lemma mkdir_hba_objects:
  assumes "core_plain f" and "k_mkdir K f (core_dir @ [h]) = Inr f'"
  shows "objects f' = objects f"
proof -
  have plain: "core_plain f'" using mkdir_plain [OF assms(1) _ assms(2)] by simp
  have "(h', n) \<in> objects f' \<longleftrightarrow> (h', n) \<in> objects f" if "h' \<noteq> h" for h' n
    by (rule objects_elsewhere [OF assms(1) plain mkdir_frame [OF assms(2)]]) (use that in auto)
  moreover have "(h, n) \<notin> objects f' \<and> (h, n) \<notin> objects f" for n
    using hba_empty [OF assms(2)] mkdir_new [OF assms(2)] objects_iff [OF plain] objects_iff [OF assms(1)] by simp
  ultimately have "(h', n) \<in> objects f' \<longleftrightarrow> (h', n) \<in> objects f" for h' n by (cases "h' = h") simp_all
  then show ?thesis by auto
qed

lemma mkdir_so_objects:
  assumes "core_plain f" and "k_mkdir K f (core_dir @ [h, n]) = Inr f'"
  shows "objects f' = (if CHR ''_'' \<in> set h \<and> map_of f (core_dir @ [h]) = Some Dir then insert (h, n) (objects f) else objects f)"
proof -
  have plain: "core_plain f'" using mkdir_plain [OF assms(1) _ assms(2)] by simp
  have "(h', n') \<in> objects f' \<longleftrightarrow> (h', n') \<in> objects f" if "(h', n') \<noteq> (h, n)" for h' n'
    by (rule objects_elsewhere [OF assms(1) plain mkdir_frame [OF assms(2)]]) (use that in auto)
  moreover have "\<not> prefix (core_dir @ [h, n]) (core_dir @ [h])" by (auto dest: prefix_length_le)
  then have "map_of f' (core_dir @ [h]) = Some Dir \<longleftrightarrow> map_of f (core_dir @ [h]) = Some Dir"
    by (rule map_of_shape_cong(2) [OF mkdir_frame [OF assms(2)]])
  then have "(h, n) \<in> objects f' \<longleftrightarrow> CHR ''_'' \<in> set h \<and> map_of f (core_dir @ [h]) = Some Dir"
    using mkdir_new [OF assms(2)] objects_iff [OF plain] by simp
  moreover have "(h, n) \<notin> objects f" using mkdir_new [OF assms(2)] objects_iff [OF assms(1)] by simp
  ultimately have "x \<in> objects f' \<longleftrightarrow> x \<in> (if CHR ''_'' \<in> set h \<and> map_of f (core_dir @ [h]) = Some Dir then insert (h, n) (objects f) else objects f)" for x
    by (cases x; cases "x = (h, n)") auto
  then show ?thesis by blast
qed

lemma rmdir_so_objects:
  assumes "core_plain f" and "k_rmdir K f (core_dir @ [h, n]) = Inr f'"
  shows "objects f' = objects f - {(h, n)}"
proof -
  have plain: "core_plain f'" using rmdir_plain [OF assms(1) _ assms(2)] by simp
  have "(h', n') \<in> objects f' \<longleftrightarrow> (h', n') \<in> objects f" if "(h', n') \<noteq> (h, n)" for h' n'
    by (rule objects_elsewhere [OF assms(1) plain rmdir_frame [OF assms(2)]]) (use that in auto)
  moreover have "(h, n) \<notin> objects f'" using rmdir_gone [OF assms(2)] objects_iff [OF plain] by simp
  ultimately have "x \<in> objects f' \<longleftrightarrow> x \<in> objects f - {(h, n)}" for x by (cases x; cases "x = (h, n)") auto
  then show ?thesis by blast
qed

lemma create_hba:
  assumes "core_plain (fs w)" and "\<And>n. (h, n) \<notin> objects (fs w)"
  shows "wp (create_in_cfs_ine K cls (core_dir @ [h]) mode) (\<lambda>_ w'. same_objects w w' \<and> is_dir (fs w') (core_dir @ [h])) (\<lambda>_. same_objects w) w"
proof -
  let ?p = "core_dir @ [h]"
  have mk: "core_plain f' \<and> objects f' = objects f" if "core_plain f" "k_mkdir K f ?p = Inr f'" for f f'
    using mkdir_plain [OF that(1) _ that(2)] mkdir_hba_objects [OF that] by simp
  have rm: "core_plain f' \<and> objects f' = objects (fs w)" if "k_rmdir K (fs w) ?p = Inr f'" for f'
    using rmdir_plain [OF assms(1) _ that] rmdir_hba_objects [OF assms(1) that] assms(2) by auto
  have mkdir_part: "wp (bindM (exists ?p) (\<lambda>ex2. if \<not> ex2 then catchM (mkdir K ?p) (\<lambda>e. raise (g e)) else ret ()))
      (\<lambda>_. same_objects w) (\<lambda>_. same_objects w) u" if "same_objects w u" for u g
    using mk [of "fs u"] that by (auto simp: wp mkdir_def same_objects_def split: sum.splits)
  have "wp (create_in_cfs_ine K cls ?p mode) (\<lambda>_. same_objects w) (\<lambda>_. same_objects w) w"
  proof (cases "mode \<notin> {''any'', ''lookup'', ''create''}")
    case True
    then show ?thesis using assms(1) by (simp add: create_in_cfs_ine_def wp same_objects_def)
  next
    case False
    have first: "wp (if ex \<and> mode = ''create'' then bindM (stale_hba ?p) (\<lambda>stale. if stale then rmdir K ?p else raise e1)
        else if \<not> ex \<and> mode = ''lookup'' then raise e2 else ret ()) (\<lambda>_. same_objects w) (\<lambda>_. same_objects w) w" for ex e1 e2
      by (auto simp: wp rmdir_def same_objects_def assms(1) rm intro!: wp_stale_hba split: sum.splits)
    show ?thesis
      unfolding create_in_cfs_ine_def if_not_P [OF False]
      by (rule wp_bindI [where P = "\<lambda>_ u. u = w"], simp add: wp, hypsubst, rule wp_seqI [OF first mkdir_part])
  qed
  from wp_conj [OF this create_post] show ?thesis by (rule wp_mono) auto
qed

lemma create_so:
  assumes "core_plain (fs w)" and "is_dir (fs w) (core_dir @ [h])" and "CHR ''_'' \<in> set h"
  shows "wp (create_in_cfs_ine K cls (core_dir @ [h, n]) ''create'')
    (\<lambda>_ w'. core_plain (fs w') \<and> objects (fs w') = insert (h, n) (objects (fs w)) \<and> w' = w\<lparr>fs := fs w'\<rparr>) (\<lambda>_ w'. w' = w) w"
proof -
  let ?p = "core_dir @ [h, n]"
  have real: "realpath (fs w) ?p = ?p" "realpath (fs w) (core_dir @ [h]) = core_dir @ [h]" "realpath (fs w) core_dir = core_dir"
    using assms(1) by (simp_all add: core_plain_def realpath_no_link) (simp add: realpath_def)
  have dir: "map_of (fs w) (core_dir @ [h]) = Some Dir" using assms(1,2) by (simp add: core_plain_def is_dir_no_link)
  have mk: "core_plain f' \<and> objects f' = insert (h, n) (objects (fs w))" if "k_mkdir K (fs w) ?p = Inr f'" for f'
    using mkdir_plain [OF assms(1) _ that] mkdir_so_objects [OF assms(1) that] assms(3) dir by simp
  have stale: "wp (stale_hba ?p) Q E w" if "Q False w" "\<And>e. E e w" for Q E
    by (rule wp_stale_hba) (use that real in \<open>simp_all add: butlast_append core_dir_def [symmetric]\<close>)
  show ?thesis
    unfolding create_in_cfs_ine_def wp_if wp_bindM wp_exists
    by (auto simp: wp mkdir_def rmdir_def assms(1) mk intro!: stale split: sum.splits)
qed

lemma delete_hba:
  assumes "core_plain (fs w)" and "\<And>n. (h, n) \<notin> objects (fs w)"
  shows "wp (node_delete K (core_dir @ [h])) (\<lambda>_. same_objects w) (\<lambda>_. same_objects w) w"
proof -
  have "core_plain f' \<and> objects f' = objects (fs w)" if "k_rmdir K (fs w) (core_dir @ [h]) = Inr f'" for f'
    using rmdir_plain [OF assms(1) _ that] rmdir_hba_objects [OF assms(1) that] assms(2) by auto
  then show ?thesis using assms(1) by (auto simp: node_delete_def wp rmdir_def same_objects_def split: sum.splits)
qed

lemma Backstore_create:
  assumes "coherent w"
  shows "wp (Backstore_init K name cls ''create'' PNone)
    (\<lambda>bs u. objects (fs u) = objects (fs w) \<and> reserved (bs_dirp cls @ ''/'' @ name) (bs_index bs) u \<and>
       bs_handle cls name bs \<and> is_dir (fs u) (bs_path bs))
    (\<lambda>_ u. objects (fs u) = objects (fs w) \<and> coherent u) w"
  (is "wp _ ?Q ?E w")
proof -
  let ?key = "bs_dirp cls @ ''/'' @ name"
  let ?p = "\<lambda>i. core_dir @ [hba (bs_dirp cls) i]"
  let ?bs = "\<lambda>i. \<lparr>bs_cls = cls, bs_index = i, bs_path = ?p i, bs_lookup_key = ?key\<rparr>"
  have make: "wp (seqM (catchM (create_in_cfs_ine K ''_Backstore'' (?p i) ''create'') (\<lambda>e. seqM (drop_key ?key) (raise e)))
      (ret (?bs i))) ?Q ?E v" if v: "fs v = fs w \<and> reserved ?key i v" for i v
  proof -
    have kept: "reserved ?key i u" if "same_objects v u" for u using same_reserved [OF that] v by blast
    have plain: "core_plain (fs v)" using v unfolding reserved_def tree_ok_def by blast
    have free: "(hba (bs_dirp cls) i, n) \<notin> objects (fs v)" for n using v reserved_free by blast
    show ?thesis
      unfolding wp_seqM wp_catchM
      by (rule wp_mono [OF create_hba [OF plain free]])
        (use v kept reserved_drop [OF kept] in \<open>auto simp: wp same_objects_def bs_handle_def\<close>)
  qed
  have find: "wp (bs_find_index K name cls ''create'' PNone) (\<lambda>i v. fs v = fs w \<and> reserved ?key i v) ?E u"
    if "fs u = fs w \<and> coherent u \<and> covers u" for u
    by (rule wp_mono [OF reserve]) (use that in auto)
  show ?thesis
    unfolding Backstore_init_def Let_def hba_pdiv
    by (rule wp_seqI [OF wp_mono [OF fill_phase [OF assms]] wp_bindI [OF find make]]) simp_all
qed

text \<open>Deleting an adapter whose object is not there.\<close>

lemma Backstore_delete_free:
  assumes "coherent w" and "bs_handle cls name bs" and "\<And>n. (hba (bs_dirp cls) (bs_index bs), n) \<notin> objects (fs w)"
    and "\<And>h n. (h, n) \<in> objects (fs w) \<Longrightarrow> so_dir_key h n \<noteq> bs_lookup_key bs"
  shows "wp (Backstore_delete K bs) (\<lambda>_ u. objects (fs u) = objects (fs w) \<and> coherent u)
    (\<lambda>_ u. objects (fs u) = objects (fs w) \<and> coherent u) w"
proof -
  have plain: "core_plain (fs w)" using assms(1) unfolding coherent_def tree_ok_def by blast
  have drop: "coherent (u\<lparr>bs_cache := dict_del (bs_cache u) (bs_lookup_key bs)\<rparr>)" if u: "same_objects w u" for u
    by (rule coherent_drop [OF same_coherent [OF u assms(1)]]) (use assms(4) u in \<open>simp add: same_objects_def\<close>)
  have path: "bs_path bs = core_dir @ [hba (bs_dirp cls) (bs_index bs)]" using assms(2) by (simp add: bs_handle_def)
  show ?thesis
    unfolding Backstore_delete_def wp_seqM path
    by (rule wp_mono [OF delete_hba [OF plain assms(3)]])
      (use drop same_coherent [OF _ assms(1)] in \<open>auto simp: wp same_objects_def\<close>)
qed

lemma StorageObject_create:
  assumes "coherent w" and "dir_name name"
  shows "wp (StorageObject_init K cls name ''create'' PNone)
    (\<lambda>so u. coherent u \<and> so_handle so \<and> so_cls so = cls \<and> so_name so = name \<and>
       objects (fs u) = insert (so_object so) (objects (fs w)) \<and>
       (\<forall>(h, n) \<in> objects (fs w). so_dir_index h \<noteq> bs_index (so_backstore so) \<and> so_dir_key h n \<noteq> bs_dirp cls @ ''/'' @ name))
    (\<lambda>_ u. coherent u \<and> objects (fs u) = objects (fs w)) w"
  (is "wp _ ?Q ?E w")
proof (cases "\<exists>c \<in> set name. c \<in> {CHR ''/'', CHR '' '', CHR 0x09, newline}")
  case True
  then show ?thesis using assms(1) unfolding StorageObject_init_def by (simp add: wp)
next
  case False
  then have path: "pjoin p name = p @ [name]" for p
    using assms(2) by (intro pjoin_name) (auto simp: dir_name_def)
  let ?key = "bs_dirp cls @ ''/'' @ name"
  have make: "wp (bindM (bs_get_plugin bs) (\<lambda>plugin.
          seqM (catchM (create_in_cfs_ine K (so_cls_name cls) (pjoin (bs_path bs) name) ''create'')
                  (\<lambda>e. seqM (Backstore_delete K bs) (raise e)))
            (ret \<lparr>so_cls = cls, so_name = name, so_backstore = bs, so_path = pjoin (bs_path bs) name, so_plugin = plugin\<rparr>))) ?Q ?E u"
    if u: "objects (fs u) = objects (fs w) \<and> reserved ?key (bs_index bs) u \<and> bs_handle cls name bs \<and> is_dir (fs u) (bs_path bs)" for bs u
  proof -
    let ?h = "hba (bs_dirp cls) (bs_index bs)"
    from u have bs: "bs_path bs = core_dir @ [?h]" "bs_lookup_key bs = ?key" and res: "reserved ?key (bs_index bs) u"
      by (simp_all add: bs_handle_def)
    have plain: "core_plain (fs u)" and cov: "covers u" using res by (simp_all add: reserved_def tree_ok_def)
    have free: "so_dir_index h \<noteq> bs_index bs \<and> so_dir_key h n \<noteq> ?key" if "(h, n) \<in> objects (fs u)" for h n
      using res that by (auto simp: reserved_def)
    have undo: "wp (Backstore_delete K bs) (\<lambda>_. ?E e) ?E u" for e
      by (rule wp_mono [OF Backstore_delete_free [OF reserved_coherent [OF res] _ reserved_free [OF res]]])
        (use u free bs in auto)
    have added: "coherent u'" if "core_plain (fs u')" "objects (fs u') = insert (?h, name) (objects (fs u))" "u' = u\<lparr>fs := fs u'\<rparr>" for u'
      using reserved_add [OF res that(1,2) bs_dirp_no_slash] that(3) by simp
    have dir: "is_dir (fs u) (bs_path bs)" using u by blast
    have object: "objects (fs u) = objects (fs w)" "bs_handle cls name bs" using u by blast+
    have "wp (create_in_cfs_ine K (so_cls_name cls) (core_dir @ [?h, name]) ''create'')
      (\<lambda>_ u'. coherent u' \<and> objects (fs u') = insert (?h, name) (objects (fs u))) (\<lambda>_ u'. u' = u) u"
      by (rule wp_mono [OF create_so [OF plain dir [unfolded bs(1)] hba_underscore]]) (use added in auto)
    then show ?thesis
      unfolding bs_get_plugin_def wp_bindM wp_seqM wp_check_self bs(1) if_P [OF dir [unfolded bs(1)]] wp_catchM path wp_ret [abs_def] wp_raise [abs_def]
        append_assoc append_Cons append_Nil
      by (rule wp_mono) (use undo object free in \<open>auto simp: so_handle_def so_object_def bs_handle_def bs\<close>)
  qed
  show ?thesis
    unfolding StorageObject_init_def if_not_P [OF False] Let_def
    by (rule wp_bindI [OF wp_mono [OF Backstore_create [OF assms(1)]] make]) auto
qed

lemma Backstore_lookup:
  assumes "coherent w"
  shows "wp (Backstore_init K name cls ''lookup'' PNone)
    (\<lambda>bs u. fs u = fs w \<and> coherent u \<and> covers u \<and> map_of (bs_cache u) (bs_dirp cls @ ''/'' @ name) = Some (bs_index bs) \<and>
       bs_handle cls name bs \<and> is_dir (fs u) (bs_path bs))
    (\<lambda>_ u. fs u = fs w \<and> coherent u) w"
  (is "wp _ ?Q ?E w")
proof -
  let ?key = "bs_dirp cls @ ''/'' @ name"
  let ?p = "\<lambda>i. core_dir @ [hba (bs_dirp cls) i]"
  let ?bs = "\<lambda>i. \<lparr>bs_cls = cls, bs_index = i, bs_path = ?p i, bs_lookup_key = ?key\<rparr>"
  have make: "wp (seqM (catchM (create_in_cfs_ine K ''_Backstore'' (?p i) ''lookup'') (\<lambda>e. seqM (drop_key ?key) (raise e)))
      (ret (?bs i))) ?Q ?E u" if u: "fs u = fs w \<and> coherent u \<and> covers u \<and> map_of (bs_cache u) ?key = Some i" for i u
  proof -
    have tree: "tree_ok (fs u)" and cov: "covers u" and entry: "map_of (bs_cache u) ?key = Some i"
      using u unfolding coherent_def by blast+
    have "so_dir_key h n \<noteq> ?key" if "\<not> is_dir (fs u) (?p i)" "(h, n) \<in> objects (fs u)" for h n
      using entry_object [OF tree cov entry that(2)] that objects_iff [of "fs u" h n] tree
      by (auto simp: tree_ok_def is_dir_plain)
    then have "coherent (u\<lparr>bs_cache := dict_del (bs_cache u) ?key\<rparr>)" if "\<not> is_dir (fs u) (?p i)"
      using coherent_drop [of u ?key] u that by blast
    then show ?thesis
      unfolding wp_seqM wp_catchM
      by (intro wp_mono [OF create_post]) (use u in \<open>auto simp: wp bs_handle_def\<close>)
  qed
  have find: "wp (bs_find_index K name cls ''lookup'' PNone)
      (\<lambda>i v. fs v = fs w \<and> coherent v \<and> covers v \<and> map_of (bs_cache v) ?key = Some i) ?E u"
    if "fs u = fs w \<and> coherent u \<and> covers u" for u
    unfolding bs_find_index_def Let_def using that by (auto simp: wp split: option.splits)
  show ?thesis
    unfolding Backstore_init_def Let_def hba_pdiv
    by (rule wp_seqI [OF wp_mono [OF fill_phase [OF assms]] wp_bindI [OF find make]]) simp_all
qed

lemma StorageObject_lookup:
  assumes "coherent w" and "dir_name name"
  shows "wp (StorageObject_init K cls name ''lookup'' PNone)
    (\<lambda>so u. coherent u \<and> fs u = fs w \<and> so_handle so \<and> so_cls so = cls \<and> so_name so = name \<and> so_object so \<in> objects (fs w))
    (\<lambda>_ u. coherent u \<and> objects (fs u) = objects (fs w)) w"
  (is "wp _ ?Q ?E w")
proof (cases "\<exists>c \<in> set name. c \<in> {CHR ''/'', CHR '' '', CHR 0x09, newline}")
  case True
  then show ?thesis using assms(1) unfolding StorageObject_init_def by (simp add: wp)
next
  case False
  then have path: "pjoin p name = p @ [name]" for p
    using assms(2) by (intro pjoin_name) (auto simp: dir_name_def)
  let ?key = "bs_dirp cls @ ''/'' @ name"
  have make: "wp (bindM (bs_get_plugin bs) (\<lambda>plugin.
          seqM (catchM (create_in_cfs_ine K (so_cls_name cls) (pjoin (bs_path bs) name) ''lookup'')
                  (\<lambda>e. seqM (Backstore_delete K bs) (raise e)))
            (ret \<lparr>so_cls = cls, so_name = name, so_backstore = bs, so_path = pjoin (bs_path bs) name, so_plugin = plugin\<rparr>))) ?Q ?E u"
    if u: "fs u = fs w \<and> coherent u \<and> covers u \<and> map_of (bs_cache u) ?key = Some (bs_index bs) \<and>
       bs_handle cls name bs \<and> is_dir (fs u) (bs_path bs)" for bs u
  proof -
    let ?h = "hba (bs_dirp cls) (bs_index bs)"
    from u have bs: "bs_path bs = core_dir @ [?h]" "bs_lookup_key bs = ?key" "bs_handle cls name bs" and dir: "is_dir (fs u) (bs_path bs)"
      unfolding bs_handle_def by blast+
    from u have coh: "coherent u" and cov: "covers u" and entry: "map_of (bs_cache u) ?key = Some (bs_index bs)" by blast+
    then have tree: "tree_ok (fs u)" "cache_ok (bs_cache u)" and plain: "core_plain (fs u)" by (simp_all add: coherent_def tree_ok_def)
    have object: "(?h, name) \<in> objects (fs u) \<longleftrightarrow> is_dir (fs u) (core_dir @ [?h, name])"
      using plain dir [unfolded bs(1)] objects_iff [OF plain] hba_underscore by (auto simp: core_plain_def is_dir_no_link)
    have undo: "wp (Backstore_delete K bs) (\<lambda>_. ?E e) ?E u" if "(?h, name) \<notin> objects (fs u)" for e
      by (rule wp_mono [OF Backstore_delete_free [OF coh bs(3)]])
        (use u that bs adapter_object [OF tree(2) cov entry] entry_object [OF tree(1) cov entry] in auto)
    show ?thesis
      unfolding bs_get_plugin_def wp_bindM wp_seqM wp_check_self bs(1) if_P [OF dir [unfolded bs(1)]] wp_catchM path wp_ret [abs_def] wp_raise [abs_def]
        append_assoc append_Cons append_Nil
      by (rule wp_mono [OF create_post]) (use u undo object bs in \<open>auto simp: so_handle_def so_object_def bs_handle_def\<close>)
  qed
  show ?thesis
    unfolding StorageObject_init_def if_not_P [OF False] Let_def
    by (rule wp_bindI [OF wp_mono [OF Backstore_lookup [OF assms(1)]] make]) auto
qed

lemma so_remove_object:
  assumes "coherent w" and "so_handle so" and "so_object so \<in> objects (fs w)"
  shows "wp (so_remove K so) (\<lambda>_ u. coherent u \<and> objects (fs u) = objects (fs w) - {so_object so})
    (\<lambda>_ u. coherent u \<and> (objects (fs u) = objects (fs w) \<or> objects (fs u) = objects (fs w) - {so_object so})) w"
  (is "wp _ ?Q ?E w")
proof -
  obtain h name where so: "so_object so = (h, name)" by fastforce
  then have path: "so_path so = core_dir @ [h, name]" and h: "h = hba (bs_dirp (so_cls so)) (bs_index (so_backstore so))"
    and bs: "bs_handle (so_cls so) name (so_backstore so)" and key: "so_dir_key h name = bs_lookup_key (so_backstore so)"
    using assms(2) by (auto simp: so_handle_def so_object_def bs_handle_def hba_parts)
  have plain: "core_plain (fs w)" using assms(1) unfolding coherent_def tree_ok_def by blast
  have dir: "is_dir (fs w) (so_path so)" using assms(3) objects_iff [OF plain] path so by (simp add: is_dir_plain)
  note own = coherent_own [OF assms(1), unfolded own_index_inj own_key_def]
  have rest: "wp (Backstore_delete K (so_backstore so)) ?Q ?E u"
    if u: "u = w\<lparr>fs := f'\<rparr>" "core_plain f'" "objects f' = objects (fs w) - {(h, name)}" for u f'
  proof (rule wp_mono [OF Backstore_delete_free [OF _ bs]])
    show "coherent u" using coherent_shrinks [OF assms(1) u(2)] u by blast
    show "(hba (bs_dirp (so_cls so)) (bs_index (so_backstore so)), n) \<notin> objects (fs u)" for n
      using inj_onD [OF own(1), of "(h, n)" "(h, name)"] assms(3) u so h by auto
    show "so_dir_key h' n \<noteq> bs_lookup_key (so_backstore so)" if "(h', n) \<in> objects (fs u)" for h' n
      using inj_onD [OF own(2), of "(h', n)" "(h, name)"] assms(3) u so key that by auto
  qed (use u so in auto)
  show ?thesis
    unfolding so_remove_def node_delete_def wp_seqM wp_bindM wp_exists wp_if if_P [OF dir] rmdir_def wp_kcall
    using rest rmdir_plain [OF plain, of "[h, name]"] rmdir_so_objects [OF plain, of h name] assms(1)
    by (auto simp: path split: sum.splits)
qed

end

interpretation lio_fs_core: lio_core lio
proof unfold_locales
  fix f h f' n assume "k_mkdir lio f (core_dir @ [h]) = Inr f'"
  then have "f' = filter (\<lambda>(q, _). \<not> prefix (core_dir @ [h]) q) f @ [(core_dir @ [h], Dir)]"
    by (auto simp: lio_mkdir_def default_entries_def core_dir_def configfs_dir_def lio_root_def split: if_splits)
  then show "map_of f' (core_dir @ [h, n]) \<noteq> Some Dir"
    by (auto simp: map_add_def map_of_filter_path split: option.splits)
qed

end
