(* ===== verification/ObjectRuns.thy ===== *)
theory ObjectRuns
  imports Coherence
begin

text \<open>
  Runs of the library on storage objects. \<^verbatim>\<open>StorageObject.delete\<close> makes the root object, which may mount configfs and load modules, walks all
  fabrics and deletes the LUNs that export the object and the ALUA groups below it, before the two directories go (\<open>so_detach\<close>, \<open>so_remove\<close>). None
  of the first part touches the index cache, nor an adapter or object directory, so that a whole deletion is one step of the set of
  objects. The locale \<open>lio_modules\<close> adds to \<open>lio_core\<close> that mounting and loading leave an existing core tree alone. The labelled steps \<open>so_event\<close> have a rule for
  every operation, and every run of them is matched, call by call and outcome by outcome, by a run on the set of objects (the locale \<open>simulation\<close>).
\<close>

section \<open>The cache is left alone\<close>

definition same_cache :: "world \<Rightarrow> world \<Rightarrow> bool" where
  "same_cache w w' = (bs_cache w' = bs_cache w)"

interpretation sc: step_rel same_cache
  by unfold_locales (simp_all add: same_cache_def)

named_theorems sc_prim "primitives that leave the cache alone"

lemma kcall_cache [sc_prim]: "stays same_cache (kcall c p)"
  by (auto simp: stays_wp wp same_cache_def split: sum.splits)

lemma read_text_cache [sc_prim]: "stays same_cache (read_text p)"
  by (auto simp: stays_wp wp same_cache_def split: option.splits node.splits sum.splits)

lemma listdir_cache [sc_prim]: "stays same_cache (listdir p)"
  by (auto simp: stays_wp wp same_cache_def)

lemma uuid4_cache [sc_prim]: "stays same_cache (uuid4 K)"
  by (auto simp: stays_wp wp same_cache_def)

lemma samefile_cache [sc_prim]: "stays same_cache (samefile a b)"
  by (auto simp: stays_wp wp same_cache_def)

lemma run_shell_cache [sc_prim]: "stays same_cache (run_shell K cmd)"
  by (auto simp: stays_wp wp same_cache_def)

lemma load_cache [sc_prim]: "stays same_cache (\<lambda>w. case load (fs w) m of None \<Rightarrow> (Err e, w) | Some f \<Rightarrow> (Ok (), w\<lparr>fs := f\<rparr>))"
  by (auto simp: stays_def same_cache_def split: option.splits)

lemmas io_defs = mkdir_def rmdir_def write_text_def symlink_def unlink_def fread_def fwrite_def fileM_defs iterdir_def glob_prefix_def

lemma node_cache [sc_prim]:
  "stays same_cache (create_in_cfs_ine K cls p mode)" "stays same_cache (node_delete K p)" "stays same_cache (check_self cls p)"
  "stays same_cache (get_attribute cls p a)"
  unfolding create_in_cfs_ine_def stale_hba_def node_delete_def check_self_def get_attribute_def exists_def io_defs Let_def
  by (intro sc.comb sc.base sc_prim)+

lemma fread_cache [sc_prim]: "stays same_cache (fread p)" "stays same_cache (fwrite K p s)" "stays same_cache (unlink K p)"
  unfolding io_defs by (intro sc.comb sc.base sc_prim)+

lemma modprobe_cache [sc_prim]: "stays same_cache (modprobe K m)" "stays same_cache (mount_configfs K)"
  unfolding modprobe_def mount_configfs_def list_loaded_kernel_modules_def Let_def
  by (intro sc.comb sc.base sc_prim)+

lemma RTSRoot_cache [sc_prim]: "stays same_cache (RTSRoot_init K)"
  unfolding RTSRoot_init_def set_dbroot_def Let_def fileM_defs by (intro sc.comb sc.base sc_prim)

lemma alua_cache [sc_prim]: "stays same_cache (alua_supported so)" "stays same_cache (Alua_init K so name tag)" "stays same_cache (Alua_delete K a)"
  unfolding alua_supported_def storage_object_get_alua_support_attr_def Alua_init_def os_to_rts_def Alua_delete_def so_check_def at_check_def Let_def
  by (intro sc.comb sc.base sc_prim)+

lemma so_status_cache [sc_prim]: "stays same_cache (is_configured so)" "stays same_cache (so_get_status so)"
  unfolding is_configured_def so_get_status_def so_parse_info_def none_attr_def so_check_def fileM_defs
  by (intro sc.comb sc.base sc_prim)+

lemma target_cache [sc_prim]: "stays same_cache (Target_init K fm (Some t) mode)" "stays same_cache (TPG_at K t' n mode)"
  "stays same_cache (LUN_lookup K g v)" "stays same_cache (NodeACL_init K g wwn mode)" "stays same_cache (MappedLUN_lookup K na v)"
  unfolding Target_init_def target_name_def fm_check_self_def TPG_at_def set_nexus_def get_nexus_def generate_wwn_def LUN_lookup_def NodeACL_init_def
    MappedLUN_lookup_def ml_checks_def tpg_check_def exists_def fileM_defs iterdir_def for_each_def Let_def option.case
  by (intro sc.comb sc.base sc_prim)+

lemma alias_cache [sc_prim]: "stays same_cache (get_alias cls p)"
  unfolding get_alias_def find_first_def iterdir_def fileM_defs by (intro sc.comb sc.base sc_prim)

lemma MappedLUN_delete_cache [sc_prim]: "stays same_cache (MappedLUN_delete K ml)"
  unfolding MappedLUN_delete_def ml_check_def ml_alias_def fileM_defs by (intro sc.comb sc.base sc_prim)

lemma LUN_delete_cache [sc_prim]: "stays same_cache (LUN_delete K l)"
  unfolding LUN_delete_def lun_check_def lun_alias_def lun_list_mapped_luns_def list_node_acls_def na_list_mapped_luns_def tpg_check_def
    na_check_def ml_alias_def for_each_def iterdir_def glob_prefix_def fileM_defs
  by (intro sc.comb sc.base sc_prim)

lemma TPG_init_cache [sc_prim]: "stays same_cache (TPG_init K t (PStr tag) mode)"
  unfolding TPG_init_def by (intro sc.comb sc.base sc_prim) simp_all

lemma so_detach_cache: "stays same_cache (so_detach K so)"
  unfolding so_detach_def so_check_def list_alua_tpgs_def gen_attached_luns_def list_fabric_modules_def root_check_def attached_lun_def
    for_each_def iterdir_def exists_def fileM_defs Let_def
  by (intro sc.comb sc.base sc_prim)

section \<open>The adapters and objects are left alone\<close>

text \<open>
  While the core tree is there, the shape of everything in it stays but for what is strictly below the directory \<open>p\<close>.
\<close>

definition core_kept :: "path \<Rightarrow> path \<Rightarrow> bool" where
  "core_kept p q = (q = configfs_dir \<or> prefix core_dir q \<and> \<not> strict_prefix p q)"

definition core_there :: "world \<Rightarrow> bool" where
  "core_there w = (map_of (fs w) configfs_dir = Some Dir \<and> map_of (fs w) core_dir = Some Dir)"

definition core_frame :: "path \<Rightarrow> world \<Rightarrow> world \<Rightarrow> bool" where
  "core_frame p w w' = (prefix core_dir p \<and> core_there w \<longrightarrow> frame (\<lambda>q. \<not> core_kept p q) w w')"

lemma core_frame_there:
  assumes "prefix core_dir p" and "frame (\<lambda>q. \<not> core_kept p q) w w'" and "core_there w"
  shows "core_there w'"
proof -
  have "core_kept p configfs_dir" by (simp add: core_kept_def)
  moreover have "core_kept p core_dir" using assms(1) by (auto simp: core_kept_def)
  ultimately show ?thesis using assms(2,3) frame_keeps_dir unfolding core_there_def by blast
qed

interpretation cf: step_rel "core_frame p" for p
proof
  show "core_frame p s s" for s by (simp add: core_frame_def fr.refl)
  show "core_frame p s t \<Longrightarrow> core_frame p t u \<Longrightarrow> core_frame p s u" for s t u
    unfolding core_frame_def using core_frame_there fr.trans by blast
qed

lemma frame_core: "stays (frame A) m \<Longrightarrow> (\<And>q. A q \<Longrightarrow> \<not> core_kept p q) \<Longrightarrow> stays (core_frame p) m"
  by (rule stays_mono [where R = "frame A"]) (auto simp: core_frame_def elim: frame_mono)

lemma quiet_core: "stays (frame no_shape) m \<Longrightarrow> stays (core_frame p) m"
  by (erule frame_core) simp

text \<open>Every fabric has its directory beside \<^verbatim>\<open>core\<close>.\<close>

lemma fabric_off_core:
  assumes "fm \<in> set FabricModule_all" and "prefix (fm_path fm) q"
  shows "\<not> core_kept p q"
proof -
  have "\<forall>fm \<in> set FabricModule_all. fm_path fm \<noteq> [] \<and> butlast (fm_path fm) = configfs_dir \<and> last (fm_path fm) \<noteq> ''core''"
    by code_simp
  then obtain x where x: "fm_path fm = configfs_dir @ [x]" "x \<noteq> ''core''"
    using assms(1) by (metis append_butlast_last_id)
  then obtain r where "q = configfs_dir @ x # r" using assms(2) by (auto simp: prefix_def)
  then show ?thesis using x(2) by (simp add: core_kept_def core_dir_def)
qed

lemma Target_yields: "yields (\<lambda>t. prefix (fm_path fm) (tgt_path t)) (Target_init K fm (Some s) mode)"
  unfolding Target_init_def Let_def by (auto intro!: yields_rules split: prod.splits)

lemma TPG_init_yields: "yields (\<lambda>g. prefix (tgt_path t) (tpg_path g)) (TPG_init K t (PStr tag) mode)"
  unfolding TPG_init_def TPG_at_def Let_def by (intro yields_rules) simp

lemma attached_lun_yields:
  "yields (\<lambda>l. prefix (fm_path fm) (tpg_path (lun_tpg l)) \<and> prefix (fm_path fm) (lun_path l)) (attached_lun K fm a b c)"
  unfolding attached_lun_def Let_def
  by (intro yields_bindM_on [OF Target_yields] yields_bindM yields_bindM_on [OF TPG_init_yields] yields_mono [OF LUN_lookup_yields])
    (auto dest: prefix_order.trans)

locale lio_modules = lio_core +
  assumes shell_core: "map_of f core_dir = Some Dir \<Longrightarrow> q = configfs_dir \<or> prefix core_dir q \<Longrightarrow> shape (snd (k_shell K f cmd)) q = shape f q"
    and kmod_core: "k_kmod K = Some load \<Longrightarrow> load f m = Some f' \<Longrightarrow> map_of f core_dir = Some Dir \<Longrightarrow>
      q = configfs_dir \<or> prefix core_dir q \<Longrightarrow> shape f' q = shape f q"
begin

lemma run_shell_core: "stays (core_frame p) (run_shell K cmd)"
  using shell_core by (auto simp: stays_wp wp core_frame_def core_there_def core_kept_def frame_def)

lemma modprobe_core: "stays (core_frame p) (modprobe K m)"
proof -
  have "stays (core_frame p) (\<lambda>w. case load (fs w) m of None \<Rightarrow> (Err e, w) | Some f \<Rightarrow> (Ok (), w\<lparr>fs := f\<rparr>))"
    if "k_kmod K = Some load" for load e
    using kmod_core [OF that] by (auto simp: stays_def core_frame_def core_there_def core_kept_def frame_def split: option.splits)
  then show ?thesis
    unfolding modprobe_def list_loaded_kernel_modules_def
    by (auto intro!: cf.comb cf.base quiet_core [OF fread_stays] run_shell_core split: option.splits)
qed

lemma mount_core: "stays (core_frame p) (mount_configfs K)"
  unfolding mount_configfs_def Let_def by (intro cf.comb cf.base run_shell_core)

lemma root_create_core: "stays (core_frame p) (create_in_cfs_ine K cls configfs_dir ''any'')"
proof -
  have "create_in_cfs_ine K cls configfs_dir ''any'' w = (Ok (), w)" if "core_there w" for w
    using that unfolding run_eq
    by (simp add: create_in_cfs_ine_def wp core_there_def is_dir_plain)
  then show ?thesis by (auto simp: stays_def core_frame_def fr.refl)
qed

lemma RTSRoot_core: "stays (core_frame p) (RTSRoot_init K)"
  unfolding RTSRoot_init_def set_dbroot_def Let_def
  by (intro cf.comb cf.base mount_core modprobe_core root_create_core quiet_core [OF fread_stays] quiet_core [OF fwrite_stays] quiet_core [OF fileM_stays(1)])

lemma create_core: "fm \<in> set FabricModule_all \<Longrightarrow> prefix (fm_path fm) q \<Longrightarrow> stays (core_frame p) (create_in_cfs_ine K cls q mode)"
  by (rule frame_core [OF create_stays]) (auto dest: fabric_off_core)

lemma attached_lun_core:
  assumes "fm \<in> set FabricModule_all"
  shows "stays (core_frame p) (attached_lun K fm a b c)"
proof -
  have T: "stays (core_frame p) (Target_init K fm (Some s) mode)" for s mode
    unfolding Target_init_def target_name_def fm_check_self_def Let_def option.case
    by (intro cf.comb cf.base modprobe_core create_core [OF assms] quiet_core [OF exists_stays] quiet_core [OF check_self_stays]) auto
  have G: "stays (core_frame p) (TPG_init K t (PStr tag) mode)" if "prefix (fm_path fm) (tgt_path t)" for t tag mode
  proof -
    have "stays (core_frame p) (TPG_at K t n mode)" for n
      by (rule frame_core [OF TPG_at_stays [OF that]]) (rule fabric_off_core [OF assms])
    then show ?thesis unfolding TPG_init_def by (intro cf.comb cf.base) simp_all
  qed
  show ?thesis
    unfolding attached_lun_def Let_def
    by (intro cf.bindM_stays_on [OF T Target_yields] cf.comb cf.base G quiet_core [OF LUN_lookup_stays])
qed

lemma LUN_delete_core:
  assumes "fm \<in> set FabricModule_all" and "prefix (fm_path fm) (tpg_path (lun_tpg l)) \<and> prefix (fm_path fm) (lun_path l)"
  shows "stays (core_frame p) (LUN_delete K l)"
proof (rule frame_core [OF LUN_delete_stays])
  show "below (lun_path l) (prefix (fm_path fm))" using assms(2) by (simp add: below_prefix)
  show "below q (prefix (fm_path fm))" if "strict_prefix (tpg_path (lun_tpg l)) q" for q
    using assms(2) that by (auto intro!: below_prefix prefix_order.trans [of "fm_path fm" "tpg_path (lun_tpg l)"])
  show "\<And>q. prefix (fm_path fm) q \<Longrightarrow> \<not> core_kept p q" by (rule fabric_off_core [OF assms(1)])
qed

lemma gen_attached_luns_core:
  assumes "\<And>l c fm. fm \<in> set FabricModule_all \<Longrightarrow> prefix (fm_path fm) (tpg_path (lun_tpg l)) \<and> prefix (fm_path fm) (lun_path l) \<Longrightarrow>
    stays (core_frame p) (body l c)"
  shows "stays (core_frame p) (gen_attached_luns K so body c)"
  unfolding gen_attached_luns_def list_fabric_modules_def root_check_def iterdir_def Let_def
  by (intro cf.comb cf.base RTSRoot_core quiet_core [OF check_self_stays] quiet_core [OF exists_stays] quiet_core [OF listdir_stays]
      quiet_core [OF fileM_stays(1)] cf.bindM_stays_on [OF attached_lun_core attached_lun_yields] assms)

lemma so_detach_core:
  assumes "prefix core_dir (so_path so)"
  shows "stays (core_frame (so_path so)) (so_detach K so)"
proof -
  have off: "\<not> core_kept (so_path so) q" if "strict_prefix (so_path so) q" for q
  proof -
    have "length core_dir < length q" using assms that by (auto simp: strict_prefix_def prefix_def)
    then show ?thesis using that by (auto simp: core_kept_def core_dir_def)
  qed
  have alua: "stays (frame (strict_prefix (so_path so))) (for_each (list_alua_tpgs K so) (\<lambda>a. whenM (at_name a \<noteq> ''default_tg_pt_gp'') (Alua_delete K a)))"
    by (rule fr.for_each_stays_on [where P = "\<lambda>a. strict_prefix (so_path so) (at_path a)"])
      (auto intro!: list_alua_tpgs_stays fr.comb Alua_delete_stays below_strict)
  have status: "stays (frame no_shape) (is_configured so)" "stays (frame no_shape) (so_get_status so)"
    unfolding is_configured_def so_get_status_def so_parse_info_def none_attr_def by (intro fr.comb fr.base pres)+
  show ?thesis
    unfolding so_detach_def
    by (intro cf.seqM_stays cf.bindM_stays cf.if_stays cf.base gen_attached_luns_core LUN_delete_core frame_core [OF alua off]
        quiet_core [OF so_check_stays] quiet_core [OF status(1)] quiet_core [OF status(2)])
qed

lemma so_detach_same:
  assumes "coherent w" and "so_handle so"
  shows "wp (so_detach K so) (\<lambda>_. same_objects w) (\<lambda>_. same_objects w) w"
proof -
  obtain h n where path: "so_path so = core_dir @ [h, n]" using assms(2) by (simp add: so_handle_def)
  have plain: "core_plain (fs w)" using assms(1) unfolding coherent_def tree_ok_def by blast
  have kept: "core_kept (so_path so) configfs_dir" "core_kept (so_path so) (core_dir @ r)" if "length r \<le> 2" for r
    using that by (auto simp: core_kept_def path strict_prefix_def prefix_def)
  have same: "same_objects w w'" if frame: "core_frame (so_path so) w w'" and "same_cache w w'" for w'
  proof -
    have there: "prefix core_dir (so_path so) \<and> core_there w" using plain by (simp add: path core_there_def core_plain_def)
    then have shape: "shape (fs w') q = shape (fs w) q" if "core_kept (so_path so) q" for q
      using frame that by (simp add: core_frame_def frame_def)
    note s = shape [OF kept(2)] shape [OF kept(2) [of "[]"]] shape [OF kept(1) [of "[]"]]
    have "core_plain (fs w')"
      using plain s(1) [of "[_]"] s(1) [of "[_, _]"] map_of_shape_cong(2) [OF s(2)] map_of_shape_cong(2) [OF s(3)]
      by (simp add: core_plain_def is_symlink_shape del: shape_simps)
    moreover from this have "objects (fs w') = objects (fs w)"
      using map_of_shape_cong(2) [OF s(1) [of "[_]"]] map_of_shape_cong(2) [OF s(1) [of "[_, _]"]] objects_iff [OF plain] objects_iff [of "fs w'"]
      by (auto intro!: set_eqI)
    ultimately show ?thesis using that(2) by (simp add: same_objects_def same_cache_def)
  qed
  have "prefix core_dir (so_path so)" by (simp add: path)
  note both = so_detach_core [OF this, unfolded stays_wp, THEN spec, of w] so_detach_cache [unfolded stays_wp, THEN spec, of K so w]
  from wp_conj [OF both] show ?thesis by (rule wp_mono) (blast intro: same)+
qed

lemma so_delete_object:
  assumes "coherent w" and "so_handle so" and "so_object so \<in> objects (fs w)"
  shows "wp (so_delete K so) (\<lambda>_ u. coherent u \<and> objects (fs u) = objects (fs w) - {so_object so})
    (\<lambda>_ u. coherent u \<and> (objects (fs u) = objects (fs w) \<or> objects (fs u) = objects (fs w) - {so_object so})) w"
  unfolding so_delete_split
proof (rule wp_seqI [OF wp_mono [OF so_detach_same [OF assms(1,2)]]])
  fix u :: world assume u: "same_objects w u"
  then have "objects (fs u) = objects (fs w)" by (simp add: same_objects_def)
  with so_remove_object [OF same_coherent [OF u assms(1)] assms(2)] assms(3)
  show "wp (so_remove K so) (\<lambda>_ u. coherent u \<and> objects (fs u) = objects (fs w) - {so_object so})
    (\<lambda>_ u. coherent u \<and> (objects (fs u) = objects (fs w) \<or> objects (fs u) = objects (fs w) - {so_object so})) u"
    by simp
qed (use same_coherent [OF _ assms(1)] in \<open>auto simp: same_objects_def\<close>)

end

interpretation lio_mods: lio_modules lio
  by unfold_locales (simp_all add: lio_def)

section \<open>Runs\<close>

text \<open>
  What a program does to storage objects by name: it creates them, looks them up, deletes existing ones, and drops the cache
  (\<^verbatim>\<open>invalidate_caches\<close>); whatever else it does leaves the objects and the cache alone. The label of a step says which
  operation was called, with which arguments, and what it returned or raised.
\<close>

datatype so_label =
    Create so_class string "storage_object res"
  | Lookup so_class string "storage_object res"
  | Delete "string \<times> string" "unit res"
  | Forget
  | Other

inductive so_event :: "env \<Rightarrow> world \<Rightarrow> so_label \<Rightarrow> world \<Rightarrow> bool" for K where
  create: "dir_name name \<Longrightarrow> StorageObject_init K cls name ''create'' PNone w = (r, w') \<Longrightarrow> so_event K w (Create cls name r) w'"
| lookup: "dir_name name \<Longrightarrow> so_lookup K cls name PNone w = (r, w') \<Longrightarrow> so_event K w (Lookup cls name r) w'"
| delete: "so_handle so \<Longrightarrow> so_object so \<in> objects (fs w) \<Longrightarrow> so_delete K so w = (r', w') \<Longrightarrow> so_event K w (Delete (so_object so) r') w'"
| forget: "invalidate_caches w = (r', w') \<Longrightarrow> so_event K w Forget w'"
| other: "same_objects w w' \<Longrightarrow> so_event K w Other w'"

definition so_step :: "env \<Rightarrow> world \<Rightarrow> world \<Rightarrow> bool" where
  "so_step K w w' = (\<exists>l. so_event K w l w')"

text \<open>
  What each operation with that outcome is meant to do to the set of objects. Only a deletion that raises leaves it open whether its object
  is there afterwards.
\<close>

definition fresh_in :: "(string \<times> string) set \<Rightarrow> string \<times> string \<Rightarrow> bool" where
  "fresh_in S x = (\<forall>(h, n) \<in> S. so_dir_index h \<noteq> so_dir_index (fst x) \<and> so_dir_key h n \<noteq> so_dir_key (fst x) (snd x))"

inductive pool_event :: "(string \<times> string) set \<Rightarrow> so_label \<Rightarrow> (string \<times> string) set \<Rightarrow> bool" where
  create_ok: "so_object so = (hba (bs_dirp cls) i, name) \<Longrightarrow> fresh_in S (so_object so) \<Longrightarrow>
    pool_event S (Create cls name (Ok so)) (insert (so_object so) S)"
| create_err: "pool_event S (Create cls name (Err e)) S"
| lookup_ok: "so_object so = (hba (bs_dirp cls) i, name) \<Longrightarrow> so_object so \<in> S \<Longrightarrow> pool_event S (Lookup cls name (Ok so)) S"
| lookup_err: "pool_event S (Lookup cls name (Err e)) S"
| delete_ok: "x \<in> S \<Longrightarrow> pool_event S (Delete x (Ok ())) (S - {x})"
| delete_err: "x \<in> S \<Longrightarrow> S' = S \<or> S' = S - {x} \<Longrightarrow> pool_event S (Delete x (Err e)) S'"
| forget: "pool_event S Forget S"
| other: "pool_event S Other S"

inductive_simps pool_event_simps [simp]:
  "pool_event S (Create cls name (Ok so)) S'" "pool_event S (Create cls name (Err e)) S'"
  "pool_event S (Lookup cls name (Ok so)) S'" "pool_event S (Lookup cls name (Err e)) S'"
  "pool_event S (Delete x (Ok u)) S'" "pool_event S (Delete x (Err e)) S'" "pool_event S Forget S'" "pool_event S Other S'"

text \<open>Runs with the labels they show, and what a simulation that keeps the labels gives for them.\<close>

inductive trace :: "('s \<Rightarrow> 'l \<Rightarrow> 's \<Rightarrow> bool) \<Rightarrow> 's \<Rightarrow> 'l list \<Rightarrow> 's \<Rightarrow> bool" for R where
  start: "trace R s [] s"
| step: "trace R s ls t \<Longrightarrow> R t l u \<Longrightarrow> trace R s (ls @ [l]) u"

lemma trace_of_steps: "(\<lambda>s t. \<exists>l. R s l t)\<^sup>*\<^sup>* s t \<Longrightarrow> \<exists>ls. trace R s ls t"
  by (induction rule: rtranclp_induct) (blast intro: trace.intros)+

locale simulation =
  fixes R :: "'s \<Rightarrow> 'l \<Rightarrow> 's \<Rightarrow> bool" and A :: "'a \<Rightarrow> 'l \<Rightarrow> 'a \<Rightarrow> bool" and inv :: "'s \<Rightarrow> bool" and abs :: "'s \<Rightarrow> 'a"
  assumes simulates: "R s l t \<Longrightarrow> inv s \<Longrightarrow> inv t \<and> A (abs s) l (abs t)"
begin

lemma trace_refines: "trace R s ls t \<Longrightarrow> inv s \<Longrightarrow> inv t \<and> trace A (abs s) ls (abs t)"
proof (induction rule: trace.induct)
  case (step s ls t l u)
  from step.IH [OF step.prems] simulates [OF step.hyps(2)] show ?case using trace.step [where R = A] by blast
qed (simp add: trace.start)

lemma steps_keep: "(\<lambda>s t. \<exists>l. R s l t)\<^sup>*\<^sup>* s t \<Longrightarrow> inv s \<Longrightarrow> inv t"
  by (drule trace_of_steps) (auto dest: trace_refines)

end

text \<open>One step of the library is one step of the set of objects with the same label.\<close>

lemma wp_run2: "wp m Q E w \<Longrightarrow> m w = (r, w') \<Longrightarrow> (case r of Ok x \<Rightarrow> Q x w' | Err e \<Rightarrow> E e w')"
  by (cases r) (simp_all add: wp_def)

context lio_modules
begin

lemma so_event_simulates:
  assumes "so_event K w l w'" and "coherent w"
  shows "coherent w' \<and> pool_event (objects (fs w)) l (objects (fs w'))"
  using assms(1)
proof cases
  case (create name cls r)
  from wp_run2 [OF StorageObject_create [OF assms(2) create(2)] create(3)] show ?thesis
    unfolding create(1) by (auto simp: so_object_def fresh_in_def hba_parts split: res.splits)
next
  case (lookup name cls r)
  from wp_run2 [OF StorageObject_lookup [OF assms(2) lookup(2)] lookup(3) [unfolded so_lookup_def]] show ?thesis
    unfolding lookup(1) by (auto simp: so_object_def split: res.splits)
next
  case (delete so r)
  from wp_run2 [OF so_delete_object [OF assms(2) delete(2,3)] delete(4)] show ?thesis
    unfolding delete(1) using delete(3) by (auto split: res.splits)
next
  case (forget r)
  then show ?thesis using coherent_empty [OF assms(2)] by (auto simp: invalidate_caches_def modify_def)
next
  case other
  then show ?thesis using same_coherent [OF _ assms(2)] by (auto simp: same_objects_def)
qed

end

sublocale lio_modules \<subseteq> so_runs: simulation "so_event K" pool_event coherent "\<lambda>w. objects (fs w)"
  by unfold_locales (rule so_event_simulates)

context lio_modules
begin

lemma so_steps_keep: "(so_step K)\<^sup>*\<^sup>* w0 w \<Longrightarrow> coherent w0 \<Longrightarrow> coherent w"
  unfolding so_step_def [abs_def] by (rule so_runs.steps_keep)

lemma so_traces_refine: "trace (so_event K) w0 ls w \<Longrightarrow> coherent w0 \<Longrightarrow> trace pool_event (objects (fs w0)) ls (objects (fs w))"
  using so_runs.trace_refines by blast

end

section \<open>Properties\<close>

text \<open>
  C9. Storage objects keep an index and a name of their own. Starting from a state whose cache agrees with the tree, any sequence of creations,
  lookups and deletions by name, each with whatever outcome, cache invalidations and other actions leads to a state in which no
  two storage objects share an adapter index, nor a name within a plugin, and in which the cache is empty or knows every
  storage object under its index.
\<close>

theorem storage_objects_coherent:
  assumes "lio_modules K" and "coherent w0" and "(so_step K)\<^sup>*\<^sup>* w0 w"
  shows "own_index (fs w) \<and> own_key (fs w) \<and> cache_ok (bs_cache w) \<and> (bs_cache w = [] \<or> covers w)"
proof -
  have "coherent w" by (rule lio_modules.so_steps_keep [OF assms(1,3,2)])
  from coherent_own [OF this] this show ?thesis unfolding coherent_def by blast
qed

text \<open>
  C10. Refinement of the set of storage objects, operation by operation. Starting from a state whose cache agrees with the tree, and whatever the
  kernel refuses, a run of the library that shows the sequence of calls and outcomes \<open>ls\<close> is a run of the set of objects that shows
  the same sequence: a creation that returned a handle adds exactly the object of the handle, in an adapter of its class, with the given
  name and with an index and a key that no object has; a deletion that returned removes exactly its object, one that raised
  at most that; and a creation that raised, a lookup with either outcome, an invalidation of the cache and any action that
  leaves objects and cache alone change nothing. A lookup that returned has found an object of the set.
\<close>

theorem storage_objects_refine:
  assumes "lio_modules K" and "coherent w0" and "trace (so_event K) w0 ls w"
  shows "trace pool_event (objects (fs w0)) ls (objects (fs w))"
  by (rule lio_modules.so_traces_refine [OF assms(1,3,2)])

text \<open>
  C11. Creation is all or nothing. When the cache agrees with the tree, a creation without an index that returns has added
  exactly the object of the returned handle, whose index and key no object had; one that raises has left the set of objects as it was. In both
  cases the cache agrees with the tree afterwards.
\<close>

theorem storage_object_create_atomic:
  assumes "lio_core K" and "coherent w" and "dir_name name"
  shows "wp (StorageObject_init K cls name ''create'' PNone)
    (\<lambda>so u. coherent u \<and> so_handle so \<and> so_cls so = cls \<and> so_name so = name \<and>
       objects (fs u) = insert (so_object so) (objects (fs w)) \<and>
       (\<forall>(h, n) \<in> objects (fs w). so_dir_index h \<noteq> bs_index (so_backstore so) \<and> so_dir_key h n \<noteq> bs_dirp cls @ ''/'' @ name))
    (\<lambda>_ u. coherent u \<and> objects (fs u) = objects (fs w)) w"
  by (rule lio_core.StorageObject_create [OF assms])

text \<open>
  C32. A lookup with the wrong index forgets the object. Looking a storage object up with an explicit index that has no adapter directory
  raises and takes the entry of that name out of the cache, although the caller's index was meant to bypass the cache: an
  object of that name that exists under another index is still there, the cache no longer covers it, and in a state that
  was coherent with a filled cache its index is free to be given to a new object.
\<close>

theorem lookup_wrong_index_forgets:
  assumes "\<forall>c \<in> set name. c \<notin> {CHR ''/'', CHR '' '', CHR 0x09, newline}" and "coherent w" and "covers w"
    and "(hba (bs_dirp cls) i, name) \<in> objects (fs w)" and "\<not> is_dir (fs w) (core_dir @ [hba (bs_dirp cls) j])"
  shows "\<exists>e w'. so_lookup K cls name (PInt j) w = (Err e, w') \<and> (hba (bs_dirp cls) i, name) \<in> objects (fs w') \<and>
    map_of (bs_cache w) (bs_dirp cls @ ''/'' @ name) = Some i \<and> i \<notin> snd ` set (bs_cache w') \<and> \<not> covers w'"
proof -
  let ?key = "bs_dirp cls @ ''/'' @ name"
  have entry: "map_of (bs_cache w) ?key = Some i" using coversD [OF assms(3,4)] by (simp add: hba_parts)
  have "inj_on snd (set (bs_cache w))" using assms(2) by (simp add: coherent_def cache_ok_def distinct_map)
  then have "k = ?key" if "(k, i) \<in> set (bs_cache w)" for k
    using that map_of_SomeD [OF entry] unfolding inj_on_def by force
  then have free: "i \<notin> snd ` set (dict_del (bs_cache w) ?key)" by (auto simp: dict_del_def)
  have name: "\<not> (\<exists>c \<in> set name. c \<in> {CHR ''/'', CHR '' '', CHR 0x09, newline})" using assms(1) by blast
  have "wp (so_lookup K cls name (PInt j)) (\<lambda>_ _. False) (\<lambda>_ w'. w' = w\<lparr>bs_cache := dict_del (bs_cache w) ?key\<rparr>) w"
    unfolding so_lookup_def StorageObject_init_def if_not_P [OF name] Backstore_init_def bs_find_index_def Let_def hba_pdiv create_in_cfs_ine_def
    using assms(5) by (simp add: wp)
  then obtain e where "so_lookup K cls name (PInt j) w = (Err e, w\<lparr>bs_cache := dict_del (bs_cache w) ?key\<rparr>)"
    by (auto simp: wp_def split: prod.splits res.splits)
  moreover have "\<not> covers (w\<lparr>bs_cache := dict_del (bs_cache w) ?key\<rparr>)"
    using assms(4) by (auto simp: covers_def hba_parts intro!: bexI [OF _ assms(4)])
  ultimately show ?thesis using assms(4) entry free by auto
qed

lemma coherent_world0: "coherent world0"
proof -
  have none: "objects (fs world0) = {}" unfolding objects_def by code_simp
  have "map_of (fs world0) core_dir = Some Dir" "map_of (fs world0) configfs_dir = Some Dir" by code_simp+
  moreover have "\<not> is_symlink (fs world0) p" for p by (simp add: world0_def is_symlink_def split: option.splits node.splits)
  ultimately show ?thesis
    using none by (simp add: coherent_def tree_ok_def core_plain_def canonical_def covers_def cache_ok_def)
      (simp add: world0_def)
qed

text \<open>A run: an object is created, and deleted again.\<close>

definition demo_create :: "storage_object res \<times> world" where
  "demo_create = StorageObject_init lio FileIO ''a'' ''create'' PNone world0"

definition demo_delete :: "unit res \<times> world" where
  "demo_delete = (case fst demo_create of Ok so \<Rightarrow> so_delete lio so (snd demo_create) | Err e \<Rightarrow> (Err e, snd demo_create))"

lemma demo_created: "case fst demo_create of Ok so \<Rightarrow> so_handle so \<and> so_object so = (''fileio_0'', ''a'') | Err e \<Rightarrow> False"
  by code_simp

lemma demo_run:
  "so_event lio world0 (Create FileIO ''a'' (fst demo_create)) (snd demo_create)" "objects (fs (snd demo_create)) = {(''fileio_0'', ''a'')}"
  "so_event lio (snd demo_create) (Delete (''fileio_0'', ''a'') (fst demo_delete)) (snd demo_delete)"
proof -
  have name: "dir_name ''a''" by code_simp
  show "so_event lio world0 (Create FileIO ''a'' (fst demo_create)) (snd demo_create)"
    by (rule so_event.create [OF name]) (simp add: demo_create_def)
  have "so_dirs (fs (snd demo_create)) = [(''fileio_0'', ''a'')]" by code_simp
  then show objs: "objects (fs (snd demo_create)) = {(''fileio_0'', ''a'')}" by (simp add: objects_def)
  obtain so where so: "fst demo_create = Ok so" "so_handle so" "so_object so = (''fileio_0'', ''a'')"
    using demo_created by (auto split: res.splits)
  have "so_event lio (snd demo_create) (Delete (so_object so) (fst demo_delete)) (snd demo_delete)"
    by (rule so_event.delete [OF so(2)]) (simp_all add: so(1,3) objs demo_delete_def)
  then show "so_event lio (snd demo_create) (Delete (''fileio_0'', ''a'') (fst demo_delete)) (snd demo_delete)" by (simp add: so(3))
qed

lemma demo_step: "(so_step lio)\<^sup>*\<^sup>* world0 (snd demo_create)"
  using demo_run(1) unfolding so_step_def [abs_def] by blast

theorem storage_objects_coherent_witness:
  "\<exists>w. (so_step lio)\<^sup>*\<^sup>* world0 w \<and> bs_cache w = [(''fileio/a'', 0)] \<and> covers w"
proof -
  have "bs_cache (snd demo_create) = [] \<or> covers (snd demo_create)"
    using storage_objects_coherent [OF lio_mods.lio_modules_axioms coherent_world0 demo_step] by (elim conjE)
  moreover have "bs_cache (snd demo_create) = [(''fileio/a'', 0)]" by code_simp
  ultimately show ?thesis using demo_step by auto
qed

theorem storage_objects_refine_witness:
  "\<exists>so w. trace (so_event lio) world0 [Create FileIO ''a'' (Ok so), Delete (''fileio_0'', ''a'') (Ok ())] w \<and>
     trace pool_event (objects (fs world0)) [Create FileIO ''a'' (Ok so), Delete (''fileio_0'', ''a'') (Ok ())] (objects (fs w)) \<and>
     so_object so = (''fileio_0'', ''a'') \<and> objects (fs w) = {}"
proof -
  obtain so where so: "fst demo_create = Ok so" "so_object so = (''fileio_0'', ''a'')"
    using demo_created by (auto split: res.splits)
  have del: "fst demo_delete = Ok ()" by code_simp
  have none: "objects (fs (snd demo_delete)) = {}" unfolding objects_def by code_simp
  have run: "trace (so_event lio) world0 [Create FileIO ''a'' (Ok so), Delete (''fileio_0'', ''a'') (Ok ())] (snd demo_delete)"
    using trace.step [where R = "so_event lio", OF trace.step [where R = "so_event lio", OF trace.start demo_run(1)] demo_run(3)] by (simp add: so(1) del)
  from storage_objects_refine [OF lio_mods.lio_modules_axioms coherent_world0 run] run so(2) none show ?thesis by blast
qed

theorem storage_object_create_atomic_witness:
  "\<exists>so u. StorageObject_init lio FileIO ''a'' ''create'' PNone world0 = (Ok so, u) \<and> coherent u \<and>
     objects (fs u) = insert (so_object so) (objects (fs world0)) \<and> so_object so = (''fileio_0'', ''a'')"
proof -
  have "dir_name ''a''" by code_simp
  note spec = storage_object_create_atomic [OF lio_fs_core.lio_core_axioms coherent_world0 this, of FileIO]
  from demo_created spec show ?thesis unfolding demo_create_def
    by (auto simp: wp_def split: prod.splits res.splits)
qed

theorem lookup_wrong_index_forgets_witness:
  "\<exists>w e w'. so_lookup lio FileIO ''a'' (PInt 7) w = (Err e, w') \<and> (''fileio_0'', ''a'') \<in> objects (fs w') \<and> \<not> covers w'"
proof -
  let ?w = "snd demo_create"
  have coh: "coherent ?w" by (rule lio_mods.so_steps_keep [OF demo_step coherent_world0])
  moreover have "bs_cache ?w \<noteq> []" by code_simp
  ultimately have cov: "covers ?w" by (simp add: coherent_def)
  have h: "hba (bs_dirp FileIO) 0 = ''fileio_0''" by code_simp
  have "(hba (bs_dirp FileIO) 0, ''a'') \<in> objects (fs ?w)" using demo_run(2) h by simp
  moreover have "\<not> is_dir (fs ?w) (core_dir @ [hba (bs_dirp FileIO) 7])" by code_simp
  moreover have "\<forall>c \<in> set ''a''. c \<notin> {CHR ''/'', CHR '' '', CHR 0x09, newline}" by code_simp
  ultimately show ?thesis using lookup_wrong_index_forgets [OF _ coh cov] h by metis
qed

end
