(* ===== verification/Identity.thy ===== *)
theory Identity
  imports ObjectRuns
begin

text \<open>
  How objects compare and print: \<^verbatim>\<open>__eq__\<close>, \<^verbatim>\<open>__ne__\<close> and \<^verbatim>\<open>__repr__\<close> of the classes. A node is its path, but a storage object overrides the
  comparison with that of its plugin and name; the theory shows that the two agree on the objects of the tree as long as the cache agrees
  with it, and that the printed form of a storage object identifies it.
\<close>

section \<open>Comparison\<close>

definition node_eq :: "path \<Rightarrow> path \<Rightarrow> bool" where
  "node_eq self other = (self = other)"

definition node_ne :: "path \<Rightarrow> path \<Rightarrow> bool" where
  "node_ne self other = (self \<noteq> other)"

definition so_ne :: "storage_object \<Rightarrow> storage_object \<Rightarrow> bool" where
  "so_ne self other = (\<not> so_eq self other)"

section \<open>Printed forms\<close>

definition so_repr :: "storage_object \<Rightarrow> string" where
  "so_repr so = ''<'' @ so_cls_name (so_cls so) @ '' '' @ so_plugin so @ ''/'' @ so_name so @ ''>''"

definition target_repr :: "target \<Rightarrow> string" where
  "target_repr t = ''<Target '' @ fm_name (tgt_fm t) @ ''/'' @ tgt_wwn t @ ''>''"

definition tpg_repr :: "tpg \<Rightarrow> string" where
  "tpg_repr g = ''<TPG '' @ str_of_int (tpg_tag g) @ ''>''"

text \<open>The storage object is looked up for each of its two fields.\<close>

definition lun_repr :: "env \<Rightarrow> lun \<Rightarrow> string W" where
  "lun_repr K l =
     bindM (get_storage_object K l) (\<lambda>a. bindM (get_storage_object K l) (\<lambda>b.
       ret (''<LUN '' @ str_of_int (lun_lun l) @ '' ('' @ so_plugin a @ ''/'' @ so_name b @ '')>'')))"

definition np_repr :: "portal \<Rightarrow> string" where
  "np_repr np = ''<NetworkPortal '' @ np_ip_address np @ '' port '' @ str_of_int (np_port np) @ ''>''"

definition na_repr :: "node_acl \<Rightarrow> string" where
  "na_repr na = ''<NodeACL '' @ na_wwn na @ ''>''"

definition ml_repr :: "env \<Rightarrow> mapped_lun \<Rightarrow> string W" where
  "ml_repr K ml =
     bindM (get_tpg_lun K ml) (\<lambda>l.
       ret (''<MappedLUN '' @ na_wwn (ml_acl ml) @ '' lun '' @ str_of_int (ml_lun ml) @ '' -> tpg'' @
         str_of_int (tpg_tag (na_tpg (ml_acl ml))) @ '' lun '' @ str_of_int (lun_lun l) @ ''>''))"

definition nag_repr :: "node_acl_group \<Rightarrow> string" where
  "nag_repr nag = ''<NodeACLGroup '' @ nag_name nag @ ''>''"

definition mlg_repr :: "mapped_lun_group \<Rightarrow> exn + string" where
  "mlg_repr mlg = (case fmt_d (mlg_lun mlg) of
      Inl e \<Rightarrow> Inl e
    | Inr n \<Rightarrow> Inr (''<MappedLUNGroup '' @ nag_name (mlg_nag mlg) @ '':lun '' @ n @ ''>''))"

definition at_repr :: "alua_tpg \<Rightarrow> string" where
  "at_repr a = ''<ALUA TPG '' @ at_name a @ ''>''"

section \<open>Comparison is identity\<close>

lemma bs_dirp_inject: "bs_dirp a = bs_dirp b \<longleftrightarrow> a = b"
  by (cases a; cases b) (simp_all add: bs_dirp_def)

lemma plugin_inject: "fst (bs_params a) = fst (bs_params b) \<longleftrightarrow> a = b"
  by (cases a; cases b) simp_all

lemma so_eq_cls: "so_handle a \<Longrightarrow> so_handle b \<Longrightarrow> so_eq a b \<longleftrightarrow> so_cls a = so_cls b \<and> so_name a = so_name b"
  by (auto simp: so_eq_def so_handle_def plugin_inject)

lemma so_key: "so_handle a \<Longrightarrow> so_object a = (h, n) \<Longrightarrow> so_dir_key h n = bs_dirp (so_cls a) @ ''/'' @ so_name a"
  by (auto simp: so_object_def hba_parts)

lemma so_path_object: "so_handle a \<Longrightarrow> so_handle b \<Longrightarrow> so_path a = so_path b \<longleftrightarrow> so_object a = so_object b"
  by (auto simp: so_handle_def prod_eq_iff)

text \<open>
  C26. Equality of storage objects is identity. For the handles of existing objects, in any state whose cache agrees with the tree, \<^verbatim>\<open>__eq__\<close> of
  a storage object, which compares plugin and name, is the comparison of paths of the base class, and \<^verbatim>\<open>__ne__\<close> is its
  negation.
\<close>

theorem so_eq_is_path_eq:
  assumes "coherent w" and "so_handle a" and "so_handle b" and "so_object a \<in> objects (fs w)" and "so_object b \<in> objects (fs w)"
  shows "(so_eq a b \<longleftrightarrow> node_eq (so_path a) (so_path b)) \<and> (so_ne a b \<longleftrightarrow> node_ne (so_path a) (so_path b))"
proof -
  have "so_object a = so_object b" if "so_eq a b"
  proof -
    have "(case so_object a of (h, n) \<Rightarrow> so_dir_key h n) = (case so_object b of (h, n) \<Rightarrow> so_dir_key h n)"
      using so_key [OF assms(2)] so_key [OF assms(3)] that so_eq_cls [OF assms(2,3)] by (auto split: prod.splits)
    then show ?thesis
      using inj_onD [OF coherent_own(2) [OF assms(1), unfolded own_key_def] _ assms(4,5)] by (simp add: case_prod_unfold)
  qed
  moreover have "so_eq a b" if "so_object a = so_object b"
  proof -
    obtain h n where o: "so_object a = (h, n)" by fastforce
    then have o': "so_object b = (h, n)" using that by simp
    have "bs_dirp (so_cls a) @ ''/'' @ so_name a = bs_dirp (so_cls b) @ ''/'' @ so_name b"
      using so_key [OF assms(2) o] so_key [OF assms(3) o'] by simp
    then show ?thesis
      using so_eq_cls [OF assms(2,3)] bs_dirp_no_slash by (simp add: before_sep bs_dirp_inject)
  qed
  ultimately show ?thesis using so_path_object [OF assms(2,3)] by (auto simp: node_eq_def node_ne_def so_ne_def)
qed

theorem so_eq_is_path_eq_witness:
  "\<exists>a b. fst demo_create = Ok a \<and> fst (so_lookup lio FileIO ''a'' PNone (snd demo_create)) = Ok b \<and> so_eq a b \<and> node_eq (so_path a) (so_path b)"
proof -
  let ?w = "snd demo_create"
  obtain a where a: "fst demo_create = Ok a" "so_handle a" "so_object a = (''fileio_0'', ''a'')"
    using demo_created by (auto split: res.splits)
  have "case fst (so_lookup lio FileIO ''a'' PNone ?w) of Ok b \<Rightarrow> so_handle b \<and> so_object b = (''fileio_0'', ''a'') | Err e \<Rightarrow> False"
    by code_simp
  then obtain b where b: "fst (so_lookup lio FileIO ''a'' PNone ?w) = Ok b" "so_handle b" "so_object b = (''fileio_0'', ''a'')"
    by (auto split: res.splits)
  have "coherent ?w" by (rule lio_mods.so_steps_keep [OF demo_step coherent_world0])
  from so_eq_is_path_eq [OF this a(2) b(2)] a b demo_run(2) so_path_object [OF a(2) b(2)]
  show ?thesis by (simp add: node_eq_def)
qed

text \<open>The printed form tells storage objects apart.\<close>

lemma so_repr_inject:
  assumes "so_handle a" and "so_handle b" and "so_repr a = so_repr b"
  shows "so_eq a b"
proof -
  let ?pre = "\<lambda>c. ''<'' @ so_cls_name c @ '' '' @ fst (bs_params c)"
  have "CHR ''/'' \<notin> set (?pre c)" for c by (cases c) simp_all
  moreover have "?pre (so_cls a) @ ''/'' @ so_name a @ ''>'' = ?pre (so_cls b) @ ''/'' @ so_name b @ ''>''"
    using assms by (simp add: so_repr_def so_handle_def)
  ultimately have "?pre (so_cls a) = ?pre (so_cls b) \<and> so_name a = so_name b"
    using before_sep [of "CHR ''/''" "?pre (so_cls a)" "?pre (so_cls b)"] by simp
  moreover have "?pre c = ?pre d \<Longrightarrow> c = d" for c d by (cases c; cases d) simp_all
  ultimately show ?thesis using so_eq_cls [OF assms(1,2)] by blast
qed

end
