(* ===== verification/Sysfs.thy ===== *)
theory Sysfs
  imports Fabric
begin

text \<open>
  The names a fabric's hardware has: the \<^verbatim>\<open>wwns\<close> properties of \<^verbatim>\<open>fabric.py\<close>, which look for ports below \<^verbatim>\<open>/sys\<close>, and
  \<^verbatim>\<open>list_registered_drivers\<close>. Sysfs is a tree of directories with symbolic links between them, so that a path is
  resolved component by component here; the bound on the links followed is the kernel's own. The
  theory shows that the scan of the Fibre Channel hosts, in the tree as sysfs lays it out, yields exactly the ports of its driver, and that the
  InfiniBand scan cannot find a port in a class directory as the kernel makes it.
\<close>

section \<open>Paths with links\<close>

function resolve :: "fsys \<Rightarrow> nat \<Rightarrow> path \<Rightarrow> path \<Rightarrow> path option" where
  "resolve f n p [] = Some p"
| "resolve f n p (c # cs) = (case map_of f (p @ [c]) of
      Some (Link q) \<Rightarrow> (case n of 0 \<Rightarrow> None | Suc m \<Rightarrow> resolve f m [] (q @ cs))
    | _ \<Rightarrow> resolve f n (p @ [c]) cs)"
  by pat_completeness auto
termination
  by (relation "measures [\<lambda>(f, n, p, cs). n, \<lambda>(f, n, p, cs). length cs]") auto

definition link_limit :: nat where
  "link_limit = 40"

text \<open>\<^verbatim>\<open>Path.resolve()\<close>; and what opening, testing and listing a path see.\<close>

definition resolveM :: "path \<Rightarrow> path W" where
  "resolveM p = bindM (gets (\<lambda>w. resolve (fs w) link_limit [] p)) (the_or (RuntimeErr ''Symlink loop''))"

definition sys_read :: "path \<Rightarrow> string W" where
  "sys_read p = bindM (bindM (gets (\<lambda>w. resolve (fs w) link_limit [] p)) (the_or (OSErr ELOOP p))) fread"

definition sys_node :: "fsys \<Rightarrow> path \<Rightarrow> node option" where
  "sys_node f p = (case resolve f link_limit [] p of Some q \<Rightarrow> map_of f q | None \<Rightarrow> None)"

definition sys_children :: "fsys \<Rightarrow> path \<Rightarrow> string list" where
  "sys_children f p = (case resolve f link_limit [] p of
      Some q \<Rightarrow> if map_of f q = Some Dir then children f q else []
    | None \<Rightarrow> [])"

text \<open>\<^verbatim>\<open>Path(base).glob(pre + "*/" + file)\<close>; the wildcard follows links. Nothing of the
  library changes the tree below these directories, so that the matches are those at the start of the loop.\<close>

definition glob_matches :: "fsys \<Rightarrow> path \<Rightarrow> string \<Rightarrow> string \<Rightarrow> path list" where
  "glob_matches f base pre file =
     map (\<lambda>h. base @ [h, file]) (filter (\<lambda>h. startswith h pre \<and> sys_node f (base @ [h]) = Some Dir \<and> sys_node f (base @ [h, file]) \<noteq> None)
       (sys_children f base))"

definition sys_glob :: "path \<Rightarrow> string \<Rightarrow> string \<Rightarrow> (world, path, 'c) gen" where
  "sys_glob base pre file body c = bindM (gets (\<lambda>w. glob_matches (fs w) base pre file)) (\<lambda>ps. iter ps body c)"

section \<open>The scans\<close>

definition sbp_wwns :: "(world, string, 'c) gen" where
  "sbp_wwns body c =
     bindM (find_first (sys_glob [''sys'', ''bus'', ''firewire'', ''devices''] ''fw'' ''is_local'') (\<lambda>fname.
       bindM (sys_read fname) (\<lambda>s. bindM (lift (to_int (PStr s))) (\<lambda>n. ret (n \<noteq> 0))))) (\<lambda>found.
     case found of
       None \<Rightarrow> ret (Next c)
     | Some fname \<Rightarrow> bindM (sys_read (butlast fname @ [''guid''])) (\<lambda>guid. body (''eui.'' @ drop 2 guid) c))"

text \<open>The device of a port, and the name its driver or subsystem has.\<close>

definition fc_device :: "string \<Rightarrow> path \<Rightarrow> string W" where
  "fc_device attr wwn_file =
     bindM (resolveM wwn_file) (\<lambda>p.
       let host = butlast p in
       bindM (lift (if length host < 3 then Inl (IndexErr ''parents'') else Inr (take (length host - 3) host))) (\<lambda>device.
         bindM (resolveM (device @ [attr])) (\<lambda>q. ret (if q = [] then '''' else last q))))"

definition fc_port :: "string \<Rightarrow> string \<Rightarrow> path \<Rightarrow> string option W" where
  "fc_port attr driver wwn_file =
     bindM (fc_device attr wwn_file) (\<lambda>name.
       if name = driver then bindM (sys_read wwn_file) (\<lambda>s. ret (Some (''naa.'' @ drop 2 s))) else ret None)"

definition fc_wwns :: "string \<Rightarrow> string \<Rightarrow> (world, string, 'c) gen" where
  "fc_wwns attr driver body c =
     sys_glob [''sys'', ''class'', ''fc_host''] ''host'' ''port_name'' (\<lambda>wwn_file c'.
       try_else (fc_port attr driver wwn_file)
         (\<lambda>e. if is_oserror e then ret (Next c') else raise e)
         (\<lambda>v. case v of None \<Rightarrow> ret (Next c') | Some wwn \<Rightarrow> body wwn c')) c"

definition qla2xxx_wwns :: "(world, string, 'c) gen" where
  "qla2xxx_wwns = fc_wwns ''driver'' ''qla2xxx''"

definition efct_wwns :: "(world, string, 'c) gen" where
  "efct_wwns = fc_wwns ''driver'' ''efct''"

definition fcoe_wwns :: "(world, string, 'c) gen" where
  "fcoe_wwns = fc_wwns ''subsystem'' ''fcoe''"

text \<open>
  \<^verbatim>\<open>Path(base).glob("**/ports/*/gids/0")\<close>: the recursive wildcard stands for the directory and those below it,
  and does not follow links. A path of the tree has no more components below \<open>base\<close> than the tree has entries, which
  bounds the descent.
\<close>

fun walk :: "fsys \<Rightarrow> nat \<Rightarrow> path \<Rightarrow> path list" where
  "walk f 0 p = [p]"
| "walk f (Suc n) p = p # concat (map (\<lambda>h. if map_of f (p @ [h]) = Some Dir then walk f n (p @ [h]) else []) (children f p))"

definition gid_files :: "fsys \<Rightarrow> path \<Rightarrow> path list" where
  "gid_files f d =
     (let p = d @ [''ports''] in
      if sys_node f p = Some Dir
      then map (\<lambda>i. p @ [i, ''gids'', ''0'']) (filter (\<lambda>i. sys_node f (p @ [i]) = Some Dir \<and> sys_node f (p @ [i, ''gids'']) = Some Dir \<and>
             sys_node f (p @ [i, ''gids'', ''0'']) \<noteq> None) (sys_children f p))
      else [])"

definition infiniband_dir :: path where
  "infiniband_dir = [''sys'', ''class'', ''infiniband'']"

definition srpt_wwns :: "(world, string, 'c) gen" where
  "srpt_wwns body c =
     bindM (gets (\<lambda>w. if sys_node (fs w) infiniband_dir = Some Dir
                      then concat (map (gid_files (fs w)) (walk (fs w) (length (fs w)) infiniband_dir)) else [])) (\<lambda>ps.
       iter ps (\<lambda>wwn_file c'. bindM (sys_read wwn_file) (\<lambda>s. body (''ib.'' @ remove_char (CHR '':'') s) c')) c)"

definition ibmvscsis_wwns :: "(world, string, 'c) gen" where
  "ibmvscsis_wwns body c =
     sys_glob [''sys'', ''module'', ''ibmvscsis'', ''drivers'', ''vio:ibmvscsis''] '''' ''devspec'' (\<lambda>wwn_file c'.
       bindM (sys_read wwn_file) (\<lambda>name. body (if CHR ''@'' \<in> set name then after_char (CHR ''@'') name else name) c')) c"

text \<open>The property \<^verbatim>\<open>wwns\<close>: \<^verbatim>\<open>None\<close> where names are free, which is no generator.\<close>

definition fm_wwns :: "fabric \<Rightarrow> (world, string, 'c) gen" where
  "fm_wwns fm body c = (case fm_class fm of
      SBP \<Rightarrow> sbp_wwns body c | Qla2xxx \<Rightarrow> qla2xxx_wwns body c | Efct \<Rightarrow> efct_wwns body c | SRPT \<Rightarrow> srpt_wwns body c
    | FCoE \<Rightarrow> fcoe_wwns body c | Ibmvscsis \<Rightarrow> ibmvscsis_wwns body c
    | _ \<Rightarrow> raise (TypeErr ''NoneType object is not iterable''))"

definition list_registered_drivers :: "string list W" where
  "list_registered_drivers =
     catchM (listdir [''sys'', ''module'', ''target_core_mod'', ''holders''])
       (\<lambda>e. if is_oserror e then ret [] else raise e)"

section \<open>Properties\<close>

text \<open>A loop whose body adds what a step gives, if anything; errors of the system are passed over.\<close>

lemma collect_filtered:
  assumes "\<And>x. x \<in> set xs \<Longrightarrow> step x s = (Ok (v x), s) \<or> v x = None \<and> (\<exists>e. is_oserror e \<and> step x s = (Err e, s))"
  shows "collect (\<lambda>body. iter xs (\<lambda>x c. try_else (step x) (\<lambda>e. if is_oserror e then ret (Next c) else raise e)
      (\<lambda>v. case v of None \<Rightarrow> ret (Next c) | Some y \<Rightarrow> body y c))) ret s = (Ok (List.map_filter v xs), s)"
proof -
  let ?body = "\<lambda>x c. try_else (step x) (\<lambda>e. if is_oserror e then ret (Next c) else raise e)
      (\<lambda>v. case v of None \<Rightarrow> ret (Next c) | Some y \<Rightarrow> ret (Next (c @ [y])))"
  have one: "?body x acc s = (Ok (Next (acc @ (case v x of None \<Rightarrow> [] | Some y \<Rightarrow> [y]))), s)" if "x \<in> set xs" for x acc
    using assms [OF that] by (elim disjE conjE exE) (simp_all add: try_else_def ret_def split: option.splits)
  have "set ys \<subseteq> set xs \<Longrightarrow> iter ys ?body acc s = (Ok (Next (acc @ List.map_filter v ys)), s)" for ys acc
  proof (induction ys arbitrary: acc)
    case (Cons x ys)
    then have "iter (x # ys) ?body acc s = iter ys ?body (acc @ (case v x of None \<Rightarrow> [] | Some y \<Rightarrow> [y])) s"
      using one [of x acc] by (simp add: bindM_def)
    then show ?case using Cons by (simp add: List.map_filter_simps split: option.splits)
  qed (simp add: ret_def List.map_filter_simps)
  from this [of xs "[]"] show ?thesis
    unfolding collect_def bindM_ret by (subst bindM_def) (simp, simp add: ret_def)
qed

lemma iter_map: "iter (map g xs) body c = iter xs (\<lambda>x. body (g x)) c"
  by (induction xs arbitrary: c) (auto intro!: arg_cong2 [of _ _ _ _ bindM] split: ctl.splits)

text \<open>A path with no link on the way resolves to itself.\<close>

definition plain_path :: "fsys \<Rightarrow> path \<Rightarrow> bool" where
  "plain_path f p = (\<forall>q \<in> set (prefixes p). \<not> is_symlink f q)"

lemma resolve_step: "\<not> is_symlink f (p @ [c]) \<Longrightarrow> resolve f n p (c # cs) = resolve f n (p @ [c]) cs"
  by (simp add: is_symlink_def split: option.splits node.splits)

lemma resolve_along: "plain_path f (p @ cs) \<Longrightarrow> resolve f n p (cs @ ds) = resolve f n (p @ cs) ds"
proof (induction cs arbitrary: p)
  case (Cons c cs)
  then have "\<not> is_symlink f (p @ [c])" by (auto simp: plain_path_def prefix_def)
  then show ?case using Cons.IH [of "p @ [c]"] Cons.prems by (simp add: resolve_step del: resolve.simps(2))
qed simp

lemma resolve_plain: "plain_path f p \<Longrightarrow> resolve f n [] (p @ ds) = resolve f n p ds"
  using resolve_along [of f "[]"] by simp

lemma resolve_link: "map_of f (p @ [c]) = Some (Link q) \<Longrightarrow> resolve f (Suc n) p (c # cs) = resolve f n [] (q @ cs)"
  by simp

text \<open>
  The class directory of the Fibre Channel hosts as sysfs has it: a link for each host to the directory of the host below its device, in which the
  port name is a file. What the attribute link of the device points to, the driver or the subsystem, is named by the last component; without such a
  link the name is that of the attribute.
\<close>

definition fc_host_dir :: path where
  "fc_host_dir = [''sys'', ''class'', ''fc_host'']"

definition fc_host_at :: "fsys \<Rightarrow> string \<Rightarrow> string \<Rightarrow> path \<Rightarrow> string \<Rightarrow> errno + string \<Rightarrow> bool" where
  "fc_host_at f attr h dev host port =
     (let p = dev @ [host, ''fc_host'', h] in
      map_of f (fc_host_dir @ [h]) = Some (Link p) \<and> map_of f p = Some Dir \<and> plain_path f (p @ [''port_name'']) \<and>
      (case map_of f (p @ [''port_name'']) of Some (File m c) \<Rightarrow> c = port | _ \<Rightarrow> False) \<and>
      (case map_of f (dev @ [attr]) of Some (Link q) \<Rightarrow> q \<noteq> [] \<and> plain_path f q | _ \<Rightarrow> True))"

definition device_attr :: "fsys \<Rightarrow> path \<Rightarrow> string \<Rightarrow> string" where
  "device_attr f dev attr = (case map_of f (dev @ [attr]) of Some (Link q) \<Rightarrow> last q | _ \<Rightarrow> attr)"

lemma plain_path_prefix: "plain_path f p \<Longrightarrow> prefix q p \<Longrightarrow> plain_path f q"
  by (auto simp: plain_path_def dest: prefix_order.trans)

lemma fc_host_resolves:
  assumes top: "plain_path (fs w) fc_host_dir" and host: "fc_host_at (fs w) attr h dev host port"
  shows "resolve (fs w) link_limit [] (fc_host_dir @ h # cs) = resolve (fs w) 39 [] ((dev @ [host, ''fc_host'', h]) @ cs)"
proof -
  have "map_of (fs w) (fc_host_dir @ [h]) = Some (Link (dev @ [host, ''fc_host'', h]))" using host by (simp add: fc_host_at_def Let_def)
  from resolve_link [OF this, of 39 cs] resolve_plain [OF top, of link_limit "h # cs"] show ?thesis by (simp add: link_limit_def)
qed

lemma fc_port_file:
  assumes top: "plain_path (fs w) fc_host_dir" and host: "fc_host_at (fs w) attr h dev host port"
  shows "resolve (fs w) link_limit [] (fc_host_dir @ [h, ''port_name'']) = Some (dev @ [host, ''fc_host'', h, ''port_name''])"
  using fc_host_resolves [OF top host, of "[''port_name'']"] resolve_plain [of "fs w" "dev @ [host, ''fc_host'', h, ''port_name'']" 39 "[]"] host
  by (simp add: fc_host_at_def Let_def)

lemma fc_port_node:
  assumes top: "plain_path (fs w) fc_host_dir" and host: "fc_host_at (fs w) attr h dev host port"
  shows "sys_node (fs w) (fc_host_dir @ [h]) = Some Dir" and "sys_node (fs w) (fc_host_dir @ [h, ''port_name'']) \<noteq> None"
proof -
  have "plain_path (fs w) (dev @ [host, ''fc_host'', h])"
    using host by (auto simp: fc_host_at_def Let_def intro: plain_path_prefix)
  then show "sys_node (fs w) (fc_host_dir @ [h]) = Some Dir"
    using fc_host_resolves [OF top host, of "[]"] resolve_plain [of "fs w" "dev @ [host, ''fc_host'', h]" 39 "[]"] host
    by (simp add: sys_node_def fc_host_at_def Let_def)
  show "sys_node (fs w) (fc_host_dir @ [h, ''port_name'']) \<noteq> None"
    using host by (auto simp: sys_node_def fc_port_file [OF top host] fc_host_at_def Let_def split: option.splits)
qed

lemma fc_device_attr:
  assumes top: "plain_path (fs w) fc_host_dir" and host: "fc_host_at (fs w) attr h dev host port"
  shows "fc_device attr (fc_host_dir @ [h, ''port_name'']) w = (Ok (device_attr (fs w) dev attr), w)"
proof -
  have "plain_path (fs w) dev" using host by (auto simp: fc_host_at_def Let_def intro: plain_path_prefix)
  then have "resolve (fs w) link_limit [] (dev @ [attr]) = resolve (fs w) link_limit dev [attr]" by (rule resolve_plain)
  moreover have "resolve (fs w) link_limit dev [attr] =
      (case map_of (fs w) (dev @ [attr]) of Some (Link q) \<Rightarrow> Some q | _ \<Rightarrow> Some (dev @ [attr]))"
    using host resolve_plain [of "fs w" _ 39 "[]"]
    by (auto simp: fc_host_at_def Let_def link_limit_def split: option.splits node.splits)
  ultimately have "resolve (fs w) link_limit [] (dev @ [attr]) = (case map_of (fs w) (dev @ [attr]) of Some (Link q) \<Rightarrow> Some q | _ \<Rightarrow> Some (dev @ [attr]))"
    by (rule trans)
  then show ?thesis
    using host
    by (auto simp: fc_device_def resolveM_def fc_port_file [OF top host] bindM_def gets_def the_or_def ret_def lift_def device_attr_def fc_host_at_def
        Let_def butlast_append split: option.splits node.splits)
qed

lemma fc_port_reads:
  assumes top: "plain_path (fs w) fc_host_dir" and host: "fc_host_at (fs w) attr h dev host port"
  shows "sys_read (fc_host_dir @ [h, ''port_name'']) w = (case port of Inr s \<Rightarrow> Ok (strip s)
     | Inl e \<Rightarrow> Err (OSErr e (dev @ [host, ''fc_host'', h, ''port_name''])), w)"
proof -
  obtain m where "map_of (fs w) (dev @ [host, ''fc_host'', h, ''port_name'']) = Some (File m port)"
    using host by (auto simp: fc_host_at_def Let_def split: option.splits node.splits)
  then show ?thesis
    by (auto simp: sys_read_def fc_port_file [OF top host] bindM_def gets_def the_or_def ret_def fread_def read_text_def realpath_def split: sum.splits)
qed

text \<open>
  C37. The Fibre Channel scan is exact. Let the class directory hold a link for each host to its directory three levels below its device, as in sysfs,
  whose port name file may be unreadable, and let the device's driver link (or subsystem link, for FCoE), if there is one, lead to a directory. Then
  listing the WWNs of a fabric gives, in the order of the directory, the names of exactly the ports that are readable and whose device's link ends in
  the fabric's driver; the ports that are not readable are passed over, and nothing is changed.
\<close>

theorem fc_scan_exact:
  assumes "plain_path (fs w) fc_host_dir" and "map_of (fs w) fc_host_dir = Some Dir"
    and "\<forall>h \<in> set (children (fs w) fc_host_dir). startswith h ''host'' \<longrightarrow> fc_host_at (fs w) attr h (dev h) (host h) (port h)"
  shows "collect (fc_wwns attr driver) ret w =
    (Ok (List.map_filter (\<lambda>h. case port h of
           Inr s \<Rightarrow> if device_attr (fs w) (dev h) attr = driver then Some (''naa.'' @ drop 2 (strip s)) else None
         | Inl e \<Rightarrow> None)
       (filter (\<lambda>h. startswith h ''host'') (children (fs w) fc_host_dir))), w)"
proof -
  let ?hs = "filter (\<lambda>h. startswith h ''host'') (children (fs w) fc_host_dir)"
  let ?v = "\<lambda>h. case port h of Inr s \<Rightarrow> if device_attr (fs w) (dev h) attr = driver then Some (''naa.'' @ drop 2 (strip s)) else None | Inl e \<Rightarrow> None"
  let ?file = "\<lambda>h. fc_host_dir @ [h, ''port_name'']"
  have at: "fc_host_at (fs w) attr h (dev h) (host h) (port h)" if "h \<in> set ?hs" for h using assms(3) that by simp
  have "resolve (fs w) link_limit [] fc_host_dir = Some fc_host_dir" using resolve_plain [OF assms(1), of _ "[]"] by simp
  then have "sys_children (fs w) fc_host_dir = children (fs w) fc_host_dir" using assms(2) by (simp add: sys_children_def)
  then have ps: "glob_matches (fs w) fc_host_dir ''host'' ''port_name'' = map ?file ?hs"
    unfolding glob_matches_def using fc_port_node [OF assms(1) at] by (intro arg_cong [of _ _ "map ?file"] filter_cong) auto
  have "fc_port attr driver (?file h) w = (Ok (?v h), w) \<or>
      ?v h = None \<and> (\<exists>e. is_oserror e \<and> fc_port attr driver (?file h) w = (Err e, w))" if "h \<in> set ?hs" for h
    using fc_device_attr [OF assms(1) at [OF that]] fc_port_reads [OF assms(1) at [OF that]]
    by (auto simp: fc_port_def bindM_def ret_def split: sum.splits)
  from collect_filtered [of ?hs "\<lambda>h. fc_port attr driver (?file h)" w ?v, OF this] show ?thesis
    by (simp add: collect_def fc_wwns_def sys_glob_def bindM_def gets_def ps [unfolded fc_host_dir_def] iter_map fc_host_dir_def)
qed

definition demo_fc_world :: world where
  "demo_fc_world =
     (let dev = (\<lambda>n. [''sys'', ''devices'', ''pci0'', n]); port = (\<lambda>n h. dev n @ [h, ''fc_host'', h]);
          class = (\<lambda>n h. (fc_host_dir @ [h], Link (port n h))) in
     world0\<lparr>fs := fs world0 @ [([''sys''], Dir), ([''sys'', ''class''], Dir), (fc_host_dir, Dir),
       class ''05:00'' ''host5'', class ''06:00'' ''host6'', class ''07:00'' ''host7'',
       (port ''05:00'' ''host5'', Dir), (port ''05:00'' ''host5'' @ [''port_name''], File 292 (Inr (''0x21000024ff314c48'' @ [newline]))),
       (port ''06:00'' ''host6'', Dir), (port ''06:00'' ''host6'' @ [''port_name''], File 292 (Inr (''0x10000090fa942779'' @ [newline]))),
       (port ''07:00'' ''host7'', Dir), (port ''07:00'' ''host7'' @ [''port_name''], File 292 (Inl EIO)),
       (dev ''05:00'' @ [''driver''], Link [''sys'', ''bus'', ''pci'', ''drivers'', ''qla2xxx'']),
       (dev ''06:00'' @ [''driver''], Link [''sys'', ''bus'', ''pci'', ''drivers'', ''lpfc'']),
       (dev ''07:00'' @ [''driver''], Link [''sys'', ''bus'', ''pci'', ''drivers'', ''qla2xxx''])]\<rparr>)"

theorem fc_scan_exact_witness:
  "collect qla2xxx_wwns ret demo_fc_world = (Ok [''naa.21000024ff314c48''], demo_fc_world)"
proof -
  let ?dev = "\<lambda>h. [''sys'', ''devices'', ''pci0'', if h = ''host5'' then ''05:00'' else if h = ''host6'' then ''06:00'' else ''07:00'']"
  let ?port = "\<lambda>h. if h = ''host5'' then Inr (''0x21000024ff314c48'' @ [newline]) else if h = ''host6'' then Inr (''0x10000090fa942779'' @ [newline])
    else Inl EIO"
  have "plain_path (fs demo_fc_world) fc_host_dir" "map_of (fs demo_fc_world) fc_host_dir = Some Dir"
    "\<forall>h \<in> set (children (fs demo_fc_world) fc_host_dir). startswith h ''host'' \<longrightarrow>
       fc_host_at (fs demo_fc_world) ''driver'' h (?dev h) h (?port h)"
    by code_simp+
  from fc_scan_exact [OF this, of "''qla2xxx''"] have "collect qla2xxx_wwns ret demo_fc_world =
    (Ok (List.map_filter (\<lambda>h. case ?port h of
           Inr s \<Rightarrow> if device_attr (fs demo_fc_world) (?dev h) ''driver'' = ''qla2xxx'' then Some (''naa.'' @ drop 2 (strip s)) else None
         | Inl e \<Rightarrow> None) (filter (\<lambda>h. startswith h ''host'') (children (fs demo_fc_world) fc_host_dir))), demo_fc_world)"
    unfolding qla2xxx_wwns_def .
  moreover have "List.map_filter (\<lambda>h. case ?port h of
           Inr s \<Rightarrow> if device_attr (fs demo_fc_world) (?dev h) ''driver'' = ''qla2xxx'' then Some (''naa.'' @ drop 2 (strip s)) else None
         | Inl e \<Rightarrow> None) (filter (\<lambda>h. startswith h ''host'') (children (fs demo_fc_world) fc_host_dir)) = [''naa.21000024ff314c48'']"
    by code_simp
  ultimately show ?thesis by simp
qed

text \<open>
  C38. The InfiniBand scan finds nothing. In a class directory in which, as in sysfs, every entry is a symbolic link to a device, the
  recursive wildcard stands for the class directory alone: whatever ports the devices have, no name is listed.
\<close>

theorem srpt_scan_blind:
  assumes "\<And>h. map_of (fs w) (infiniband_dir @ [h]) \<noteq> Some Dir" and "map_of (fs w) (infiniband_dir @ [''ports'']) = None"
    and "\<And>p q. prefix p infiniband_dir \<Longrightarrow> map_of (fs w) p \<noteq> Some (Link q)"
  shows "collect srpt_wwns ret w = (Ok [], w)"
proof -
  have walk: "walk (fs w) n infiniband_dir = [infiniband_dir]" for n
    using assms(1) by (cases n) (simp_all add: concat_eq_Nil_conv)
  have plain: "resolve (fs w) n p (c # cs) = resolve (fs w) n (p @ [c]) cs" if "prefix (p @ [c]) infiniband_dir" for n p c cs
    using assms(3) [OF that] by (simp split: option.splits node.splits)
  have "resolve (fs w) link_limit [] (infiniband_dir @ [''ports'']) = Some (infiniband_dir @ [''ports''])"
    using assms(2) by (simp add: infiniband_dir_def plain del: resolve.simps(2)) (simp add: infiniband_dir_def)
  with assms(2) have "gid_files (fs w) infiniband_dir = []" by (simp add: gid_files_def sys_node_def)
  then show ?thesis by (simp add: collect_def srpt_wwns_def bindM_def gets_def ret_def walk)
qed

definition demo_ib_world :: world where
  "demo_ib_world = (let dev = [''sys'', ''devices'', ''mlx4_0''] in
     world0\<lparr>fs := fs world0 @ [(infiniband_dir, Dir), (infiniband_dir @ [''mlx4_0''], Link dev), (dev, Dir), (dev @ [''ports''], Dir),
       (dev @ [''ports'', ''1''], Dir), (dev @ [''ports'', ''1'', ''gids''], Dir), (dev @ [''ports'', ''1'', ''gids'', ''0''], File 292 (Inr ''fe80:0000''))]\<rparr>)"

theorem srpt_scan_blind_witness:
  "collect srpt_wwns ret demo_ib_world = (Ok [], demo_ib_world) \<and>
   gid_files (fs demo_ib_world) (infiniband_dir @ [''mlx4_0'']) = [infiniband_dir @ [''mlx4_0'', ''ports'', ''1'', ''gids'', ''0'']]"
proof
  show "gid_files (fs demo_ib_world) (infiniband_dir @ [''mlx4_0'']) = [infiniband_dir @ [''mlx4_0'', ''ports'', ''1'', ''gids'', ''0'']]"
    by code_simp
  show "collect srpt_wwns ret demo_ib_world = (Ok [], demo_ib_world)"
  proof (rule srpt_scan_blind)
    have "list_all (\<lambda>(q, n). butlast q = infiniband_dir \<longrightarrow> n \<noteq> Dir) (fs demo_ib_world)" by code_simp
    then show "map_of (fs demo_ib_world) (infiniband_dir @ [h]) \<noteq> Some Dir" for h
      by (auto simp: list_all_iff dest!: map_of_SomeD)
    show "map_of (fs demo_ib_world) (infiniband_dir @ [''ports'']) = None" by code_simp
    have "list_all (\<lambda>(q, n). prefix q infiniband_dir \<longrightarrow> \<not> (case n of Link _ \<Rightarrow> True | _ \<Rightarrow> False)) (fs demo_ib_world)" by code_simp
    then show "prefix p infiniband_dir \<Longrightarrow> map_of (fs demo_ib_world) p \<noteq> Some (Link q)" for p q
      by (auto simp: list_all_iff dest!: map_of_SomeD)
  qed
qed

end
