(* ===== verification/Json.thy ===== *)
theory Json
  imports PyStr "HOL-Library.Char_ord" "HOL-Library.List_Lexorder"
begin

text \<open>
  Python's \<^verbatim>\<open>json\<close> module as far as the configuration file needs it: \<^verbatim>\<open>json.dump\<close> with \<^verbatim>\<open>sort_keys=True, indent=2\<close>
  and its default of escaping everything outside printable ASCII, and \<^verbatim>\<open>json.loads\<close>, a recursive-descent
  parser. Numbers with a fraction or an exponent and characters beyond Latin-1 have no counterpart
  among the modelled values; the parser reports them as an error. The theory shows that loading what was
  dumped gives the dumped value with its dictionaries in key order.
\<close>

section \<open>Dumping\<close>

definition json_hex :: "nat \<Rightarrow> char" where
  "json_hex n = char_of (if n < 10 then 48 + n else 87 + n)"

definition esc_names :: "(char \<times> char) list" where
  "esc_names = [(CHR 0x22, CHR 0x22), (CHR 0x5C, CHR 0x5C), (CHR 0x08, CHR ''b''), (CHR 0x0C, CHR ''f''),
     (CHR 0x0A, CHR ''n''), (CHR 0x0D, CHR ''r''), (CHR 0x09, CHR ''t'')]"

definition json_esc :: "char \<Rightarrow> string" where
  "json_esc c = (case map_of esc_names c of
      Some e \<Rightarrow> [CHR 0x5C, e]
    | None \<Rightarrow>
        let n = of_char c :: nat in
        if 32 \<le> n \<and> n \<le> 126 then [c] else [CHR 0x5C, CHR ''u'', CHR ''0'', CHR ''0'', json_hex (n div 16), json_hex (n mod 16)])"

definition json_str :: "string \<Rightarrow> string" where
  "json_str s = [CHR 0x22] @ concat (map json_esc s) @ [CHR 0x22]"

text \<open>\<^verbatim>\<open>sort_keys\<close>: every dictionary in key order.\<close>

fun sort_keys :: "pyval \<Rightarrow> pyval" where
  "sort_keys (PList vs) = PList (map sort_keys vs)"
| "sort_keys (PDict d) = PDict (sort_key fst (map (\<lambda>(k, v). (k, sort_keys v)) d))"
| "sort_keys v = v"

text \<open>A line break and the indentation of a level.\<close>

definition json_newline :: "nat \<Rightarrow> string" where
  "json_newline l = CHR 0x0A # replicate (2 * l) (CHR '' '')"

fun json_print :: "nat \<Rightarrow> pyval \<Rightarrow> string" where
  "json_print l PNone = ''null''"
| "json_print l (PBool b) = (if b then ''true'' else ''false'')"
| "json_print l (PInt n) = str_of_int n"
| "json_print l (PStr s) = json_str s"
| "json_print l (PList vs) =
     (if vs = [] then ''[]''
      else ''['' @ json_newline (Suc l) @ join ('','' @ json_newline (Suc l)) (map (json_print (Suc l)) vs) @ json_newline l @ '']'')"
| "json_print l (PDict d) =
     (if d = [] then ''{}''
      else ''{'' @ json_newline (Suc l) @
        join ('','' @ json_newline (Suc l)) (map (\<lambda>(k, v). json_str k @ '': '' @ json_print (Suc l) v) d) @ json_newline l @ ''}'')"

definition json_dump :: "pyval \<Rightarrow> string" where
  "json_dump v = json_print 0 (sort_keys v)"

section \<open>Loading\<close>

definition json_ws :: "char \<Rightarrow> bool" where
  "json_ws c = (c \<in> {CHR '' '', CHR 0x09, CHR 0x0A, CHR 0x0D})"

definition skip_ws :: "string \<Rightarrow> string" where
  "skip_ws s = dropWhile json_ws s"

definition hex_val :: "char \<Rightarrow> nat option" where
  "hex_val c = (let n = of_char c in
      if 48 \<le> n \<and> n \<le> 57 then Some (n - 48)
      else if 97 \<le> n \<and> n \<le> 102 then Some (n - 87)
      else if 65 \<le> n \<and> n \<le> 70 then Some (n - 55) else None)"

definition unescapes :: "(char \<times> char) list" where
  "unescapes = (CHR ''/'', CHR ''/'') # map (\<lambda>(c, e). (e, c)) esc_names"

text \<open>\<^verbatim>\<open>scanstring\<close>, after the opening quote.\<close>

fun hex4 :: "string \<Rightarrow> nat option" where
  "hex4 [a, b, c, d] = (case (hex_val a, hex_val b, hex_val c, hex_val d) of
     (Some w, Some x, Some y, Some z) \<Rightarrow> Some (4096 * w + 256 * x + 16 * y + z) | _ \<Rightarrow> None)"
| "hex4 _ = None"

function scanstring :: "string \<Rightarrow> exn + (string \<times> string)" where
  "scanstring [] = Inl (ValueErr ''Unterminated string'')"
| "scanstring (c # s) =
     (if c = CHR 0x22 then Inr ([], s)
      else if c \<noteq> CHR 0x5C then
        (if (of_char c :: nat) < 32 then Inl (ValueErr ''Invalid control character'')
         else map_sum id (\<lambda>(t, r). (c # t, r)) (scanstring s))
      else (case s of
          [] \<Rightarrow> Inl (ValueErr ''Unterminated string'')
        | e # s' \<Rightarrow>
            if e = CHR ''u'' then
              (case hex4 (take 4 s') of
                 None \<Rightarrow> Inl (ValueErr ''Invalid uXXXX escape'')
               | Some n \<Rightarrow> if n < 256 then map_sum id (\<lambda>(t, r). (char_of n # t, r)) (scanstring (drop 4 s'))
                           else Inl (ValueErr ''not Latin-1''))
            else (case map_of unescapes e of
                 None \<Rightarrow> Inl (ValueErr ''Invalid escape'')
               | Some d \<Rightarrow> map_sum id (\<lambda>(t, r). (d # t, r)) (scanstring s'))))"
  by pat_completeness auto
termination
  by (relation "measure length") auto

text \<open>The number at the beginning of a text: an optional sign and digits without a leading zero.\<close>

definition float_tail :: "string \<Rightarrow> bool" where
  "float_tail s = (case s of
      c # d # r \<Rightarrow> c = CHR ''.'' \<and> is_digit d
        \<or> c \<in> {CHR ''e'', CHR ''E''} \<and> (is_digit d \<or> d \<in> {CHR ''+'', CHR ''-''} \<and> (case r of [] \<Rightarrow> False | x # _ \<Rightarrow> is_digit x))
    | _ \<Rightarrow> False)"

definition json_nat :: "string \<Rightarrow> exn + (nat \<times> string)" where
  "json_nat s = (case s of
      [] \<Rightarrow> Inl (ValueErr ''Expecting value'')
    | c # cs \<Rightarrow>
        if c = CHR ''0'' then Inr (0, cs)
        else (case py_nat (takeWhile is_digit s) of
            None \<Rightarrow> Inl (ValueErr ''Expecting value'')
          | Some n \<Rightarrow> Inr (n, dropWhile is_digit s)))"

definition json_number :: "string \<Rightarrow> exn + (pyval \<times> string)" where
  "json_number s =
     (let neg = startswith s ''-'' in
      case json_nat (if neg then tl s else s) of
        Inl e \<Rightarrow> Inl e
      | Inr (n, r) \<Rightarrow>
          if float_tail r then Inl (ValueErr ''not an integer'')
          else Inr (PInt (if neg then - int n else int n), r))"

text \<open>
  A value, the elements of an array after the bracket or a comma, and the members of an object after
  the brace or a comma. Each call is on a shorter text, or on the same text and one level down, so that
  twice the length of the text bounds the depth of the calls.
\<close>

fun json_value :: "nat \<Rightarrow> string \<Rightarrow> exn + (pyval \<times> string)"
  and json_elems :: "nat \<Rightarrow> string \<Rightarrow> exn + (pyval list \<times> string)"
  and json_members :: "nat \<Rightarrow> string \<Rightarrow> exn + (pydict \<times> string)" where
  "json_value 0 s = Inl (ValueErr ''fuel'')"
| "json_value (Suc n) s =
     (if startswith s [CHR 0x22] then map_sum id (\<lambda>(t, r). (PStr t, r)) (scanstring (tl s))
      else if startswith s ''{'' then
        (let s' = skip_ws (tl s) in
         if startswith s' ''}'' then Inr (PDict [], tl s')
         else map_sum id (\<lambda>(d, r). (PDict (foldl (\<lambda>m (k, v). dict_set m k v) [] d), r)) (json_members n s'))
      else if startswith s ''['' then
        (let s' = skip_ws (tl s) in
         if startswith s' '']'' then Inr (PList [], tl s')
         else map_sum id (\<lambda>(vs, r). (PList vs, r)) (json_elems n s'))
      else if startswith s ''null'' then Inr (PNone, drop 4 s)
      else if startswith s ''true'' then Inr (PBool True, drop 4 s)
      else if startswith s ''false'' then Inr (PBool False, drop 5 s)
      else json_number s)"
| "json_elems 0 s = Inl (ValueErr ''fuel'')"
| "json_elems (Suc n) s =
     (case json_value n s of
        Inl e \<Rightarrow> Inl e
      | Inr (v, r) \<Rightarrow>
          let r' = skip_ws r in
          if startswith r' '']'' then Inr ([v], tl r')
          else if startswith r' '','' then map_sum id (\<lambda>(vs, t). (v # vs, t)) (json_elems n (skip_ws (tl r')))
          else Inl (ValueErr ''Expecting comma delimiter''))"
| "json_members 0 s = Inl (ValueErr ''fuel'')"
| "json_members (Suc n) s =
     (if startswith s [CHR 0x22] then
        (case scanstring (tl s) of
           Inl e \<Rightarrow> Inl e
         | Inr (k, r) \<Rightarrow>
             let r' = skip_ws r in
             if startswith r' '':'' then
               (case json_value n (skip_ws (tl r')) of
                  Inl e \<Rightarrow> Inl e
                | Inr (v, t) \<Rightarrow>
                    let t' = skip_ws t in
                    if startswith t' ''}'' then Inr ([(k, v)], tl t')
                    else if startswith t' '','' then map_sum id (\<lambda>(d, u). ((k, v) # d, u)) (json_members n (skip_ws (tl t')))
                    else Inl (ValueErr ''Expecting comma delimiter''))
             else Inl (ValueErr ''Expecting colon delimiter''))
      else Inl (ValueErr ''Expecting property name enclosed in double quotes''))"

definition json_loads :: "string \<Rightarrow> exn + pyval" where
  "json_loads s =
     (case json_value (2 * length s + 2) (skip_ws s) of
        Inl e \<Rightarrow> Inl e
      | Inr (v, r) \<Rightarrow> if skip_ws r = [] then Inr v else Inl (ValueErr ''Extra data''))"

section \<open>Loading what was dumped\<close>

lemma startswith_Cons [simp]: "startswith (c # s) (d # p) = (c = d \<and> startswith s p)"
  by (simp add: startswith_def)

lemma startswith_Nil [simp]: "startswith s []" "startswith [] p = (p = [])"
  by (auto simp: startswith_def)

lemma hex_val_digit: "n < 16 \<Longrightarrow> hex_val (json_hex n) = Some n"
  by (auto simp: hex_val_def json_hex_def Let_def)

lemma hex4_esc: "n < 256 \<Longrightarrow> hex4 [CHR ''0'', CHR ''0'', json_hex (n div 16), json_hex (n mod 16)] = Some n"
proof -
  assume "n < 256"
  then have "n div 16 < 16" "n mod 16 < 16" by simp_all
  moreover have "hex_val (CHR ''0'') = Some 0" by code_simp
  ultimately show ?thesis by (simp add: hex_val_digit)
qed

lemma scanstring_esc: "scanstring (json_esc c @ t) = map_sum id (\<lambda>(u, r). (c # u, r)) (scanstring t)"
proof (cases "map_of esc_names c")
  case (Some e)
  then have "map_of unescapes e = Some c" and "e \<noteq> CHR ''u''"
    by (auto simp: esc_names_def unescapes_def split: if_splits)
  with Some show ?thesis by (simp add: json_esc_def)
next
  case None
  then have c: "c \<noteq> CHR 0x22" "c \<noteq> CHR 0x5C" by (auto simp: esc_names_def)
  show ?thesis
  proof (cases "32 \<le> (of_char c :: nat) \<and> (of_char c :: nat) \<le> 126")
    case True
    with None c show ?thesis by (simp add: json_esc_def)
  next
    case False
    have "(of_char c :: nat) < 256" by simp
    note hex = hex4_esc [OF this]
    have "json_esc c = [CHR 0x5C, CHR ''u'', CHR ''0'', CHR ''0'', json_hex (of_char c div 16), json_hex (of_char c mod 16)]"
      using None False by (auto simp: json_esc_def Let_def)
    with hex show ?thesis by (simp del: hex4.simps)
  qed
qed

lemma scanstring_json [simp]: "scanstring (concat (map json_esc s) @ CHR 0x22 # r) = Inr (s, r)"
  by (induction s) (simp_all add: scanstring_esc del: scanstring.simps(2), simp)

text \<open>A value is followed by nothing, a comma or a line break.\<close>

definition json_end :: "string \<Rightarrow> bool" where
  "json_end r = (case r of [] \<Rightarrow> True | c # _ \<Rightarrow> c \<in> {CHR '','', CHR 0x0A})"

lemma json_end_digits:
  assumes "json_end r" and "\<forall>c \<in> set s. is_digit c"
  shows "takeWhile is_digit (s @ r) = s" and "dropWhile is_digit (s @ r) = r" and "\<not> float_tail r"
proof -
  have "r = [] \<or> \<not> is_digit (hd r)" using assms(1) by (cases r) (auto simp: json_end_def is_digit_def)
  then show "takeWhile is_digit (s @ r) = s" "dropWhile is_digit (s @ r) = r"
    using assms(2) by (cases r; simp add: takeWhile_append dropWhile_append)+
  show "\<not> float_tail r" using assms(1) by (auto simp: json_end_def float_tail_def split: list.splits)
qed

lemma hd_str_of_nat: "0 < n \<Longrightarrow> hd (str_of_nat n) \<noteq> CHR ''0''"
proof (induction n rule: str_of_nat.induct)
  case (1 n)
  show ?case
  proof (cases "n < 10")
    case True
    moreover have "digit n \<noteq> CHR ''0''"
      using digit_val_digit [OF True] 1(2) by (auto simp: digit_val_def)
    ultimately show ?thesis by (simp add: str_of_nat.simps [of n])
  next
    case False
    with 1 show ?thesis by (simp add: str_of_nat.simps [of n])
  qed
qed

lemma json_nat_str: "json_end r \<Longrightarrow> json_nat (str_of_nat n @ r) = Inr (n, r)"
proof (cases n)
  case 0
  have "digit 0 = CHR ''0''" by code_simp
  with 0 show ?thesis by (simp add: json_nat_def str_of_nat.simps [of 0])
next
  case (Suc m)
  assume r: "json_end r"
  obtain c cs where s: "str_of_nat n = c # cs" by (cases "str_of_nat n") simp_all
  with hd_str_of_nat [of n] Suc have "c \<noteq> CHR ''0''" by simp
  with s json_end_digits [OF r str_of_nat_digits [of n]] py_nat_str_of_nat [of n] show ?thesis
    by (simp add: json_nat_def)
qed

lemma json_number_str: "json_end r \<Longrightarrow> json_number (str_of_int n @ r) = Inr (PInt n, r)"
proof -
  assume r: "json_end r"
  obtain c cs where s: "str_of_nat (nat n) = c # cs" by (cases "str_of_nat (nat n)") simp_all
  with str_of_nat_digits [of "nat n"] is_digit_chars [of c] have "c \<noteq> CHR ''-''" by simp
  with s r json_nat_str [OF r, of "nat n"] json_nat_str [OF r, of "nat (- n)"] json_end_digits(3) [OF r, where s = "[]"] show ?thesis
    by (auto simp: json_number_def str_of_int_def Let_def)
qed

text \<open>Every dictionary has each key once, as every Python dictionary does.\<close>

fun dict_keys_once :: "pyval \<Rightarrow> bool" where
  "dict_keys_once (PList vs) = (\<forall>v \<in> set vs. dict_keys_once v)"
| "dict_keys_once (PDict d) = (distinct (map fst d) \<and> (\<forall>(k, v) \<in> set d. dict_keys_once v))"
| "dict_keys_once v = True"

lemma skip_ws_Cons [simp]: "skip_ws (c # s) = (if json_ws c then skip_ws s else c # s)"
  by (simp add: skip_ws_def)

lemma skip_ws_newline [simp]: "skip_ws (json_newline l @ s) = skip_ws s"
proof -
  have "dropWhile json_ws (replicate n (CHR '' '') @ s) = dropWhile json_ws s" for n
    by (induction n) (simp_all add: json_ws_def)
  then show ?thesis by (simp add: skip_ws_def json_newline_def json_ws_def)
qed

definition starts :: "string \<Rightarrow> bool" where
  "starts s = (case s of [] \<Rightarrow> False | c # _ \<Rightarrow> \<not> json_ws c \<and> c \<notin> {CHR '']'', CHR ''}''})"

lemma skip_ws_starts: "starts s \<Longrightarrow> skip_ws (s @ r) = s @ r"
  by (cases s) (simp_all add: starts_def skip_ws_def)

lemma json_str_starts [simp]: "starts (json_str s)"
  by (simp add: starts_def json_str_def json_ws_def)

lemma str_of_int_hd: "\<exists>c s. str_of_int n = c # s \<and> (c = CHR ''-'' \<or> is_digit c)"
  using str_of_nat_digits [of "nat n"] str_of_nat_ne [of "nat n"]
  by (cases "str_of_nat (nat n)") (auto simp: str_of_int_def)

lemma json_print_starts: "starts (json_print l v)"
proof (cases v)
  case (PInt n)
  moreover obtain c s where "str_of_int n = c # s" "c = CHR ''-'' \<or> is_digit c" using str_of_int_hd by blast
  ultimately show ?thesis by (auto simp: starts_def json_ws_def is_digit_def)
qed (auto simp: starts_def json_ws_def json_str_def)

lemma json_end_newline [simp]: "json_end (json_newline l @ s)" "json_end (CHR '','' # s)" "json_end []"
  by (simp_all add: json_end_def json_newline_def)

lemma json_elems_print:
  assumes "\<And>v n r. v \<in> set vs \<Longrightarrow> length (f v) \<le> n \<Longrightarrow> json_end r \<Longrightarrow> json_value n (f v @ r) = Inr (v, r)"
    and "\<And>v. v \<in> set vs \<Longrightarrow> starts (f v)" and "vs \<noteq> []" and "length (join (CHR '','' # json_newline l) (map f vs)) < n"
  shows "json_elems n (join (CHR '','' # json_newline l) (map f vs) @ json_newline l' @ CHR '']'' # r) = Inr (vs, r)"
  using assms
proof (induction vs arbitrary: n rule: induct_list012)
  case (2 v)
  then obtain m where "n = Suc m" "length (f v) \<le> m" by (cases n) auto
  with 2(1) [of v m "json_newline l' @ CHR '']'' # r"] show ?case by (simp add: json_ws_def Let_def)
next
  case (3 v u us)
  let ?rest = "join (CHR '','' # json_newline l) (map f (u # us))"
  from 3(6) obtain m where m: "n = Suc m" "length (f v) \<le> m" "length ?rest < m" by (cases n) auto
  have rest: "starts ?rest" using 3(4) [of u] by (cases us) (auto simp: starts_def split: list.splits)
  have "json_value m (f v @ (CHR '','' # json_newline l) @ ?rest @ json_newline l' @ CHR '']'' # r) =
      Inr (v, (CHR '','' # json_newline l) @ ?rest @ json_newline l' @ CHR '']'' # r)"
    by (rule 3(3)) (use m in simp_all)
  moreover have "json_elems m (?rest @ json_newline l' @ CHR '']'' # r) = Inr (u # us, r)"
    by (rule 3(2)) (use 3 m in simp_all)
  ultimately show ?case
    using m(1) skip_ws_starts [OF rest] by (simp add: json_ws_def Let_def)
qed simp

definition json_member :: "(pyval \<Rightarrow> string) \<Rightarrow> string \<times> pyval \<Rightarrow> string" where
  "json_member f p = json_str (fst p) @ '': '' @ f (snd p)"

lemma json_member_length: "length (f v) \<le> length (json_member f (k, v))"
  by (simp add: json_member_def)

lemma json_print_dict: "d \<noteq> [] \<Longrightarrow> json_print l (PDict d) =
    ''{'' @ json_newline (Suc l) @ join (CHR '','' # json_newline (Suc l)) (map (json_member (json_print (Suc l))) d) @ json_newline l @ ''}''"
proof -
  have "json_member f = (\<lambda>(k, v). json_str k @ '': '' @ f v)" for f by (auto simp: json_member_def)
  then show "d \<noteq> [] \<Longrightarrow> ?thesis" by simp
qed

lemma json_member_parse:
  assumes "json_value n (f v @ r) = Inr (v, r)" and "starts (f v)" and "json_end r"
  shows "json_members (Suc n) (json_member f (k, v) @ r) =
    (let t' = skip_ws r in
     if startswith t' ''}'' then Inr ([(k, v)], tl t')
     else if startswith t' '','' then map_sum id (\<lambda>(d, u). ((k, v) # d, u)) (json_members n (skip_ws (tl t')))
     else Inl (ValueErr ''Expecting comma delimiter''))"
  using assms skip_ws_starts [OF assms(2), of r]
  by (simp add: json_member_def json_str_def json_ws_def Let_def)

lemma json_members_print:
  assumes "\<And>k v n r. (k, v) \<in> set d \<Longrightarrow> length (f v) \<le> n \<Longrightarrow> json_end r \<Longrightarrow> json_value n (f v @ r) = Inr (v, r)"
    and "\<And>v. starts (f v)" and "d \<noteq> []" and "length (join (CHR '','' # json_newline l) (map (json_member f) d)) < n"
  shows "json_members n (join (CHR '','' # json_newline l) (map (json_member f) d) @ json_newline l' @ CHR ''}'' # r) = Inr (d, r)"
  using assms
proof (induction d arbitrary: n rule: induct_list012)
  case (2 p)
  obtain k v where p: "p = (k, v)" by (cases p)
  from 2(4) p obtain m where m: "n = Suc m" "length (f v) \<le> m" by (cases n) (auto simp: json_member_def)
  have "json_value m (f v @ json_newline l' @ CHR ''}'' # r) = Inr (v, json_newline l' @ CHR ''}'' # r)"
    by (rule 2(1) [of k]) (use p m in simp_all)
  with json_member_parse [of m f v "json_newline l' @ CHR ''}'' # r" k] 2(2) m(1) p show ?case by (simp add: json_ws_def Let_def)
next
  case (3 p q qs)
  obtain k v where p: "p = (k, v)" by (cases p)
  let ?rest = "join (CHR '','' # json_newline l) (map (json_member f) (q # qs))"
  from 3(6) p json_member_length [of f v k] obtain m where m: "n = Suc m" "length (f v) \<le> m" "length ?rest < m"
    by (cases n) auto
  have rest: "starts ?rest" by (cases qs) (auto simp: json_member_def json_str_def starts_def json_ws_def)
  have "json_value m (f v @ (CHR '','' # json_newline l) @ ?rest @ json_newline l' @ CHR ''}'' # r) =
      Inr (v, (CHR '','' # json_newline l) @ ?rest @ json_newline l' @ CHR ''}'' # r)"
    by (rule 3(3) [of k]) (use p m in simp_all)
  moreover have "json_members m (?rest @ json_newline l' @ CHR ''}'' # r) = Inr (q # qs, r)"
  proof (rule 3(2))
    fix k' v' n' r' assume "(k', v') \<in> set (q # qs)" "length (f v') \<le> n'" "json_end r'"
    then show "json_value n' (f v' @ r') = Inr (v', r')" by (intro 3(3) [of k']) simp_all
  qed (use 3(4) m in simp_all)
  ultimately show ?case
    using m(1) p skip_ws_starts [OF rest] json_member_parse [of m f v "(CHR '','' # json_newline l) @ ?rest @ json_newline l' @ CHR ''}'' # r" k] 3(4)
    by (simp add: json_ws_def Let_def)
qed simp

lemma foldl_dict_set: "distinct (map fst (m @ d)) \<Longrightarrow> foldl (\<lambda>m (k, v). dict_set m k v) m d = m @ d"
proof (induction d arbitrary: m)
  case (Cons p d)
  then have "fst p \<notin> fst ` set m" by auto
  with Cons show ?case by (cases p) (simp add: dict_set_fresh)
qed simp

lemma json_value_print:
  "dict_keys_once v \<Longrightarrow> length (json_print l v) \<le> n \<Longrightarrow> json_end r \<Longrightarrow> json_value n (json_print l v @ r) = Inr (v, r)"
proof (induction v arbitrary: l n r)
  case (PInt i)
  obtain c s where s: "str_of_int i = c # s" "c = CHR ''-'' \<or> is_digit c" using str_of_int_hd by blast
  then have "c \<notin> set [CHR 0x22, CHR ''{'', CHR ''['', CHR ''n'', CHR ''t'', CHR ''f'']" by (auto simp: is_digit_def)
  with s PInt json_number_str [OF PInt(3), of i] show ?case by (cases n) simp_all
next
  case (PStr t)
  then show ?case by (cases n) (simp_all add: json_str_def)
next
  case (PList vs)
  show ?case
  proof (cases "vs = []")
    case False
    with PList(3) obtain m where m: "n = Suc m" "length (join (CHR '','' # json_newline (Suc l)) (map (json_print (Suc l)) vs)) < m"
      by (cases n) auto
    have "json_elems m (join (CHR '','' # json_newline (Suc l)) (map (json_print (Suc l)) vs) @ json_newline l @ CHR '']'' # r) = Inr (vs, r)"
      by (rule json_elems_print) (use PList False m in \<open>simp_all add: json_print_starts\<close>)
    moreover have "starts (join (CHR '','' # json_newline (Suc l)) (map (json_print (Suc l)) vs))"
      using False json_print_starts [of "Suc l" "hd vs"] by (cases vs; cases "tl vs") (auto simp: starts_def split: list.splits)
    ultimately show ?thesis
      using m(1) False skip_ws_starts
      by (auto simp: Let_def starts_def split: list.splits)
  qed (use PList in \<open>cases n; simp add: json_ws_def Let_def\<close>)
next
  case (PDict d)
  let ?f = "json_print (Suc l)" let ?sep = "CHR '','' # json_newline (Suc l)"
  show ?case
  proof (cases "d = []")
    case False
    note print = json_print_dict [OF this, of l]
    from PDict(3) print obtain m where m: "n = Suc m" "length (join ?sep (map (json_member ?f) d)) < m"
      by (cases n) (auto simp del: json_print.simps)
    have "json_members m (join ?sep (map (json_member ?f) d) @ json_newline l @ CHR ''}'' # r) = Inr (d, r)"
    proof (rule json_members_print)
      fix k v n' r' assume "(k, v) \<in> set d" "length (?f v) \<le> n'" "json_end r'"
      with PDict(2) show "json_value n' (?f v @ r') = Inr (v, r')" by (intro PDict(1) [of "(k, v)"]) auto
    qed (use False m in \<open>simp_all add: json_print_starts\<close>)
    moreover have "starts (join ?sep (map (json_member ?f) d))"
      using False by (cases d; cases "tl d") (auto simp: json_member_def json_str_def starts_def json_ws_def)
    ultimately show ?thesis
      using m(1) PDict(2) skip_ws_starts foldl_dict_set [of "[]" d] unfolding print
      by (auto simp: Let_def starts_def split: list.splits)
  qed (use PDict in \<open>cases n; simp add: json_ws_def Let_def\<close>)
next
  case PNone
  then show ?case by (cases n) simp_all
next
  case (PBool b)
  then show ?case by (cases n; cases b) simp_all
qed

lemma distinct_keys_sort: "distinct (map fst (sort_key f d)) = distinct (map fst d)"
  by (simp add: distinct_map)

lemma dict_keys_once_sort: "dict_keys_once v \<Longrightarrow> dict_keys_once (sort_keys v)"
proof (induction v)
  case (PDict d)
  have "distinct (map fst (sort_key fst (map (\<lambda>(k, v). (k, sort_keys v)) d)))"
    using PDict(2) by (simp add: distinct_keys_sort comp_def case_prod_beta)
  moreover have "dict_keys_once (sort_keys v)" if "(k, v) \<in> set d" for k v
    using PDict(1) [OF that] PDict(2) that by auto
  ultimately show ?case by auto
qed auto

lemma json_loads_dump:
  assumes "dict_keys_once v" and "\<forall>c \<in> set t. json_ws c" and "json_end t"
  shows "json_loads (json_dump v @ t) = Inr (sort_keys v)"
proof -
  let ?s = "json_print 0 (sort_keys v)"
  have "json_value (2 * length (?s @ t) + 2) (?s @ t) = Inr (sort_keys v, t)"
    by (rule json_value_print [OF dict_keys_once_sort [OF assms(1)]]) (use assms(3) in simp_all)
  moreover have "skip_ws t = []" using assms(2) by (simp add: skip_ws_def)
  ultimately show ?thesis
    using skip_ws_starts [OF json_print_starts] by (simp add: json_loads_def json_dump_def)
qed

text \<open>Sorting the keys keeps what a lookup in a dictionary finds.\<close>

lemma map_of_sort_keys:
  "distinct (map fst d) \<Longrightarrow> map_of (sort_key fst (map (\<lambda>(k, v). (k, sort_keys v)) d)) k = map_option sort_keys (map_of d k)"
proof -
  assume d: "distinct (map fst d)"
  let ?e = "map (\<lambda>(k, v). (k, sort_keys v)) d"
  have "map_of (sort_key fst ?e) = map_of ?e"
    using d by (subst map_of_inject_set) (simp_all add: distinct_keys_sort comp_def case_prod_beta)
  then show ?thesis by (simp add: map_of_map)
qed

end
