(* ===== verification/Save.thy ===== *)
theory Save
  imports Root Json
begin

unbundle bit_operations_syntax

text \<open>
  The configuration file (\<^verbatim>\<open>root.py\<close>: \<^verbatim>\<open>save_to_file\<close>, \<^verbatim>\<open>_get_saveconf\<close>, \<^verbatim>\<open>restore_from_file\<close>, and \<^verbatim>\<open>tcm.py\<close>'s
  \<^verbatim>\<open>delete(save=True)\<close>). The files outside configfs are a list of named files; every operation on them can
  fail with an error the environment chooses, and a crash of the machine keeps of a file at least what was
  synchronised and at most what was written. The theory shows that the saved file is never a torn one, that
  it is readable by its owner only, that it loads back to the dumped configuration, what a failure leaves
  behind, and that merging one storage object into a saved configuration updates that object and no other.
\<close>

section \<open>Files\<close>

fun disk_step :: "disk \<Rightarrow> disk_op \<Rightarrow> errno + disk" where
  "disk_step d (DUnlink p) = (if map_of d p = None then Inl ENOENT else Inr (dict_del d p))"
| "disk_step d (DCreate p m) =
     (if map_of d p \<noteq> None then Inl EEXIST else Inr (dict_set d p \<lparr>df_mode = m, df_content = [], df_durable = []\<rparr>))"
| "disk_step d (DAppend p s) = (case map_of d p of
      None \<Rightarrow> Inl ENOENT | Some f \<Rightarrow> Inr (dict_set d p (f\<lparr>df_content := df_content f @ s\<rparr>)))"
| "disk_step d (DSync p) = (case map_of d p of
      None \<Rightarrow> Inl ENOENT | Some f \<Rightarrow> Inr (dict_set d p (f\<lparr>df_durable := df_content f\<rparr>)))"
| "disk_step d (DReplace p q) = (case map_of d p of
      None \<Rightarrow> Inl ENOENT | Some f \<Rightarrow> Inr (dict_set (dict_del d p) q f))"
| "disk_step d (DChmod p m) = (case map_of d p of
      None \<Rightarrow> Inl ENOENT | Some f \<Rightarrow> Inr (dict_set d p (f\<lparr>df_mode := m\<rparr>)))"

definition disk_do :: "env \<Rightarrow> path \<Rightarrow> disk_op \<Rightarrow> unit W" where
  "disk_do K p op = (\<lambda>w.
     case k_disk_fault K (disk_files w) op of
       Some e \<Rightarrow> (Err (OSErr e p), w)
     | None \<Rightarrow> (case disk_step (disk_files w) op of
           Inl e \<Rightarrow> (Err (OSErr e p), w)
         | Inr d \<Rightarrow> (Ok (), w\<lparr>disk_files := d\<rparr>)))"

text \<open>\<^verbatim>\<open>os.umask\<close> gives back the mask it replaces; a new file gets the default mode without the bits of the mask.\<close>

definition set_umask :: "nat \<Rightarrow> nat W" where
  "set_umask m = bindM (gets cur_umask) (\<lambda>old. seqM (modify (\<lambda>w. w\<lparr>cur_umask := m\<rparr>)) (ret old))"

definition create_mode :: "nat \<Rightarrow> nat" where
  "create_mode um = 438 - (438 AND um)"

definition is_enoent :: "exn \<Rightarrow> bool" where
  "is_enoent e = (case e of OSErr ENOENT _ \<Rightarrow> True | _ \<Rightarrow> False)"

section \<open>Merging one storage object into a saved configuration\<close>

definition bindE :: "exn + 'a \<Rightarrow> ('a \<Rightarrow> exn + 'b) \<Rightarrow> exn + 'b" where
  "bindE x f = (case x of Inl e \<Rightarrow> Inl e | Inr a \<Rightarrow> f a)"

text \<open>\<^verbatim>\<open>v.get(k, [])\<close> as the list a loop runs over; \<^verbatim>\<open>v[k]\<close>.\<close>

definition entries :: "pyval \<Rightarrow> string \<Rightarrow> exn + pyval list" where
  "entries v k = (case v of
      PDict d \<Rightarrow> py_elems (dict_get d k (PList []))
    | _ \<Rightarrow> Inl (AttributeErr ''get''))"

definition subscript :: "pyval \<Rightarrow> string \<Rightarrow> exn + pyval" where
  "subscript v k = (case v of
      PDict d \<Rightarrow> (case map_of d k of None \<Rightarrow> Inl (KeyErr k) | Some x \<Rightarrow> Inr x)
    | _ \<Rightarrow> Inl (TypeErr ''indices must be integers''))"

fun as_str :: "pyval \<Rightarrow> exn + string" where
  "as_str (PStr s) = Inr s"
| "as_str _ = Inl (TypeErr ''can only concatenate str'')"

definition conf_path :: "pyval \<Rightarrow> exn + string" where
  "conf_path sobj = bindE (bindE (subscript sobj ''plugin'') as_str) (\<lambda>plugin.
     bindE (bindE (subscript sobj ''name'') as_str) (\<lambda>name. Inr (''/backstores/'' @ plugin @ ''/'' @ name)))"

text \<open>The loops that look for the first entry with a property.\<close>

fun first_such :: "('a \<Rightarrow> exn + bool) \<Rightarrow> 'a list \<Rightarrow> exn + nat option" where
  "first_such f [] = Inr None"
| "first_such f (x # xs) = bindE (f x) (\<lambda>b. if b then Inr (Some 0) else map_sum id (map_option Suc) (first_such f xs))"

definition lun_uses :: "string \<Rightarrow> pyval \<Rightarrow> exn + bool" where
  "lun_uses obj lun = bindE (subscript lun ''storage_object'') (\<lambda>s. Inr (s = PStr obj))"

definition tpg_uses :: "string \<Rightarrow> pyval \<Rightarrow> exn + bool" where
  "tpg_uses obj luns = bindE (entries luns ''luns'') (\<lambda>xs. map_sum id (\<lambda>i. i \<noteq> None) (first_such (lun_uses obj) xs))"

definition target_uses :: "string \<Rightarrow> pyval \<Rightarrow> exn + bool" where
  "target_uses obj tobj = bindE (entries tobj ''tpgs'') (\<lambda>xs. map_sum id (\<lambda>i. i \<noteq> None) (first_such (tpg_uses obj) xs))"

definition find_so :: "string \<Rightarrow> pydict \<Rightarrow> exn + nat option" where
  "find_so obj conf = bindE (entries (PDict conf) ''storage_objects'') (first_such (\<lambda>v. map_sum id (\<lambda>p. p = obj) (conf_path v)))"

definition find_target :: "string \<Rightarrow> pydict \<Rightarrow> exn + nat option" where
  "find_target obj conf = bindE (entries (PDict conf) ''targets'') (first_such (target_uses obj))"

text \<open>
  What becomes of a list of the saved configuration: the entry at the index found is replaced by the current
  one or, when there is none, removed.
\<close>

definition conf_list :: "pydict \<Rightarrow> string \<Rightarrow> pyval list" where
  "conf_list conf k = (case map_of conf k of Some (PList xs) \<Rightarrow> xs | _ \<Rightarrow> [])"

definition replace_at :: "pydict \<Rightarrow> string \<Rightarrow> nat option \<Rightarrow> pyval option \<Rightarrow> pydict" where
  "replace_at conf k i cur = (case i of
      None \<Rightarrow> conf
    | Some n \<Rightarrow> dict_set conf k (PList (case cur of
          Some v \<Rightarrow> (conf_list conf k)[n := v]
        | None \<Rightarrow> remove1 (conf_list conf k ! n) (conf_list conf k))))"

definition insert_new :: "pydict \<Rightarrow> string \<Rightarrow> nat option \<Rightarrow> pyval option \<Rightarrow> exn + pydict" where
  "insert_new conf k i cur = (case (i, cur) of
      (None, Some v) \<Rightarrow> bindE (subscript (PDict conf) k) (\<lambda>xs. case xs of
         PList vs \<Rightarrow> Inr (dict_set conf k (PList (vs @ [v]))) | _ \<Rightarrow> Inl (AttributeErr ''append''))
    | _ \<Rightarrow> Inr conf)"

definition merge_saveconf :: "string \<Rightarrow> pydict \<Rightarrow> pydict \<Rightarrow> exn + pydict" where
  "merge_saveconf obj current saveconf =
     bindE (find_so obj current) (\<lambda>ci.
     bindE (if ci = None then Inr None else find_target obj current) (\<lambda>ct.
     let current_so = map_option (\<lambda>i. conf_list current ''storage_objects'' ! i) ci;
         current_tg = map_option (\<lambda>i. conf_list current ''targets'' ! i) ct in
     bindE (find_so obj saveconf) (\<lambda>si.
     let saveconf1 = replace_at saveconf ''storage_objects'' si current_so in
     bindE (if si = None then Inr None else find_target obj saveconf1) (\<lambda>st.
     let saveconf2 = replace_at saveconf1 ''targets'' st current_tg in
     bindE (insert_new saveconf2 ''storage_objects'' si current_so) (\<lambda>saveconf3.
       insert_new saveconf3 ''targets'' st current_tg)))))"

section \<open>Saving and restoring\<close>

text \<open>
  \<^verbatim>\<open>with Path(f).open as f\<close> enters the bound method instead of the opened file: it raises before the body,
  and what it raises is not an \<^verbatim>\<open>OSError\<close> (from Python 3.11 on the \<^verbatim>\<open>TypeError\<close> below, before it an
  \<^verbatim>\<open>AttributeError\<close>; no handler of the library or its scripts tells the two apart).
\<close>

definition with_unopened :: "('f \<Rightarrow> 'a W) \<Rightarrow> 'a W" where
  "with_unopened body = raise (TypeErr ''method object does not support the context manager protocol'')"

definition read_saveconf :: "path \<Rightarrow> pydict W" where
  "read_saveconf save_file =
     catchM (with_unopened (\<lambda>text. bindM (lift (json_loads text)) (\<lambda>v. lift (py_items v))))
       (\<lambda>e. if is_enoent e then ret [(''storage_objects'', PList []), (''targets'', PList [])]
            else if is_oserror e then raise (OSErr EIO save_file)
            else raise e)"

definition get_saveconf :: "env \<Rightarrow> string \<Rightarrow> path \<Rightarrow> pydict W" where
  "get_saveconf K obj save_file =
     bindM (root_dump K) (\<lambda>current.
     bindM (read_saveconf save_file) (\<lambda>saveconf. lift (merge_saveconf obj current saveconf)))"

definition default_save_file :: string where
  "default_save_file = ''/etc/target/saveconfig.json''"

definition with_name_temp :: "path \<Rightarrow> exn + path" where
  "with_name_temp p = (if p = [] then Inl (ValueErr ''has an empty name'') else Inr (butlast p @ [last p @ ''.temp'']))"

text \<open>
  The text reaches the file at the flush at the latest, in pieces: the append stands for all of them,
  and a crash may keep any part of it.
\<close>

definition write_temp :: "env \<Rightarrow> path \<Rightarrow> pyval \<Rightarrow> unit W" where
  "write_temp K tmp saveconf =
     catchM
       (seqM (bindM (gets cur_umask) (\<lambda>um. disk_do K tmp (DCreate tmp (create_mode um))))
       (seqM (disk_do K tmp (DAppend tmp (json_dump saveconf @ [CHR 0x0A])))
         (disk_do K tmp (DSync tmp))))
       (\<lambda>e. if is_oserror e then raise (RuntimeErr (''Could not open '' @ path_str tmp)) else raise e)"

definition write_saveconf :: "env \<Rightarrow> path \<Rightarrow> pyval \<Rightarrow> unit W" where
  "write_saveconf K save_file saveconf =
     (let mode = 384; umask = 511 XOR mode in
      bindM (lift (with_name_temp save_file)) (\<lambda>tmp.
      seqM (ignored is_enoent (disk_do K tmp (DUnlink tmp)))
     (bindM (set_umask umask) (\<lambda>original_umask.
      seqM (write_temp K tmp saveconf)
     (seqM (disk_do K tmp (DReplace tmp save_file))
     (seqM (disk_do K save_file (DChmod save_file mode))
     (seqM (set_umask original_umask) (ret ()))))))))"

definition save_to_file :: "env \<Rightarrow> string \<Rightarrow> string \<Rightarrow> unit W" where
  "save_to_file K save_file obj =
     (let p = comps (if save_file = [] then default_save_file else save_file) in
      bindM (if obj \<noteq> [] then get_saveconf K obj p else root_dump K) (\<lambda>saveconf.
        write_saveconf K p (PDict saveconf)))"

definition restore_from_file :: "env \<Rightarrow> string \<Rightarrow> bool \<Rightarrow> string \<Rightarrow> string \<Rightarrow> bool \<Rightarrow> string list W" where
  "restore_from_file K restore_file clear tgt storage_object abort_on_error =
     with_unopened (\<lambda>text. bindM (lift (json_loads text)) (\<lambda>v. bindM (lift (py_items v)) (\<lambda>config.
       restore K config tgt storage_object clear abort_on_error)))"

definition so_delete_save :: "env \<Rightarrow> storage_object \<Rightarrow> bool \<Rightarrow> unit W" where
  "so_delete_save K so save =
     seqM (so_delete K so)
       (whenM save (seqM (RTSRoot_init K)
          (save_to_file K default_save_file (''/backstores/'' @ so_plugin so @ ''/'' @ so_name so))))"

section \<open>The file as it is written\<close>

lemma wp_disk_do [wp]:
  "wp (disk_do K p op) Q E w = (case k_disk_fault K (disk_files w) op of
      Some e \<Rightarrow> E (OSErr e p) w
    | None \<Rightarrow> (case disk_step (disk_files w) op of
          Inl e \<Rightarrow> E (OSErr e p) w | Inr d \<Rightarrow> Q () (w\<lparr>disk_files := d\<rparr>)))"
  by (simp add: wp_def disk_do_def split: option.splits sum.splits)

lemma wp_set_umask [wp]: "wp (set_umask m) Q E w = Q (cur_umask w) (w\<lparr>cur_umask := m\<rparr>)"
  by (simp add: set_umask_def wp)

lemma wp_ignored: "wp (ignored ex m) Q E w = wp m Q (\<lambda>e s. if ex e then Q () s else E e s) w"
  by (cases "m w") (auto simp: ignored_def wp_def catchM_def ret_def raise_def split: res.splits)

definition temp_of :: "path \<Rightarrow> path" where
  "temp_of p = butlast p @ [last p @ ''.temp'']"

lemma temp_of_ne [simp]: "temp_of p \<noteq> p" "p \<noteq> temp_of p"
proof -
  show "temp_of p \<noteq> p" by (cases p rule: rev_cases) (simp_all add: temp_of_def)
  then show "p \<noteq> temp_of p" by metis
qed

lemma with_name_temp_cases: "with_name_temp p = (if p = [] then Inl (ValueErr ''has an empty name'') else Inr (temp_of p))"
  by (simp add: with_name_temp_def temp_of_def)

lemma masks: "create_mode 127 = 384" "(511 XOR 384 :: nat) = 127"
  by code_simp+

text \<open>The contents a crash of the machine may leave in a file.\<close>

definition survives :: "dfile \<Rightarrow> string \<Rightarrow> bool" where
  "survives f c = (prefix (df_durable f) c \<and> prefix c (df_content f))"

lemma survives_synced: "df_durable f = df_content f \<Longrightarrow> {c. survives f c} = {df_content f}"
  by (auto simp: survives_def intro: prefix_order.antisym)

text \<open>
  What holds of the files at every point of a save: only the two names are touched, a file that is not one of
  before has mode 0600, and under the name of the save file there is the old file or a synchronised one with
  the whole text.
\<close>

definition saving :: "path \<Rightarrow> string \<Rightarrow> disk \<Rightarrow> disk \<Rightarrow> bool" where
  "saving p text d d' = ((\<forall>q. q = p \<or> q = temp_of p \<or> map_of d' q = map_of d q) \<and>
     (\<forall>q. map_of d' q = None \<or> map_of d' q = map_of d q \<or> df_mode (the (map_of d' q)) = 384) \<and>
     (map_of d' p = map_of d p \<or> map_of d' p = Some \<lparr>df_mode = 384, df_content = text, df_durable = text\<rparr>))"

lemma saving_temp:
  "map_of d' = (map_of d)(temp_of p := x) \<Longrightarrow> x = None \<or> x = map_of d (temp_of p) \<or> (\<exists>f. x = Some f \<and> df_mode f = 384) \<Longrightarrow> saving p text d d'"
  by (auto simp: saving_def)

lemma saving_done:
  "map_of d' = (map_of d)(temp_of p := None, p \<mapsto> \<lparr>df_mode = 384, df_content = text, df_durable = text\<rparr>) \<Longrightarrow> saving p text d d'"
  by (auto simp: saving_def)

lemma unlink_temp:
  "wp (ignored is_enoent (disk_do K tmp (DUnlink tmp)))
     (\<lambda>_ w'. cur_umask w' = cur_umask w \<and>
        (\<exists>x. map_of (disk_files w') = (map_of (disk_files w))(tmp := x) \<and> (x = None \<or> x = map_of (disk_files w) tmp)))
     (\<lambda>_ w'. w' = w) w"
proof -
  have "\<exists>x. map_of (disk_files w) = (map_of (disk_files w))(tmp := x) \<and> (x = None \<or> x = map_of (disk_files w) tmp)"
    by (metis fun_upd_triv)
  then show ?thesis by (auto simp: wp_ignored wp_disk_do split: option.splits)
qed

lemma write_temp_text:
  assumes "map_of (disk_files s) = m(tmp := x)" and "x = None \<or> x = m tmp" and "cur_umask s = 511 XOR 384"
  shows "wp (write_temp K tmp v)
     (\<lambda>_ w'. cur_umask w' = cur_umask s \<and> map_of (disk_files w') =
        m(tmp \<mapsto> \<lparr>df_mode = 384, df_content = json_dump v @ [CHR 0x0A], df_durable = json_dump v @ [CHR 0x0A]\<rparr>))
     (\<lambda>_ w'. cur_umask w' = cur_umask s \<and>
        (\<exists>x. map_of (disk_files w') = m(tmp := x) \<and> (x = None \<or> x = m tmp \<or> (\<exists>f. x = Some f \<and> df_mode f = 384)))) s"
proof -
  let ?f = "\<lparr>df_mode = 384, df_content = [], df_durable = []\<rparr>" let ?text = "json_dump v @ [CHR 0x0A]"
  let ?E = "\<lambda>w'. cur_umask w' = cur_umask s \<and>
        (\<exists>x. map_of (disk_files w') = m(tmp := x) \<and> (x = None \<or> x = m tmp \<or> (\<exists>f. x = Some f \<and> df_mode f = 384)))"
  have create: "wp (bindM (gets cur_umask) (\<lambda>um. disk_do K tmp (DCreate tmp (create_mode um))))
      (\<lambda>_ w'. cur_umask w' = cur_umask s \<and> map_of (disk_files w') = m(tmp \<mapsto> ?f)) (\<lambda>_. ?E) s"
    using assms by (auto simp: wp_bindM wp_gets wp_disk_do masks split: option.splits)
  have append: "wp (disk_do K tmp (DAppend tmp ?text))
      (\<lambda>_ w'. cur_umask w' = cur_umask s \<and> map_of (disk_files w') = m(tmp \<mapsto> ?f\<lparr>df_content := ?text\<rparr>)) (\<lambda>_. ?E) t"
    if "cur_umask t = cur_umask s \<and> map_of (disk_files t) = m(tmp \<mapsto> ?f)" for t
    using that by (auto simp: wp_disk_do split: option.splits)
  have sync: "wp (disk_do K tmp (DSync tmp))
      (\<lambda>_ w'. cur_umask w' = cur_umask s \<and> map_of (disk_files w') = m(tmp \<mapsto> \<lparr>df_mode = 384, df_content = ?text, df_durable = ?text\<rparr>))
      (\<lambda>_. ?E) t"
    if "cur_umask t = cur_umask s \<and> map_of (disk_files t) = m(tmp \<mapsto> ?f\<lparr>df_content := ?text\<rparr>)" for t
    using that by (auto simp: wp_disk_do split: option.splits)
  show ?thesis
    unfolding write_temp_def wp_catchM
    by (rule wp_mono [OF wp_seqI [OF create wp_seqI [OF append sync]]]) (simp_all add: wp)
qed

lemma write_saveconf_saving:
  "wp (write_saveconf K p v)
     (\<lambda>_ w'. saving p (json_dump v @ [CHR 0x0A]) (disk_files w) (disk_files w') \<and> cur_umask w' = cur_umask w \<and>
        map_of (disk_files w') p = Some \<lparr>df_mode = 384, df_content = json_dump v @ [CHR 0x0A], df_durable = json_dump v @ [CHR 0x0A]\<rparr>)
     (\<lambda>_ w'. saving p (json_dump v @ [CHR 0x0A]) (disk_files w) (disk_files w')) w"
proof (cases "p = []")
  case True
  have "saving p tx d d" for tx d by (simp add: saving_def)
  with True show ?thesis by (simp add: write_saveconf_def with_name_temp_cases wp)
next
  case False
  let ?d = "map_of (disk_files w)" let ?text = "json_dump v @ [CHR 0x0A]" let ?tmp = "temp_of p"
  let ?full = "\<lparr>df_mode = 384, df_content = ?text, df_durable = ?text\<rparr>"
  let ?E = "\<lambda>w'. saving p ?text (disk_files w) (disk_files w')"
  have rest: "wp (seqM (disk_do K ?tmp (DReplace ?tmp p)) (seqM (disk_do K p (DChmod p 384)) (seqM (set_umask (cur_umask w)) (ret ()))))
      (\<lambda>_ w'. ?E w' \<and> cur_umask w' = cur_umask w \<and> map_of (disk_files w') p = Some ?full) (\<lambda>_. ?E) t"
    if "map_of (disk_files t) = ?d(?tmp \<mapsto> ?full)" for t
  proof -
    have "saving p ?text (disk_files w) (disk_files t)" by (rule saving_temp) (use that in auto)
    moreover have "saving p ?text (disk_files w) d'" if "map_of d' = ?d(?tmp := None, p \<mapsto> ?full)" for d'
      by (rule saving_done) (use that in simp)
    ultimately show ?thesis using that by (auto simp: wp split: option.splits)
  qed
  have writes: "wp (seqM (write_temp K ?tmp v)
      (seqM (disk_do K ?tmp (DReplace ?tmp p)) (seqM (disk_do K p (DChmod p 384)) (seqM (set_umask (cur_umask w)) (ret ())))))
      (\<lambda>_ w'. ?E w' \<and> cur_umask w' = cur_umask w \<and> map_of (disk_files w') p = Some ?full) (\<lambda>_. ?E) t"
    if "map_of (disk_files t) = ?d(?tmp := x)" "x = None \<or> x = ?d ?tmp" "cur_umask t = 511 XOR 384" for t x
    unfolding wp_seqM [of "write_temp K ?tmp v"]
    by (rule wp_mono [OF write_temp_text [OF that]]) (auto intro: rest saving_temp)
  have "wp (bindM (set_umask (511 XOR 384)) (\<lambda>u. seqM (write_temp K ?tmp v)
      (seqM (disk_do K ?tmp (DReplace ?tmp p)) (seqM (disk_do K p (DChmod p 384)) (seqM (set_umask u) (ret ()))))))
      (\<lambda>_ w'. ?E w' \<and> cur_umask w' = cur_umask w \<and> map_of (disk_files w') p = Some ?full) (\<lambda>_. ?E) t"
    if "cur_umask t = cur_umask w" "map_of (disk_files t) = ?d(?tmp := x)" "x = None \<or> x = ?d ?tmp" for t x
    unfolding wp_bindM wp_set_umask that(1) by (rule writes) (use that in simp_all)
  moreover have "?E w" by (simp add: saving_def)
  ultimately show ?thesis
    unfolding write_saveconf_def Let_def with_name_temp_cases if_not_P [OF False] lift_def sum.case bindM_ret wp_seqM [of "ignored _ _"]
    by (intro wp_mono [OF unlink_temp]) auto
qed

section \<open>Merging as an update of a map\<close>

text \<open>The saved configuration as the map from the path of a storage object to its entry.\<close>

definition so_view :: "pyval list \<Rightarrow> string \<Rightarrow> pyval option" where
  "so_view xs q = find (\<lambda>v. conf_path v = Inr q) xs"

lemma first_such_Cons:
  assumes "first_such f (x # xs) = Inr r"
  obtains "f x = Inr True" and "r = Some 0"
    | r' where "f x = Inr False" and "first_such f xs = Inr r'" and "map_option Suc r' = r"
  using assms by (cases "f x"; cases "first_such f xs") (auto simp: bindE_def split: if_splits)

lemma first_such_Some:
  "first_such f xs = Inr (Some i) \<Longrightarrow> i < length xs \<and> f (xs ! i) = Inr True \<and> (\<forall>j < i. f (xs ! j) = Inr False)"
proof (induction xs arbitrary: i)
  case (Cons x xs)
  from Cons(2) show ?case
    by (rule first_such_Cons) (use Cons(1) in \<open>auto simp: less_Suc_eq_0_disj\<close>)
qed simp

lemma first_such_None: "first_such f xs = Inr None \<Longrightarrow> x \<in> set xs \<Longrightarrow> f x = Inr False"
proof (induction xs)
  case (Cons y ys)
  from Cons(2) show ?case
    by (rule first_such_Cons) (use Cons in auto)
qed simp

text \<open>Replacing, removing and appending an entry.\<close>

lemma find_update_other: "\<not> P (xs ! i) \<Longrightarrow> \<not> P v \<Longrightarrow> find P (xs[i := v]) = find P xs"
  by (induction xs arbitrary: i) (auto split: nat.splits)

lemma find_update_first: "i < length xs \<Longrightarrow> \<forall>j < i. \<not> P (xs ! j) \<Longrightarrow> P v \<Longrightarrow> find P (xs[i := v]) = Some v"
proof (induction xs arbitrary: i)
  case (Cons x xs)
  then show ?case by (cases i) (auto simp: All_less_Suc2)
qed simp

lemma find_first: "i < length xs \<Longrightarrow> \<forall>j < i. \<not> P (xs ! j) \<Longrightarrow> P (xs ! i) \<Longrightarrow> find P xs = Some (xs ! i)"
  using find_update_first [of i xs P "xs ! i"] by simp

lemma find_remove_other: "\<not> P x \<Longrightarrow> find P (remove1 x xs) = find P xs"
  by (induction xs) auto

lemma find_none: "\<forall>x \<in> set xs. \<not> P x \<Longrightarrow> find P xs = None"
  by (simp add: find_None_iff)

lemma find_append: "find P (xs @ ys) = (case find P xs of Some x \<Rightarrow> Some x | None \<Rightarrow> find P ys)"
  by (induction xs) auto

lemma conf_list_set [simp]: "conf_list (dict_set conf k (PList xs)) k' = (if k' = k then xs else conf_list conf k')"
  by (simp add: conf_list_def)

text \<open>An entry that was found is one of a list.\<close>

lemma first_such_elems:
  assumes "bindE (entries (PDict conf) k) (first_such f) = Inr r"
    and "\<And>s. \<exists>e. f (PStr s) = Inl e"
  shows "first_such f (conf_list conf k) = Inr r"
proof (cases "map_of conf k")
  case None
  then show ?thesis using assms(1) by (simp add: entries_def dict_get_def bindE_def conf_list_def)
next
  case (Some x)
  have strs: "xs = []" if "first_such f (map (\<lambda>c. PStr (g c)) xs) = Inr r" for g :: "'b \<Rightarrow> string" and xs
  proof (cases xs)
    case (Cons y ys)
    obtain e where "f (PStr (g y)) = Inl e" using assms(2) by blast
    with that Cons show ?thesis by (simp add: bindE_def)
  qed simp
  note defs = entries_def dict_get_def bindE_def conf_list_def
  show ?thesis
  proof (cases x)
    case (PStr s)
    with Some assms(1) strs [of "\<lambda>c. [c]" s] show ?thesis by (auto simp: defs)
  next
    case (PDict d)
    have "(\<lambda>(k, _). PStr k) = (\<lambda>c :: string \<times> pyval. PStr (fst c))" by auto
    with PDict Some assms(1) strs [of fst d] show ?thesis by (auto simp: defs)
  qed (use Some assms(1) in \<open>auto simp: entries_def dict_get_def bindE_def conf_list_def\<close>)
qed

lemma find_so_list: "find_so obj conf = Inr r \<Longrightarrow>
    first_such (\<lambda>v. map_sum id (\<lambda>p. p = obj) (conf_path v)) (conf_list conf ''storage_objects'') = Inr r"
  unfolding find_so_def by (erule first_such_elems) (simp add: conf_path_def subscript_def bindE_def)

lemma find_so_view:
  assumes "find_so obj conf = Inr r"
  shows "so_view (conf_list conf ''storage_objects'') obj = map_option (\<lambda>i. conf_list conf ''storage_objects'' ! i) r"
proof -
  let ?xs = "conf_list conf ''storage_objects''" let ?f = "\<lambda>v. map_sum id (\<lambda>p. p = obj) (conf_path v)"
  have f: "?f v = Inr True \<longleftrightarrow> conf_path v = Inr obj" "?f v = Inr False \<Longrightarrow> conf_path v \<noteq> Inr obj" for v
    by (cases "conf_path v"; simp)+
  show ?thesis
  proof (cases r)
    case None
    then show ?thesis using first_such_None [OF find_so_list] assms f(2)
      by (auto simp: so_view_def intro!: find_none)
  next
    case (Some i)
    from first_such_Some [OF find_so_list [OF assms [unfolded Some]]] f Some show ?thesis
      by (auto simp: so_view_def intro!: find_first)
  qed
qed

lemma so_view_replace:
  assumes "find_so obj conf = Inr (Some i)" and "distinct (map conf_path (conf_list conf ''storage_objects''))"
    and "\<And>v. cur = Some v \<Longrightarrow> conf_path v = Inr obj"
  shows "so_view (conf_list (replace_at conf ''storage_objects'' (Some i) cur) ''storage_objects'') =
    (so_view (conf_list conf ''storage_objects''))(obj := cur)"
proof -
  let ?xs = "conf_list conf ''storage_objects''" let ?f = "\<lambda>v. map_sum id (\<lambda>p. p = obj) (conf_path v)"
  have f: "?f v = Inr True \<Longrightarrow> conf_path v = Inr obj" "?f v = Inr False \<Longrightarrow> conf_path v \<noteq> Inr obj" for v
    by (cases "conf_path v"; simp)+
  have i: "i < length ?xs" "conf_path (?xs ! i) = Inr obj" "\<forall>j < i. conf_path (?xs ! j) \<noteq> Inr obj"
    using first_such_Some [OF find_so_list [OF assms(1)]] f by blast+
  show ?thesis
  proof (cases cur)
    case (Some v)
    then have "conf_path v = Inr obj" using assms(3) by simp
    with i have "so_view (?xs[i := v]) q = ((so_view ?xs)(obj := Some v)) q" for q
      by (cases "q = obj") (simp_all add: so_view_def find_update_first find_update_other)
    with Some show ?thesis by (simp add: replace_at_def fun_eq_iff)
  next
    case None
    have "so_view (remove1 (?xs ! i) ?xs) q = ((so_view ?xs)(obj := None)) q" for q
    proof (cases "q = obj")
      case True
      have inj: "distinct ?xs" "inj_on conf_path (set ?xs)" using assms(2) by (simp_all add: distinct_map)
      have "y = ?xs ! i" if "y \<in> set ?xs" "conf_path y = Inr obj" for y
        using inj_onD [OF inj(2), of y "?xs ! i"] that i(1,2) by simp
      with True inj(1) show ?thesis by (auto simp: so_view_def intro!: find_none)
    qed (use i in \<open>simp add: so_view_def find_remove_other\<close>)
    with None show ?thesis by (simp add: replace_at_def fun_eq_iff)
  qed
qed

lemma so_view_insert:
  assumes "insert_new conf ''storage_objects'' None cur = Inr r" and "\<And>v. cur = Some v \<Longrightarrow> conf_path v = Inr obj"
    and "so_view (conf_list conf ''storage_objects'') obj = None"
  shows "so_view (conf_list r ''storage_objects'') = (so_view (conf_list conf ''storage_objects''))(obj := cur)"
proof (cases cur)
  case (Some v)
  with assms(1) have r: "conf_list r ''storage_objects'' = conf_list conf ''storage_objects'' @ [v]"
    by (auto simp: insert_new_def bindE_def subscript_def conf_list_def split: option.splits pyval.splits)
  have "conf_path v = Inr obj" using assms(2) Some by simp
  with Some assms(3) r show ?thesis by (auto simp: so_view_def find_append fun_eq_iff split: option.splits)
qed (use assms(1,3) in \<open>auto simp: insert_new_def\<close>)

lemma insert_new_other: "insert_new conf k i cur = Inr r \<Longrightarrow> k' \<noteq> k \<Longrightarrow> conf_list r k' = conf_list conf k'"
  by (auto simp: insert_new_def bindE_def conf_list_def split: option.splits sum.splits pyval.splits)

lemma replace_at_other: "k' \<noteq> k \<Longrightarrow> conf_list (replace_at conf k i cur) k' = conf_list conf k'"
  by (simp add: replace_at_def split: option.splits)

lemma bindE_Inr: "bindE x f = Inr r \<longleftrightarrow> (\<exists>a. x = Inr a \<and> f a = Inr r)"
  by (simp add: bindE_def split: sum.splits)

section \<open>Properties\<close>

text \<open>
  C15. Merging is an update of one entry. Seen as a map from the path of a storage object to its entry, the result of merging one
  object into a saved configuration with distinct paths is the saved map with the entry of that object set to what the
  current configuration has: updated, added, or removed when the object is gone. Every other storage object is kept.
\<close>

theorem merge_refines_update:
  assumes "merge_saveconf obj current saveconf = Inr r"
    and "distinct (map conf_path (conf_list saveconf ''storage_objects''))"
  shows "so_view (conf_list r ''storage_objects'') =
    (so_view (conf_list saveconf ''storage_objects''))(obj := so_view (conf_list current ''storage_objects'') obj)"
proof -
  from assms(1) obtain ci ct si st r3 where ci: "find_so obj current = Inr ci" and si: "find_so obj saveconf = Inr si"
    and r3: "insert_new (replace_at (replace_at saveconf ''storage_objects'' si (so_view (conf_list current ''storage_objects'') obj))
       ''targets'' st (map_option (\<lambda>i. conf_list current ''targets'' ! i) ct)) ''storage_objects'' si
       (so_view (conf_list current ''storage_objects'') obj) = Inr r3"
    and r: "insert_new r3 ''targets'' st (map_option (\<lambda>i. conf_list current ''targets'' ! i) ct) = Inr r"
    by (auto simp: merge_saveconf_def bindE_Inr Let_def find_so_view)
  let ?cur = "so_view (conf_list current ''storage_objects'') obj"
  have cur: "conf_path v = Inr obj" if "?cur = Some v" for v
    using that by (auto simp: so_view_def find_Some_iff)
  have "conf_list r ''storage_objects'' = conf_list r3 ''storage_objects''" using insert_new_other [OF r] by simp
  moreover have "so_view (conf_list r3 ''storage_objects'') = (so_view (conf_list saveconf ''storage_objects''))(obj := ?cur)"
  proof (cases si)
    case None
    have "so_view (conf_list saveconf ''storage_objects'') obj = None" using find_so_view [OF si] None by simp
    then show ?thesis
      using so_view_insert [OF r3 [unfolded None] cur] by (simp add: replace_at_other) (simp add: replace_at_def)
  next
    case (Some i)
    with r3 have "conf_list r3 ''storage_objects'' = conf_list (replace_at saveconf ''storage_objects'' si ?cur) ''storage_objects''"
      by (auto simp: insert_new_def replace_at_other)
    then show ?thesis using so_view_replace [OF si [unfolded Some] assms(2) cur] Some by simp
  qed
  ultimately show ?thesis by simp
qed

definition demo_so_conf :: "string \<Rightarrow> pyval" where
  "demo_so_conf n = PDict [(''name'', PStr n), (''plugin'', PStr ''fileio'')]"

definition demo_target_conf :: "string list \<Rightarrow> pyval" where
  "demo_target_conf objs = PDict [(''wwn'', PStr ''iqn.x''), (''tpgs'', PList [PDict [(''luns'',
     PList (map (\<lambda>s. PDict [(''storage_object'', PStr s)]) objs))]])]"

definition demo_conf :: "string list \<Rightarrow> pydict" where
  "demo_conf names = [(''storage_objects'', PList (map demo_so_conf names)),
     (''targets'', PList [demo_target_conf (map (\<lambda>n. ''/backstores/fileio/'' @ n) names)])]"

theorem merge_refines_update_witness:
  "\<exists>r. merge_saveconf ''/backstores/fileio/b'' (demo_conf [''b'']) (demo_conf [''a'', ''b'']) = Inr r \<and>
     so_view (conf_list r ''storage_objects'') =
       (so_view (map demo_so_conf [''a'', ''b'']))(''/backstores/fileio/b'' \<mapsto> demo_so_conf ''b'')"
proof -
  have "(case merge_saveconf ''/backstores/fileio/b'' (demo_conf [''b'']) (demo_conf [''a'', ''b'']) of Inr r \<Rightarrow> True | _ \<Rightarrow> False)"
    by code_simp
  then obtain r where r: "merge_saveconf ''/backstores/fileio/b'' (demo_conf [''b'']) (demo_conf [''a'', ''b'']) = Inr r"
    by (auto split: sum.splits)
  moreover have "distinct (map conf_path (conf_list (demo_conf [''a'', ''b'']) ''storage_objects''))" by code_simp
  moreover have "conf_list (demo_conf [''a'', ''b'']) ''storage_objects'' = map demo_so_conf [''a'', ''b'']" by code_simp
  moreover have "so_view (conf_list (demo_conf [''b'']) ''storage_objects'') ''/backstores/fileio/b'' = Some (demo_so_conf ''b'')" by code_simp
  ultimately show ?thesis using merge_refines_update [OF r] by auto
qed

text \<open>
  A new object duplicates its target. When the object is not yet in the saved configuration and the current configuration
  exports it through a target, merging appends that target to the saved ones without looking whether it is there
  already: a target that was saved with its other LUNs is then in the file twice.
\<close>

theorem merge_appends_target:
  assumes "merge_saveconf obj current saveconf = Inr r" and "find_so obj saveconf = Inr None"
    and "find_so obj current = Inr (Some i)" and "find_target obj current = Inr (Some j)"
  shows "conf_list r ''targets'' = conf_list saveconf ''targets'' @ [conf_list current ''targets'' ! j]"
proof -
  from assms obtain r3 where r3: "insert_new saveconf ''storage_objects'' None (Some (conf_list current ''storage_objects'' ! i)) = Inr r3"
    and r: "insert_new r3 ''targets'' None (Some (conf_list current ''targets'' ! j)) = Inr r"
    by (auto simp: merge_saveconf_def bindE_Inr Let_def replace_at_def)
  from r have "conf_list r ''targets'' = conf_list r3 ''targets'' @ [conf_list current ''targets'' ! j]"
    by (auto simp: insert_new_def bindE_def subscript_def conf_list_def split: option.splits pyval.splits)
  with insert_new_other [OF r3] show ?thesis by simp
qed

theorem merge_appends_target_witness:
  "\<exists>r. merge_saveconf ''/backstores/fileio/b'' (demo_conf [''b'', ''a'']) (demo_conf [''a'']) = Inr r \<and>
     conf_list r ''targets'' = [demo_target_conf [''/backstores/fileio/a''],
       demo_target_conf [''/backstores/fileio/b'', ''/backstores/fileio/a'']]"
proof -
  let ?m = "merge_saveconf ''/backstores/fileio/b'' (demo_conf [''b'', ''a'']) (demo_conf [''a''])"
  have "(case ?m of Inr r \<Rightarrow> True | _ \<Rightarrow> False)" by code_simp
  then obtain r where r: "?m = Inr r" by (auto split: sum.splits)
  have found: "find_so ''/backstores/fileio/b'' (demo_conf [''a'']) = Inr None"
    "find_so ''/backstores/fileio/b'' (demo_conf [''b'', ''a'']) = Inr (Some 0)"
    "find_target ''/backstores/fileio/b'' (demo_conf [''b'', ''a'']) = Inr (Some 0)" by code_simp+
  have "conf_list (demo_conf [''a'']) ''targets'' @ [conf_list (demo_conf [''b'', ''a'']) ''targets'' ! 0] =
      [demo_target_conf [''/backstores/fileio/a''], demo_target_conf [''/backstores/fileio/b'', ''/backstores/fileio/a'']]"
    by code_simp
  with merge_appends_target [OF r found] r show ?thesis by simp
qed

text \<open>
  C3. The saved file is never torn. Whatever operation on the files fails, and so at whatever point the machine stops, the
  file under the save name is the one of before or one of which a crash can leave nothing but the complete new
  text; besides that name and the temporary one, no file changes.
\<close>

theorem save_crash_safe:
  "case write_saveconf K p saveconf w of (r, w') \<Rightarrow>
     (map_of (disk_files w') p = map_of (disk_files w) p \<or>
      (\<exists>f. map_of (disk_files w') p = Some f \<and> {c. survives f c} = {json_dump saveconf @ [CHR 0x0A]})) \<and>
     (\<forall>q. q = p \<or> q = temp_of p \<or> map_of (disk_files w') q = map_of (disk_files w) q)"
proof -
  obtain r w' where run: "write_saveconf K p saveconf w = (r, w')" by (cases "write_saveconf K p saveconf w")
  have "saving p (json_dump saveconf @ [CHR 0x0A]) (disk_files w) (disk_files w')"
    using write_saveconf_saving [of K p saveconf w] run by (cases r) (auto simp: wp_def)
  with run survives_synced [of "\<lparr>df_mode = 384, df_content = json_dump saveconf @ [CHR 0x0A], df_durable = json_dump saveconf @ [CHR 0x0A]\<rparr>"]
  show ?thesis by (auto simp: saving_def)
qed

text \<open>
  C27. The configuration stays private. In every outcome of a save, a file that is not one of the files of before can be read and
  written by its owner only: the temporary file is made under a mask that leaves no other bit.
\<close>

theorem save_private:
  "case write_saveconf K p saveconf w of (r, w') \<Rightarrow>
     \<forall>q. map_of (disk_files w') q \<in> {None, map_of (disk_files w) q} \<or> df_mode (the (map_of (disk_files w') q)) = 384"
proof -
  obtain r w' where run: "write_saveconf K p saveconf w = (r, w')" by (cases "write_saveconf K p saveconf w")
  have "saving p (json_dump saveconf @ [CHR 0x0A]) (disk_files w) (disk_files w')"
    using write_saveconf_saving [of K p saveconf w] run by (cases r) (auto simp: wp_def)
  with run show ?thesis by (auto simp: saving_def)
qed

text \<open>The file of a save that returned, read back.\<close>

lemma write_loads_back:
  assumes "dict_keys_once saveconf"
  shows "wp (write_saveconf K p saveconf)
    (\<lambda>_ w'. cur_umask w' = cur_umask w \<and> (\<exists>f. map_of (disk_files w') p = Some f \<and> df_mode f = 384 \<and>
       df_durable f = df_content f \<and> json_loads (df_content f) = Inr (sort_keys saveconf)))
    (\<lambda>_ _. True) w"
proof -
  have "json_loads (json_dump saveconf @ [CHR 0x0A]) = Inr (sort_keys saveconf)"
    by (rule json_loads_dump [OF assms]) (simp_all add: json_ws_def json_end_def)
  then show ?thesis by (intro wp_mono [OF write_saveconf_saving]) auto
qed

text \<open>
  A failed save leaves the mask behind. When the temporary file cannot be created, the save raises \<^verbatim>\<open>RuntimeError\<close>, no file has changed,
  and the process goes on with the restrictive mask instead of its own.
\<close>

theorem save_failure_umask:
  assumes "p \<noteq> []" and "map_of (disk_files w) (temp_of p) = None"
    and "k_disk_fault K (disk_files w) (DUnlink (temp_of p)) = None"
    and "k_disk_fault K (disk_files w) (DCreate (temp_of p) 384) = Some e"
  shows "write_saveconf K p saveconf w = (Err (RuntimeErr (''Could not open '' @ path_str (temp_of p))), w\<lparr>cur_umask := 127\<rparr>)"
  using assms
  by (simp add: run_eq_Err write_saveconf_def write_temp_def with_name_temp_cases wp wp_ignored Let_def masks is_enoent_def)

theorem save_failure_umask_witness:
  "write_saveconf (lio\<lparr>k_disk_fault := \<lambda>d op. case op of DCreate _ _ \<Rightarrow> Some EACCES | _ \<Rightarrow> None\<rparr>) [''f''] (PDict []) world0 =
     (Err (RuntimeErr ''Could not open /f.temp''), world0\<lparr>cur_umask := 127\<rparr>)"
proof -
  have "path_str (temp_of [''f'']) = ''/f.temp''" "disk_files world0 = []" by code_simp+
  with save_failure_umask [of "[''f'']" world0 "lio\<lparr>k_disk_fault := \<lambda>d op. case op of DCreate _ _ \<Rightarrow> Some EACCES | _ \<Rightarrow> None\<rparr>" EACCES "PDict []"]
  show ?thesis by simp
qed

text \<open>Restoring from a file, and saving one object, enter a method that was not called.\<close>

lemma restore_from_file_raises:
  "restore_from_file K file clear tgt so abort w = (Err (TypeErr ''method object does not support the context manager protocol''), w)"
  by (simp add: restore_from_file_def with_unopened_def raise_def)

lemma save_one_raises:
  assumes "obj \<noteq> []"
  shows "wp (save_to_file K file obj) (\<lambda>_ _. False) (\<lambda>_ _. True) w"
proof -
  have never: "wp (get_saveconf K obj p) (\<lambda>_ _. False) (\<lambda>_ _. True) w" for p
    unfolding get_saveconf_def read_saveconf_def with_unopened_def
    by (rule wp_bind_any) (simp add: wp is_enoent_def)
  show ?thesis
    unfolding save_to_file_def Let_def if_P [OF assms] by (rule wp_bindI [OF never]) simp
qed



text \<open>
  C36. A save that is not refused returns. When the operating system refuses none of the file operations, a save of any configuration
  under any file name returns, whatever an interrupted save before it has left behind.
\<close>

theorem save_returns:
  assumes "p \<noteq> []" and "\<And>d op. k_disk_fault K d op = None"
  shows "\<exists>w'. write_saveconf K p saveconf w = (Ok (), w')"
proof -
  let ?tmp = "temp_of p"
  have fresh: "wp (bindM (set_umask 127) (\<lambda>u. seqM (write_temp K ?tmp saveconf) (seqM (disk_do K ?tmp (DReplace ?tmp p))
      (seqM (disk_do K p (DChmod p 384)) (seqM (set_umask u) (ret ())))))) (\<lambda>_ _. True) (\<lambda>_ _. False) s"
    if "map_of (disk_files s) ?tmp = None" for s
    using that by (simp add: wp write_temp_def assms(2))
  have "wp (write_saveconf K p saveconf) (\<lambda>_ _. True) (\<lambda>_ _. False) w"
    unfolding write_saveconf_def Let_def with_name_temp_cases if_not_P [OF assms(1)] lift_def sum.case bindM_ret masks
      wp_seqM [of "ignored _ _"] wp_ignored wp_disk_do assms(2) option.case
    by (cases "map_of (disk_files w) ?tmp") (simp_all add: fresh is_enoent_def)
  then show ?thesis by (auto simp: wp_def split: prod.splits res.splits)
qed

theorem save_returns_witness:
  "\<exists>w'. write_saveconf lio (comps default_save_file) (PDict []) (world0\<lparr>disk_files := [(temp_of (comps default_save_file),
       \<lparr>df_mode = 420, df_content = ''torn'', df_durable = []\<rparr>)]\<rparr>) = (Ok (), w')"
proof (rule save_returns)
  show "comps default_save_file \<noteq> []" by code_simp
  show "k_disk_fault lio d op = None" for d op by (simp add: lio_def)
qed

end
