(* ===== verification/Dumps.thy ===== *)
theory Dumps
  imports Save
begin

text \<open>
  The form of a dump. Every listing of the library is a generator whose loop keeps what its body keeps (the locale
  \<open>listing\<close>, interpreted for each of them), and from that every \<^verbatim>\<open>dump\<close>, from a configfs node up to the root, is shown to
  give dictionaries that have each key once, so that what is written to the configuration file is what the
  dump was.
\<close>

section \<open>Listings\<close>

locale listing =
  fixes g :: "(world, 'a, 'b list) gen"
  assumes keeps_acc: "keeps I body \<Longrightarrow> I c \<Longrightarrow> yields (\<lambda>r. I (ctl_val r)) (g body c)"
begin

lemma collect_all:
  assumes "\<And>x. yields P (f x)"
  shows "yields (\<lambda>ys. \<forall>y \<in> set ys. P y) (collect g f)"
proof -
  have "keeps (\<lambda>ys. \<forall>y \<in> set ys. P y) (\<lambda>x acc. bindM (f x) (\<lambda>y. ret (Next (acc @ [y]))))"
    unfolding keeps_def by (intro allI impI yields_bindM_on [OF assms] yields_ret) auto
  from keeps_acc [OF this, of "[]"] show ?thesis
    unfolding collect_def by (rule yields_bindM_on [OF _ yields_ret]) simp_all
qed

end

lemmas keeps_loop = yields_bindM yields_seqM yields_if yields_ret iter_keeps

lemma keeps_body: "keeps I body \<Longrightarrow> I c \<Longrightarrow> yields (\<lambda>r. I (ctl_val r)) (body x c)"
  by (simp add: keeps_def)

lemma iterdir_keeps: "keeps I body \<Longrightarrow> I c \<Longrightarrow> yields (\<lambda>r. I (ctl_val r)) (iterdir p body c)"
  unfolding iterdir_def by (intro yields_bindM iter_keeps)

lemma glob_prefix_keeps: "keeps I body \<Longrightarrow> I c \<Longrightarrow> yields (\<lambda>r. I (ctl_val r)) (glob_prefix p pre body c)"
  unfolding glob_prefix_def by (intro yields_bindM iter_keeps)

interpretation so_listing: listing "root_storage_objects K" for K
  by unfold_locales (auto simp: root_storage_objects_def keeps_def intro!: yields_seqM so_all_keeps)

interpretation lun_listing: listing "list_luns K t" for K t
  by unfold_locales (rule list_luns_keeps)

interpretation alua_listing: listing "list_alua_tpgs K so" for K so
  by unfold_locales (auto simp: list_alua_tpgs_def keeps_def intro!: keeps_loop iterdir_keeps)

interpretation mapped_lun_listing: listing "na_list_mapped_luns K na" for K na
  by unfold_locales (auto simp: na_list_mapped_luns_def keeps_def intro!: keeps_loop glob_prefix_keeps)

interpretation portal_listing: listing "list_network_portals K t" for K t
  by unfold_locales (auto simp: list_network_portals_def keeps_def intro!: keeps_loop iterdir_keeps split: prod.splits)

interpretation acl_listing: listing "list_node_acls K t" for K t
  by unfold_locales (auto simp: list_node_acls_def keeps_def intro!: keeps_loop iterdir_keeps)

interpretation tpg_listing: listing "list_tpgs K t" for K t
  by unfold_locales (auto simp: list_tpgs_def keeps_def intro!: keeps_loop glob_prefix_keeps)

interpretation fabric_listing: listing "list_fabric_modules"
  by unfold_locales (auto simp: list_fabric_modules_def intro!: keeps_loop)

lemma fm_list_targets_keeps: "keeps I body \<Longrightarrow> I c \<Longrightarrow> yields (\<lambda>r. I (ctl_val r)) (fm_list_targets K fm body c)"
  unfolding fm_list_targets_def by (auto simp: keeps_def intro!: keeps_loop iterdir_keeps)

interpretation target_listing: listing "root_targets K" for K
  by unfold_locales (auto simp: root_targets_def list_fabric_modules_def keeps_def intro!: keeps_loop fm_list_targets_keeps)

section \<open>Dictionaries with known keys\<close>

definition form :: "string set \<Rightarrow> pydict \<Rightarrow> bool" where
  "form A d = (dict_keys_once (PDict d) \<and> fst ` set d \<subseteq> A)"

lemma form_append: "form A d \<Longrightarrow> form B e \<Longrightarrow> A \<inter> B = {} \<Longrightarrow> form (A \<union> B) (d @ e)"
proof -
  assume d: "form A d" "form B e" "A \<inter> B = {}"
  then have "fst ` set d \<inter> fst ` set e = {}" unfolding form_def by blast
  with d show ?thesis by (auto simp: form_def)
qed

lemma form_once: "form A d \<Longrightarrow> dict_keys_once (PDict d)"
  by (simp add: form_def)

lemma collect_keys:
  assumes "\<And>x. yields (\<lambda>y. fst y = x \<and> dict_keys_once (snd y)) (f x)" and "distinct xs"
  shows "yields (form (set xs)) (collect (iter xs) f)"
proof -
  let ?I = "\<lambda>pre c. map fst c = pre \<and> (\<forall>(k, v) \<in> set c. dict_keys_once v)"
  have "wp (iter xs (\<lambda>x acc. bindM (f x) (\<lambda>y. ret (Next (acc @ [y])))) []) (\<lambda>r _. ?I xs (ctl_val r)) (\<lambda>_ _. True) s" for s
  proof (rule wp_iter_visited [where I = "\<lambda>pre c _. ?I pre c"])
    fix pre x and c :: pydict and t :: 'a assume "?I pre c"
    then show "wp (bindM (f x) (\<lambda>y. ret (Next (c @ [y]))))
        (\<lambda>r s'. case r of Next c' \<Rightarrow> ?I (pre @ [x]) c' | Break c' \<Rightarrow> ?I xs (ctl_val (Break c'))) (\<lambda>_ _. True) t"
      unfolding wp_bindM wp_ret by (intro wp_mono [OF wp_yields [OF assms(1)]]) auto
  qed simp_all
  then have "yields (\<lambda>r. ?I xs (ctl_val r)) (iter xs (\<lambda>x acc. bindM (f x) (\<lambda>y. ret (Next (acc @ [y])))) [])"
    by (simp add: yields_def)
  then show ?thesis
    unfolding collect_def by (rule yields_bindM_on) (use assms(2) in \<open>auto intro!: yields_ret simp: form_def simp flip: set_map\<close>)
qed

section \<open>The dumps\<close>

lemma list_files_distinct: "yields distinct (list_files p writable readable)"
  by (simp add: yields_def list_files_def wp Let_def)

lemma node_dump_form: "yields (form {''attributes'', ''parameters''}) (node_dump cls p)"
proof -
  have attrs: "yields (\<lambda>d. dict_keys_once (PDict d)) (bindM (list_attributes cls p (Some True) (Some True)) (\<lambda>items.
       collect (iter items) (\<lambda>item. bindM (get_attribute cls p item) (\<lambda>s. case py_int s of
             Some n \<Rightarrow> ret (item, PInt n) | None \<Rightarrow> bindM (get_attribute cls p item) (\<lambda>s'. ret (item, PStr s'))))))"
    unfolding list_attributes_def
    by (intro yields_bindM_on [OF yields_seqM [OF list_files_distinct]] yields_mono [OF collect_keys form_once] yields_bindM)
      (auto intro!: yields_ret yields_bindM split: option.splits)
  have params: "yields (\<lambda>d. dict_keys_once (PDict d)) (bindM (list_parameters cls p (Some True) (Some True)) (\<lambda>items.
       collect (iter items) (\<lambda>item. bindM (get_parameter cls p item) (\<lambda>s. ret (item, PStr s)))))"
    unfolding list_parameters_def
    by (intro yields_bindM_on [OF yields_seqM [OF list_files_distinct]] yields_mono [OF collect_keys form_once] yields_bindM)
      (auto intro!: yields_ret yields_bindM)
  show ?thesis
    unfolding node_dump_def
    by (intro yields_bindM_on [OF attrs] yields_bindM_on [OF params] yields_ret) (simp add: form_def)
qed

text \<open>A dump that extends the one of its node by values it reads.\<close>

lemma extends_form:
  assumes "yields (form A) m" and "\<And>d. yields (\<lambda>r. \<exists>e. r = d @ e \<and> form B e) (f d)" and "A \<inter> B = {}"
  shows "yields (form (A \<union> B)) (bindM m f)"
  by (rule yields_bindM_on [OF assms(1)], rule yields_mono [OF assms(2)]) (use assms(3) in \<open>auto intro: form_append\<close>)

abbreviation once :: "pyval \<Rightarrow> bool" where
  "once \<equiv> dict_keys_once"

lemma collect_dumps:
  assumes "\<And>x. yields (form A) (dump x)"
  shows "yields once (bindM (dump x) (\<lambda>d. ret (PDict d)))"
  by (rule yields_bindM_on [OF assms yields_ret]) (simp add: form_def)

lemma Alua_dump_form:
  "yields (form ({''attributes'', ''parameters''} \<union> ({''name'', ''tg_pt_gp_id''} \<union> set alua_rw_params))) (Alua_dump a)"
proof -
  have "yields (form (set alua_rw_params)) (collect (iter alua_rw_params) (\<lambda>param.
       bindM (the_or (AttributeErr param) (map_of at_getters param)) (\<lambda>get. bindM (get a) (\<lambda>n. ret (param, PInt n)))))"
    by (rule collect_keys) (auto intro!: yields_bindM yields_ret simp: alua_rw_params_def)
  then show ?thesis
    unfolding Alua_dump_def
    by (intro extends_form [OF node_dump_form] yields_bindM yields_bindM_on [of "form (set alua_rw_params)"] yields_ret)
      (auto simp: alua_rw_params_def intro!: exI form_append [of "{''name'', ''tg_pt_gp_id''}"] simp: form_def)
qed


lemma once_opt_val [simp]: "once (opt_val v)"
  by (simp add: opt_val_def split: option.splits)

lemma once_list: "\<forall>y \<in> set ys. once y \<Longrightarrow> once (PList ys)"
  by simp

lemma so_base_dump_form:
  "yields (form ({''attributes'', ''parameters''} \<union> {''name'', ''plugin'', ''alua_tpgs''})) (so_base_dump K so)"
  unfolding so_base_dump_def
  by (intro extends_form [OF node_dump_form] yields_bindM_on [OF alua_listing.collect_all [OF collect_dumps [OF Alua_dump_form]]] yields_ret)
    (auto simp: form_def)

definition so_dump_keys :: "string set" where
  "so_dump_keys = {''attributes'', ''parameters''} \<union> {''name'', ''plugin'', ''alua_tpgs''} \<union> {''wwn'', ''dev'', ''size'', ''write_back'', ''aio'',
     ''readonly'', ''nullio'', ''config'', ''hw_max_sectors'', ''control''}"

lemma so_dump_form: "yields (form so_dump_keys) (so_dump K so)"
proof -
  note extend = extends_form [OF so_base_dump_form [of K so], where B = "{''wwn'', ''dev'', ''size'', ''write_back'', ''aio'',
     ''readonly'', ''nullio'', ''config'', ''hw_max_sectors'', ''control''}", folded so_dump_keys_def]
  have "yields (form so_dump_keys) (pscsi_dump K so)"
    unfolding pscsi_dump_def by (intro extend yields_bindM yields_ret) (auto simp: form_def)
  moreover have "yields (form so_dump_keys) (rdmcp_dump K so)"
    unfolding rdmcp_dump_def by (intro extend yields_bindM yields_ret) (auto simp: form_def nullio_entry_def)
  moreover have "yields (form so_dump_keys) (fileio_dump K so)"
    unfolding fileio_dump_def by (intro extend yields_bindM yields_ret) (auto simp: form_def)
  moreover have "yields (form so_dump_keys) (block_dump K so)"
    unfolding block_dump_def by (intro extend yields_bindM yields_ret) (auto simp: form_def)
  moreover have "yields (form so_dump_keys) (user_dump K so)"
    unfolding user_dump_def by (intro extend yields_bindM yields_ret) (auto simp: form_def)
  ultimately show ?thesis by (simp add: so_dump_def split: so_class.splits)
qed

definition chap_keys :: "string set" where
  "chap_keys = {''chap_userid'', ''chap_password'', ''chap_mutual_userid'', ''chap_mutual_password''}"

lemma dump_chap_form: "yields (form chap_keys) (dump_chap get)"
proof -
  have "dump_chap get = bindM (get ''auth/userid'') (\<lambda>a. bindM (get ''auth/password'') (\<lambda>b. bindM (get ''auth/userid_mutual'') (\<lambda>c.
      bindM (get ''auth/password_mutual'') (\<lambda>d. ret (dump_attr ''chap_userid'' a @ dump_attr ''chap_password'' b @
        dump_attr ''chap_mutual_userid'' c @ dump_attr ''chap_mutual_password'' d)))))"
    by (auto simp: dump_chap_def collect_def auth_params_def chap_file_def bindM_def ret_def fun_eq_iff split: prod.splits res.splits)
  then show ?thesis
    by (auto simp: form_def chap_keys_def dump_attr_def intro!: yields_bindM yields_ret split: option.splits)
qed


lemma MappedLUN_dump_form: "\<exists>A. \<forall>ml. yields (form A) (MappedLUN_dump K ml)"
proof (intro exI allI)
  show "yields (form ({''attributes'', ''parameters''} \<union> {''write_protect'', ''index'', ''tpg_lun'', ''alias''})) (MappedLUN_dump K ml)" for ml
    unfolding MappedLUN_dump_def by (intro extends_form [OF node_dump_form] yields_bindM yields_ret) (auto simp: form_def)
qed

lemma NetworkPortal_dump_once: "yields once (bindM (NetworkPortal_dump np) (\<lambda>x. ret (PDict x)))"
proof -
  have "yields (form ({''attributes'', ''parameters''} \<union> {''port'', ''ip_address'', ''iser'', ''offload''})) (NetworkPortal_dump np)" for np
    unfolding NetworkPortal_dump_def by (intro extends_form [OF node_dump_form] yields_bindM yields_ret) (auto simp: form_def)
  then show ?thesis by (rule collect_dumps)
qed

lemma LUN_dump_once: "yields once (bindM (LUN_dump K l) (\<lambda>x. ret (PDict x)))"
proof -
  have "yields (form ({''attributes'', ''parameters''} \<union> {''storage_object'', ''index'', ''alias'', ''alua_tg_pt_gp_name''})) (LUN_dump K l)" for l
    unfolding LUN_dump_def by (intro extends_form [OF node_dump_form] yields_bindM yields_ret) (auto simp: form_def)
  then show ?thesis by (rule collect_dumps)
qed

lemma MappedLUN_dump_once: "yields once (bindM (MappedLUN_dump K ml) (\<lambda>x. ret (PDict x)))"
  using MappedLUN_dump_form [of K] by (blast intro: collect_dumps)

lemma NodeACL_dump_once: "yields once (bindM (NodeACL_dump K na) (\<lambda>x. ret (PDict x)))"
proof -
  have tag: "yields (form {''tag''}) (if b then bindM (get_tag na) (\<lambda>t. ret [(''tag'', opt_val t)]) else ret [])" for b na
    by (auto simp: form_def intro!: yields_bindM yields_ret)
  have chap: "yields (form chap_keys) (if na_has_feature na ''auth'' then dump_chap (na_get_auth na) else ret [])" for na
    by (auto simp: form_def intro!: yields_ret dump_chap_form)
  have "yields (form ({''attributes'', ''parameters''} \<union> ({''node_wwn'', ''mapped_luns''} \<union> ({''tag''} \<union> chap_keys)))) (NodeACL_dump K na)" for na
    unfolding NodeACL_dump_def
  proof (rule extends_form [OF node_dump_form])
    show "yields (\<lambda>r. \<exists>e. r = d @ e \<and> form ({''node_wwn'', ''mapped_luns''} \<union> ({''tag''} \<union> chap_keys)) e)
       (bindM (collect (na_list_mapped_luns K na) (\<lambda>ml. bindM (MappedLUN_dump K ml) (\<lambda>x. ret (PDict x)))) (\<lambda>mls.
        bindM (get_tag na) (\<lambda>tag.
        bindM (if tag \<noteq> None \<and> tag \<noteq> Some '''' then bindM (get_tag na) (\<lambda>t. ret [(''tag'', opt_val t)]) else ret []) (\<lambda>t.
        bindM (if na_has_feature na ''auth'' then dump_chap (na_get_auth na) else ret []) (\<lambda>chap.
          ret (d @ [(''node_wwn'', PStr (na_wwn na)), (''mapped_luns'', PList mls)] @ t @ chap))))))" for d
    proof (rule yields_bindM_on [OF mapped_lun_listing.collect_all [OF MappedLUN_dump_once]], rule yields_bindM, rule yields_bindM_on [OF tag],
        rule yields_bindM_on [OF chap], rule yields_ret, rule exI, rule conjI, rule refl)
      fix mls t c assume "\<forall>y \<in> set mls. once y" "form {''tag''} t" "form chap_keys c"
      then show "form ({''node_wwn'', ''mapped_luns''} \<union> ({''tag''} \<union> chap_keys)) ([(''node_wwn'', PStr (na_wwn na)), (''mapped_luns'', PList mls)] @ t @ c)"
        by (intro form_append) (auto simp: form_def chap_keys_def)
    qed
  qed (auto simp: chap_keys_def)
  then show ?thesis by (rule collect_dumps)
qed

lemma TPG_dump_once: "yields once (bindM (TPG_dump K g) (\<lambda>x. ret (PDict x)))"
proof -
  have chap: "yields (form chap_keys) (if tpg_has_feature g ''auth'' then dump_chap (tpg_get_auth g) else ret [])" for g
    by (auto simp: form_def intro!: yields_ret dump_chap_form)
  let ?own = "{''tag'', ''enable'', ''luns'', ''portals'', ''node_acls''}"
  have "yields (form ({''attributes'', ''parameters''} \<union> (?own \<union> chap_keys))) (TPG_dump K g)" for g
    unfolding TPG_dump_def
  proof (rule extends_form [OF node_dump_form], rule yields_bindM, rule yields_bindM_on [OF lun_listing.collect_all [OF LUN_dump_once]],
      rule yields_bindM_on [OF portal_listing.collect_all [OF NetworkPortal_dump_once]],
      rule yields_bindM_on [OF acl_listing.collect_all [OF NodeACL_dump_once]], rule yields_bindM_on [OF chap], rule yields_ret, rule exI, rule conjI, rule refl)
    fix d :: pydict and en luns nps acls c
    assume "\<forall>y \<in> set luns. once y" "\<forall>y \<in> set nps. once y" "\<forall>y \<in> set acls. once y" "form chap_keys c"
    then show "form (?own \<union> chap_keys) ([(''tag'', PInt (tpg_tag g)), (''enable'', PBool en), (''luns'', PList luns),
                 (''portals'', PList nps), (''node_acls'', PList acls)] @ c)"
      by (intro form_append) (auto simp: form_def chap_keys_def)
  qed (auto simp: chap_keys_def)
  then show ?thesis by (rule collect_dumps)
qed


lemma Target_dump_once: "yields once (bindM (Target_dump K t) (\<lambda>x. ret (PDict x)))"
proof -
  have "yields (form ({''attributes'', ''parameters''} \<union> {''wwn'', ''fabric'', ''tpgs''})) (Target_dump K t)" for t
    unfolding Target_dump_def
    by (rule extends_form [OF node_dump_form], rule yields_bindM_on [OF tpg_listing.collect_all [OF TPG_dump_once]], rule yields_ret)
      (auto simp: form_def)
  then show ?thesis by (rule collect_dumps)
qed

lemma fm_dump_once: "yields once (bindM (fm_dump K fm) (\<lambda>x. ret (PDict x)))"
proof -
  let ?own = "{''name'', ''discovery_userid'', ''discovery_password'', ''discovery_mutual_userid'', ''discovery_mutual_password'',
    ''discovery_enable_auth''}"
  have "yields (form ({''attributes'', ''parameters''} \<union> ?own)) (fm_dump K fm)" for fm
    unfolding fm_dump_def
    by (intro yields_seqM extends_form [OF node_dump_form] yields_if yields_bindM yields_ret)
      (auto simp: form_def dump_attr_def split: option.splits)
  then show ?thesis by (rule collect_dumps)
qed

text \<open>The dump of the whole configuration.\<close>

lemma root_dump_once: "yields (\<lambda>d. once (PDict d)) (root_dump K)"
proof -
  have fms: "yields (\<lambda>ys. \<forall>y \<in> set ys. once y)
      (if fm_has_feature f ''discovery_auth''
       then bindM (get_discovery_enable_auth K f) (\<lambda>en. if en then bindM (fm_dump K f) (\<lambda>x. ret [PDict x]) else ret [])
       else ret [])" for f
  proof -
    have "yields once (bindM (fm_dump K f) (\<lambda>x. ret (PDict x)))" by (rule fm_dump_once)
    then have "yields (\<lambda>ys. \<forall>y \<in> set ys. once y) (bindM (fm_dump K f) (\<lambda>x. ret [PDict x]))"
      by (simp add: yields_def wp_bindM wp_ret [abs_def])
    then show ?thesis by (auto intro!: yields_bindM yields_ret)
  qed
  show ?thesis
    unfolding root_dump_def
  proof (rule yields_mono [OF extends_form [OF node_dump_form, where B = "{''storage_objects'', ''targets'', ''fabric_modules''}"] form_once])
    show "yields (\<lambda>r. \<exists>e. r = d @ e \<and> form {''storage_objects'', ''targets'', ''fabric_modules''} e)
      (bindM (collect (root_storage_objects K) (\<lambda>so. bindM (so_dump K so) (\<lambda>x. ret (PDict x)))) (\<lambda>sos.
       bindM (collect (root_targets K) (\<lambda>t. bindM (Target_dump K t) (\<lambda>x. ret (PDict x)))) (\<lambda>tgs.
       bindM (collect list_fabric_modules (\<lambda>f.
         if fm_has_feature f ''discovery_auth''
         then bindM (get_discovery_enable_auth K f) (\<lambda>en. if en then bindM (fm_dump K f) (\<lambda>x. ret [PDict x]) else ret [])
         else ret [])) (\<lambda>fms.
       ret (d @ [(''storage_objects'', PList sos), (''targets'', PList tgs), (''fabric_modules'', PList (concat fms))])))))" for d
      by (rule yields_bindM_on [OF so_listing.collect_all [OF collect_dumps [OF so_dump_form]]],
          rule yields_bindM_on [OF target_listing.collect_all [OF Target_dump_once]],
          rule yields_bindM_on [OF fabric_listing.collect_all [OF fms]], rule yields_ret) (auto simp: form_def)
  qed simp
qed

end
