(* ===== verification/Targetctl.thy ===== *)
theory Targetctl
  imports Dumps
begin

text \<open>
  \<^verbatim>\<open>scripts/targetctl\<close>, the command that systemd runs to restore the configuration at boot and to clear it at
  shutdown. A run of it ends with an exit status and what it printed, or with an uncaught exception. \<^verbatim>\<open>expanduser\<close>,
  which depends on the environment of the process, and the effective user are arguments.
\<close>

type_synonym exit = "int \<times> string list"

definition usage :: "string \<Rightarrow> exit" where
  "usage argv0 = (-1, [''syntax: '' @ argv0 @ '' save [file_to_save_to]'', ''        '' @ argv0 @ '' restore [file_to_restore_from]'',
     ''        '' @ argv0 @ '' clear'', ''default file is: '' @ default_save_file])"

definition ctl_save :: "env \<Rightarrow> string \<Rightarrow> exit W" where
  "ctl_save K to_file = seqM (RTSRoot_init K) (seqM (save_to_file K to_file '''') (ret (0, [])))"

definition ctl_restore :: "env \<Rightarrow> string \<Rightarrow> exit W" where
  "ctl_restore K from_file =
     try_else (seqM (RTSRoot_init K) (restore_from_file K from_file True '''' '''' False))
       (\<lambda>e. if is_oserror e then ret (0, [''No saved config file at '' @ from_file @ '', ok, exiting'']) else raise e)
       (\<lambda>errors. ret (0, errors))"

definition ctl_clear :: "env \<Rightarrow> exit W" where
  "ctl_clear K = seqM (RTSRoot_init K) (seqM (clear_existing K '''' '''' True) (ret (0, [])))"

text \<open>An empty argument is the current directory as a path.\<close>

definition ctl_main :: "env \<Rightarrow> nat \<Rightarrow> (string \<Rightarrow> exn + string) \<Rightarrow> string list \<Rightarrow> exit W" where
  "ctl_main K euid expanduser argv =
     (if euid \<noteq> 0 then ret (-1, [''Must run as root''])
      else if length argv < 2 \<or> length argv > 3 then ret (usage (hd argv))
      else if argv ! 1 = ''--help'' then ret (usage (hd argv))
      else if argv ! 1 \<notin> {''save'', ''restore'', ''clear''} then ret (usage (hd argv))
      else bindM (if length argv = 3 then lift (expanduser (if argv ! 2 = '''' then ''.'' else argv ! 2)) else ret default_save_file) (\<lambda>savefile.
        if argv ! 1 = ''save'' then ctl_save K savefile
        else if argv ! 1 = ''restore'' then ctl_restore K savefile
        else ctl_clear K))"

text \<open>
  C39. Nothing is restored from a file. Restoring from a file raises whatever the file holds and changes nothing; the restore command
  therefore ends in that exception as soon as the root object was made; and a save of a single storage object,
  as \<^verbatim>\<open>delete(save=True)\<close> asks for, never returns. Each enters a method that was not called.
\<close>

theorem restore_command_fails:
  assumes "RTSRoot_init K w = (Ok r, w1)" and "obj \<noteq> []"
  shows "ctl_main K 0 expanduser [argv0, ''restore''] w = (Err (TypeErr ''method object does not support the context manager protocol''), w1) \<and>
    restore_from_file K file clear tgt so abort w = (Err (TypeErr ''method object does not support the context manager protocol''), w) \<and>
    wp (save_to_file K file obj) (\<lambda>_ _. False) (\<lambda>_ _. True) w"
  using assms(1) save_one_raises [OF assms(2)] restore_from_file_raises
  by (simp add: ctl_main_def ctl_restore_def try_else_def seqM_def bindM_def raise_def ret_def)

theorem restore_command_fails_witness:
  "\<exists>w1. ctl_main (lio\<lparr>k_is_mount := \<lambda>_ _. True\<rparr>) 0 Inr [''targetctl'', ''restore''] world0 =
     (Err (TypeErr ''method object does not support the context manager protocol''), w1)"
proof -
  let ?K = "lio\<lparr>k_is_mount := \<lambda>_ _. True\<rparr>"
  have "case RTSRoot_init ?K world0 of (Ok r, w1) \<Rightarrow> True | _ \<Rightarrow> False" by code_simp
  then obtain r w1 where "RTSRoot_init ?K world0 = (Ok r, w1)" by (auto split: prod.splits res.splits)
  from restore_command_fails [OF this, of "''x''" Inr "''targetctl''"] show ?thesis by auto
qed

end
