(* ===== verification/Convert.thy ===== *)
theory Convert
  imports Save
begin

text \<open>
  The script \<^verbatim>\<open>scripts/convert-to-json\<close>, which reads the configuration format that preceded JSON: the tokenizer,
  the parsers of the blocks, the reading of sizes, and the main loop. Most parsers are loops \<^verbatim>\<open>while txt[cur] != "}"\<close>
  whose body moves on only at a word it knows, so that a loop need not end: a parser returns nothing at all, an
  exception, or the new position with its result. What the parsers make of a configuration, and on which they
  never end, is shown in \<open>LioFormat\<close>.
\<close>

section \<open>Runs that may not end\<close>

type_synonym 'a conv = "(exn + 'a) option"

definition ok :: "'a \<Rightarrow> 'a conv" where
  "ok a = Some (Inr a)"

definition bindC :: "'a conv \<Rightarrow> ('a \<Rightarrow> 'b conv) \<Rightarrow> 'b conv" where
  "bindC m f = Option.bind m (\<lambda>r. case r of Inl e \<Rightarrow> Some (Inl e) | Inr a \<Rightarrow> f a)"

lemma bindC_simps [simp]: "bindC (Some (Inl e)) f = Some (Inl e)" "bindC (Some (Inr a)) f = f a" "bindC (ok a) f = f a" "bindC None f = None"
  by (simp_all add: bindC_def ok_def)

lemma ok_eq [simp]: "ok a = ok b \<longleftrightarrow> a = b" "ok a \<noteq> Some (Inl e)" "ok a \<noteq> None"
  by (simp_all add: ok_def)

text \<open>A loop: the test may raise, and a body that never makes the test fail gives no result.\<close>

partial_function (option) while_loop :: "('s \<Rightarrow> exn + bool) \<Rightarrow> ('s \<Rightarrow> 's conv) \<Rightarrow> 's \<Rightarrow> 's conv" where
  "while_loop test body s =
     (case test s of
        Inl e \<Rightarrow> Some (Inl e)
      | Inr b \<Rightarrow>
          if b then Option.bind (body s) (\<lambda>r. case r of Inl e \<Rightarrow> Some (Inl e) | Inr s' \<Rightarrow> while_loop test body s')
          else Some (Inr s))"

declare while_loop.simps [code]

section \<open>Words, sizes and flags\<close>

text \<open>
  The tokenizer: words are separated by white space, double quotes protect it, and an empty quoted
  value takes the word before it away. A word that the text ends with is not delivered.
\<close>

record splitter =
  new_lst :: "string list"
  in_quotes :: bool
  new_str :: string

definition split_step :: "char \<Rightarrow> splitter \<Rightarrow> exn + splitter" where
  "split_step c s =
     (if c \<notin> set '' '' \<union> {CHR 0x0A, CHR 0x09, CHR 0x22} then Inr (s\<lparr>new_str := new_str s @ [c]\<rparr>)
      else if c = CHR 0x22 \<and> \<not> in_quotes s then Inr (s\<lparr>in_quotes := True\<rparr>)
      else if c = CHR 0x22 then
        (if new_str s = [] then
           (if new_lst s = [] then Inl (IndexErr ''list assignment index out of range'')
            else Inr (s\<lparr>in_quotes := False, new_lst := butlast (new_lst s)\<rparr>))
         else Inr (s\<lparr>in_quotes := False\<rparr>))
      else if in_quotes s then Inr (s\<lparr>new_str := new_str s @ [c]\<rparr>)
      else if new_str s \<noteq> [] then Inr (s\<lparr>new_lst := new_lst s @ [new_str s], new_str := []\<rparr>)
      else Inr s)"

fun split_loop :: "string \<Rightarrow> splitter \<Rightarrow> exn + splitter" where
  "split_loop [] s = Inr s"
| "split_loop (c # cs) s = bindE (split_step c s) (split_loop cs)"

definition lio_split :: "string \<Rightarrow> exn + string list" where
  "lio_split s = bindE (split_loop s \<lparr>new_lst = [], in_quotes = False, new_str = []\<rparr>) (\<lambda>r. Inr (new_lst r))"

text \<open>
  \<^verbatim>\<open>int(float(s))\<close> for digits with one point: the integer part of the nearest binary64 number, ties to the even
  significand.
\<close>

fun ilog2 :: "nat \<Rightarrow> nat" where
  "ilog2 n = (if n < 2 then 0 else Suc (ilog2 (n div 2)))"

declare ilog2.simps [simp del]

definition float_trunc :: "nat \<Rightarrow> nat \<Rightarrow> exn + int" where
  "float_trunc n d =
     (let m = n div d; e = ilog2 m in
      if e \<le> 52 then
        (let s = (if m = 0 then 2 ^ 53 else 2 ^ (52 - e)) in Inr (round_div (int n * s) (int d) div s))
      else
        (let u = 2 ^ (e - 52); v = round_div (int n) (int d * u) * u in
         if v < 2 ^ 1024 then Inr v else Inl (OverflowErr ''cannot convert float infinity to integer'')))"

definition int_float :: "string \<Rightarrow> exn + int" where
  "int_float s =
     (case split_on (CHR ''.'') s of
        [a, b] \<Rightarrow>
          (case py_nat (a @ b) of
             None \<Rightarrow> Inl (ValueErr ''could not convert string to float'')
           | Some n \<Rightarrow> float_trunc n (10 ^ length b))
      | _ \<Rightarrow> Inl (ValueErr ''could not convert string to float''))"

text \<open>The test \<^verbatim>\<open>^[0-9\.]+[k|m|g|t]?[b]?$\<close>, in which the bar is one of the letters and a line break may follow.\<close>

definition drop_opt :: "string \<Rightarrow> string \<Rightarrow> string" where
  "drop_opt cs s = (if s \<noteq> [] \<and> hd s \<in> set cs then tl s else s)"

definition size_format :: "string \<Rightarrow> bool" where
  "size_format s =
     (let num = \<lambda>c. is_digit c \<or> c = CHR ''.'' in
      takeWhile num s \<noteq> [] \<and> drop_opt ''b'' (drop_opt ''k|mgt'' (dropWhile num s)) \<in> {[], [CHR 0x0A]})"

definition human_to_bytes :: "string \<Rightarrow> exn + int" where
  "human_to_bytes hsize =
     (let size = lower (remove_char (CHR ''i'') hsize) in
      if \<not> size_format size then Inl (PlainErr (''Cannot interpret size, wrong format: '' @ hsize))
      else
        (let size = rev (dropWhile (\<lambda>c. c \<in> set ''ib'') (rev size)) in
         case map_of (zip ''kmgt'' [1..<5]) (last size) of
           None \<Rightarrow> to_int (PStr size)
         | Some pw \<Rightarrow>
             bindE (case to_int (PStr (butlast size)) of Inr n \<Rightarrow> Inr n | Inl _ \<Rightarrow> int_float (butlast size))
               (\<lambda>n. Inr (n * 1024 ^ pw))))"

definition parse_yesno :: "string \<Rightarrow> pyval" where
  "parse_yesno val =
     (if val = ''yes'' then PInt 1 else if val = ''no'' then PInt 0
      else case py_int val of Some n \<Rightarrow> PInt n | None \<Rightarrow> PStr val)"

section \<open>The parsers\<close>

definition tok :: "string list \<Rightarrow> nat \<Rightarrow> string conv" where
  "tok txt i = Some (idx txt i)"

definition until_close :: "string list \<Rightarrow> (nat \<times> 'a \<Rightarrow> (nat \<times> 'a) conv) \<Rightarrow> nat \<times> 'a \<Rightarrow> (nat \<times> 'a) conv" where
  "until_close txt = while_loop (\<lambda>s. bindE (idx txt (fst s)) (\<lambda>t. Inr (t \<noteq> ''}'')))"

definition attributes_body :: "string list \<Rightarrow> nat \<times> pydict \<Rightarrow> (nat \<times> pydict) conv" where
  "attributes_body txt s = (case s of (cur, attribs) \<Rightarrow>
     bindC (tok txt cur) (\<lambda>name. bindC (tok txt (cur + 1)) (\<lambda>val.
       ok (cur + 2, dict_set attribs name (parse_yesno val)))))"

definition parse_attributes :: "string list \<Rightarrow> nat \<Rightarrow> (nat \<times> pydict) conv" where
  "parse_attributes txt cur =
     bindC (until_close txt (attributes_body txt) (cur, [])) (\<lambda>(cur, attribs). ok (cur + 1, attribs))"

text \<open>\<^verbatim>\<open>cur, d[key] = parse_attributes(txt, cur+2)\<close>\<close>

definition attributes_into :: "string list \<Rightarrow> string \<Rightarrow> nat \<times> pydict \<Rightarrow> (nat \<times> pydict) conv" where
  "attributes_into txt key s = (case s of (cur, d) \<Rightarrow>
     bindC (parse_attributes txt (cur + 2)) (\<lambda>(cur, a). ok (cur, dict_set d key (PDict a))))"

definition fileio_body :: "string list \<Rightarrow> nat \<times> pydict \<Rightarrow> (nat \<times> pydict) conv" where
  "fileio_body txt s = (case s of (cur, so) \<Rightarrow>
     bindC (tok txt cur) (\<lambda>t.
       if t = ''path'' then bindC (tok txt (cur + 1)) (\<lambda>v. ok (cur + 2, dict_set so ''dev'' (PStr v)))
       else if t = ''size'' then
         bindC (tok txt (cur + 1)) (\<lambda>v. bindC (Some (human_to_bytes v)) (\<lambda>n. ok (cur + 2, dict_set so ''size'' (PInt n))))
       else if t = ''buffered'' then ok (cur + 2, so)
       else if t = ''attribute'' then attributes_into txt ''attributes'' (cur, so)
       else ok (cur, so)))"

definition parse_fileio :: "string list \<Rightarrow> nat \<Rightarrow> (nat \<times> pydict) conv" where
  "parse_fileio txt cur =
     bindC (until_close txt (fileio_body txt) (cur, [(''plugin'', PStr ''fileio'')])) (\<lambda>(cur, so). ok (cur + 1, so))"

definition block_body :: "string list \<Rightarrow> nat \<times> pydict \<Rightarrow> (nat \<times> pydict) conv" where
  "block_body txt s = (case s of (cur, so) \<Rightarrow>
     bindC (tok txt cur) (\<lambda>t.
       if t = ''path'' then bindC (tok txt (cur + 1)) (\<lambda>v. ok (cur + 2, dict_set so ''dev'' (PStr v)))
       else if t = ''attribute'' then attributes_into txt ''attributes'' (cur, so)
       else ok (cur, so)))"

definition parse_block :: "string list \<Rightarrow> nat \<Rightarrow> (nat \<times> pydict) conv" where
  "parse_block txt cur =
     bindC (until_close txt (block_body txt) (cur, [(''plugin'', PStr ''block'')])) (\<lambda>(cur, so). ok (cur + 1, so))"

definition ramdisk_body :: "string list \<Rightarrow> nat \<times> pydict \<Rightarrow> (nat \<times> pydict) conv" where
  "ramdisk_body txt s = (case s of (cur, so) \<Rightarrow>
     bindC (tok txt cur) (\<lambda>t.
       if t = ''nullio'' then bindC (tok txt (cur + 1)) (\<lambda>v. ok (cur + 2, dict_set so ''nullio'' (parse_yesno v)))
       else if t = ''size'' then
         bindC (tok txt (cur + 1)) (\<lambda>v. bindC (Some (human_to_bytes v)) (\<lambda>n. ok (cur + 2, dict_set so ''size'' (PInt n))))
       else if t = ''attribute'' then attributes_into txt ''attributes'' (cur, so)
       else ok (cur, so)))"

definition parse_ramdisk :: "string list \<Rightarrow> nat \<Rightarrow> (nat \<times> pydict) conv" where
  "parse_ramdisk txt cur =
     bindC (until_close txt (ramdisk_body txt) (cur, [(''plugin'', PStr ''ramdisk'')])) (\<lambda>(cur, so). ok (cur + 1, so))"

definition parse_storage :: "string list \<Rightarrow> nat \<Rightarrow> (nat \<times> pydict) conv" where
  "parse_storage txt cur =
     bindC (tok txt (cur + 3)) (\<lambda>name. bindC (tok txt (cur + 1)) (\<lambda>ty.
     bindC (case map_of [(''fileio'', parse_fileio), (''rd_mcp'', parse_ramdisk), (''iblock'', parse_block)] ty of
              None \<Rightarrow> Some (Inl (KeyErr ty)) | Some f \<Rightarrow> f txt (cur + 5))
       (\<lambda>(cur, d). ok (cur, dict_set d ''name'' (PStr name)))))"

text \<open>\<^verbatim>\<open>a, b = s.split(":")\<close>\<close>

definition split_pair :: "string \<Rightarrow> (string \<times> string) conv" where
  "split_pair s = (case split_on (CHR '':'') s of [a, b] \<Rightarrow> ok (a, b) | _ \<Rightarrow> Some (Inl (ValueErr ''unpack'')))"

definition parse_lun :: "string list \<Rightarrow> nat \<Rightarrow> (nat \<times> pydict) conv" where
  "parse_lun txt cur =
     bindC (tok txt (cur + 1)) (\<lambda>i. bindC (Some (to_int (PStr i))) (\<lambda>index.
     bindC (tok txt (cur + 3)) (\<lambda>s. bindC (split_pair s) (\<lambda>(plugin, name).
       ok (cur + 4, [(''index'', PInt index), (''plugin'', PStr plugin), (''name'', PStr name)])))))"

definition mapped_lun_body :: "string list \<Rightarrow> nat \<times> pydict \<Rightarrow> (nat \<times> pydict) conv" where
  "mapped_lun_body txt s = (case s of (cur, mlun) \<Rightarrow>
     bindC (tok txt cur) (\<lambda>t.
       if t = ''target_lun'' then bindC (tok txt (cur + 1)) (\<lambda>v. ok (cur + 2, dict_set mlun ''tpg_lun'' (parse_yesno v)))
       else if t = ''write_protect'' then
         bindC (tok txt (cur + 1)) (\<lambda>v. ok (cur + 2, dict_set mlun ''write_protect'' (PBool (truthy (parse_yesno v)))))
       else ok (cur, mlun)))"

definition parse_mapped_lun :: "string list \<Rightarrow> nat \<Rightarrow> (nat \<times> pydict) conv" where
  "parse_mapped_lun txt cur =
     bindC (tok txt (cur + 1)) (\<lambda>i.
     bindC (until_close txt (mapped_lun_body txt) (cur + 3, [(''index'', PStr i)])) (\<lambda>(cur, mlun). ok (cur + 1, mlun)))"

definition auth_into :: "string list \<Rightarrow> nat \<times> pydict \<Rightarrow> (nat \<times> pydict) conv" where
  "auth_into txt s = (case s of (cur, d) \<Rightarrow>
     bindC (parse_attributes txt (cur + 2)) (\<lambda>(cur, auth).
       ok (cur, if auth \<noteq> [] then dict_set d ''auth'' (PDict auth) else d)))"

definition acl_body :: "string list \<Rightarrow> nat \<times> pydict \<times> pyval list \<Rightarrow> (nat \<times> pydict \<times> pyval list) conv" where
  "acl_body txt s = (case s of (cur, acl, mapped_luns) \<Rightarrow>
     bindC (tok txt cur) (\<lambda>t.
       if t = ''attribute'' then bindC (attributes_into txt ''attributes'' (cur, acl)) (\<lambda>(cur, acl). ok (cur, acl, mapped_luns))
       else if t = ''auth'' then bindC (auth_into txt (cur, acl)) (\<lambda>(cur, acl). ok (cur, acl, mapped_luns))
       else if t = ''mapped_lun'' then
         bindC (parse_mapped_lun txt cur) (\<lambda>(cur, mlun). ok (cur, acl, mapped_luns @ [PDict mlun]))
       else ok (cur, acl, mapped_luns)))"

definition parse_acl :: "string list \<Rightarrow> nat \<Rightarrow> (nat \<times> pydict) conv" where
  "parse_acl txt cur =
     bindC (tok txt (cur + 1)) (\<lambda>wwn.
     bindC (until_close txt (acl_body txt) (cur + 3, [(''node_wwn'', PStr wwn)], [])) (\<lambda>(cur, acl, mapped_luns).
       ok (cur + 1, dict_set acl ''mapped_luns'' (PList mapped_luns))))"

record tpg_parts =
  p_tpg :: pydict
  p_luns :: "pyval list"
  p_acls :: "pyval list"
  p_portals :: "pyval list"

definition tpg_body :: "string list \<Rightarrow> nat \<times> tpg_parts \<Rightarrow> (nat \<times> tpg_parts) conv" where
  "tpg_body txt s = (case s of (cur, p) \<Rightarrow>
     bindC (tok txt cur) (\<lambda>t.
       if t = ''enable'' then
         bindC (tok txt (cur + 1)) (\<lambda>v. ok (cur + 2, p\<lparr>p_tpg := dict_set (p_tpg p) ''enable'' (parse_yesno v)\<rparr>))
       else if t = ''attribute'' then
         bindC (attributes_into txt ''attributes'' (cur, p_tpg p)) (\<lambda>(cur, d). ok (cur, p\<lparr>p_tpg := d\<rparr>))
       else if t = ''parameter'' then
         bindC (attributes_into txt ''parameters'' (cur, p_tpg p)) (\<lambda>(cur, d). ok (cur, p\<lparr>p_tpg := d\<rparr>))
       else if t = ''auth'' then bindC (auth_into txt (cur, p_tpg p)) (\<lambda>(cur, d). ok (cur, p\<lparr>p_tpg := d\<rparr>))
       else if t = ''lun'' then
         bindC (parse_lun txt cur) (\<lambda>(cur, lun). ok (cur, p\<lparr>p_luns := p_luns p @ [PDict lun]\<rparr>))
       else if t = ''acl'' then
         bindC (parse_acl txt cur) (\<lambda>(cur, acl). ok (cur, p\<lparr>p_acls := p_acls p @ [PDict acl]\<rparr>))
       else if t = ''portal'' then
         bindC (tok txt (cur + 1)) (\<lambda>v. bindC (split_pair v) (\<lambda>(ip, port).
           ok (cur + 2, p\<lparr>p_portals := p_portals p @ [PDict [(''ip_address'', PStr ip), (''port'', PStr port)]]\<rparr>)))
       else ok (cur, p)))"

definition set_some :: "pydict \<Rightarrow> string \<Rightarrow> pyval list \<Rightarrow> pydict" where
  "set_some d k xs = (if xs \<noteq> [] then dict_set d k (PList xs) else d)"

definition tpg_close :: "tpg_parts \<Rightarrow> pydict" where
  "tpg_close p = set_some (set_some (set_some (p_tpg p) ''luns'' (p_luns p)) ''node_acls'' (p_acls p)) ''portals'' (p_portals p)"

definition parse_tpg :: "int option \<Rightarrow> string list \<Rightarrow> nat \<Rightarrow> (nat \<times> pydict) conv" where
  "parse_tpg tag txt cur =
     bindC (case tag of
              None \<Rightarrow> bindC (tok txt (cur + 1)) (\<lambda>i. bindC (Some (to_int (PStr i))) (\<lambda>n. ok (n, cur + 2)))
            | Some n \<Rightarrow> ok (n, cur)) (\<lambda>(n, cur).
     bindC (until_close txt (tpg_body txt) (cur + 3, \<lparr>p_tpg = [(''tag'', PInt n)], p_luns = [], p_acls = [], p_portals = []\<rparr>))
       (\<lambda>(cur, p). ok (cur + 1, tpg_close p)))"

definition target_body :: "string list \<Rightarrow> int option \<Rightarrow> nat \<times> pyval list \<Rightarrow> (nat \<times> pyval list) conv" where
  "target_body txt tpgt s = (case s of (cur, tpgs) \<Rightarrow>
     bindC (parse_tpg tpgt txt cur) (\<lambda>(cur, tpg). ok (cur, tpgs @ [PDict tpg])))"

definition parse_target :: "string \<Rightarrow> string list \<Rightarrow> nat \<Rightarrow> (nat \<times> pydict) conv" where
  "parse_target fabric txt cur =
     bindC (tok txt (cur + 1)) (\<lambda>wwn. bindC (tok txt (cur + 2)) (\<lambda>t.
     bindC (if t = ''{'' then ok (1, None)
            else bindC (tok txt (cur + 3)) (\<lambda>i. bindC (Some (to_int (PStr i))) (\<lambda>n. ok (0, Some n)))) (\<lambda>(extra, tpgt).
     bindC (until_close txt (target_body txt tpgt) (cur + 2 + extra, [])) (\<lambda>(cur, tpgs).
       ok (cur + extra, [(''wwn'', PStr wwn), (''fabric'', PStr fabric), (''tpgs'', PList tpgs)])))))"

text \<open>The lists the script keeps in module variables.\<close>

record lists =
  sos :: "pyval list"
  fabs :: "pyval list"
  targs :: "pyval list"

definition new_disco :: "pydict \<Rightarrow> pydict" where
  "new_disco disco =
     concat (map (\<lambda>(k, k'). if truthy (dict_get disco k PNone) then [(k', dict_get disco k PNone)] else [])
       [(''enable'', ''discovery_enable_auth''), (''userid'', ''discovery_userid''), (''password'', ''discovery_password''),
        (''mutual_userid'', ''discovery_mutual_userid''), (''mutual_password'', ''discovery_mutual_password'')])
     @ [(''name'', PStr ''iscsi'')]"

definition fabric_body :: "string list \<Rightarrow> string \<Rightarrow> nat \<times> lists \<Rightarrow> (nat \<times> lists) conv" where
  "fabric_body txt fabric s = (case s of (cur, l) \<Rightarrow>
     bindC (tok txt cur) (\<lambda>t.
       if t = ''discovery_auth'' then
         bindC (parse_attributes txt (cur + 2)) (\<lambda>(cur, disco). ok (cur, l\<lparr>fabs := fabs l @ [PDict (new_disco disco)]\<rparr>))
       else if t = ''target'' then
         bindC (parse_target fabric txt cur) (\<lambda>(cur, t). ok (cur, l\<lparr>targs := targs l @ [PDict t]\<rparr>))
       else ok (cur, l)))"

definition parse_fabric :: "string list \<Rightarrow> nat \<times> lists \<Rightarrow> (nat \<times> lists) conv" where
  "parse_fabric txt s = (case s of (cur, l) \<Rightarrow>
     bindC (tok txt (cur + 1)) (\<lambda>fabric. until_close txt (fabric_body txt fabric) (cur + 3, l)))"

definition parse_body :: "string list \<Rightarrow> nat \<times> lists \<Rightarrow> (nat \<times> lists) conv" where
  "parse_body txt s = (case s of (cur, l) \<Rightarrow>
     bindC (tok txt cur) (\<lambda>t.
       if t = ''storage'' then bindC (parse_storage txt cur) (\<lambda>(cur, d). ok (cur, l\<lparr>sos := sos l @ [PDict d]\<rparr>))
       else if t = ''fabric'' then parse_fabric txt (cur, l)
       else ok (cur, l)))"

definition lio_parse :: "string list \<Rightarrow> lists conv" where
  "lio_parse txt =
     bindC (while_loop (\<lambda>(cur, l). Inr (int cur \<noteq> int (length txt) - 1)) (parse_body txt) (0, \<lparr>sos = [], fabs = [], targs = []\<rparr>))
       (\<lambda>(cur, l). ok l)"

text \<open>The script: what it would do with the text of the file, and what it does.\<close>

definition lio_output :: "lists \<Rightarrow> pyval" where
  "lio_output l = PDict [(''storage_objects'', PList (sos l)), (''fabric_modules'', PList (fabs l)), (''targets'', PList (targs l))]"

definition convert_text :: "string \<Rightarrow> string conv" where
  "convert_text s = bindC (Some (lio_split s)) (\<lambda>txt. bindC (lio_parse txt) (\<lambda>l. ok (json_dump (lio_output l) @ [CHR 0x0A])))"

definition with_method :: "(string \<Rightarrow> 'a conv) \<Rightarrow> 'a conv" where
  "with_method body = Some (Inl (TypeErr ''method object does not support the context manager protocol''))"

definition convert_main :: "string conv" where
  "convert_main = with_method convert_text"

end
