(* ===== verification/LioFormat.thy ===== *)
theory LioFormat
  imports Convert
begin

text \<open>
  The old configuration format as a grammar, and what the parsers of \<^verbatim>\<open>convert-to-json\<close> make of it. A configuration is a
  tree of blocks; its words are those a file would hold, and its meaning is the dictionary a converter should
  build from it. The locale \<open>block_items\<close> says when a loop body reads one item of a block, and shows that the
  loop then reads the whole block; it is interpreted for each of the loops.
\<close>

section \<open>Loops over a block\<close>

lemma idx_at:
  assumes "drop cur txt = ts"
  shows "idx txt cur = idx ts 0" "idx txt (Suc cur) = idx ts 1" "idx txt (cur + k) = idx ts k"
    "drop (Suc cur) txt = drop 1 ts" "drop (cur + k) txt = drop k ts"
  using assms by (auto simp: idx_def nth_via_drop add.commute)

lemma idx_Cons [simp]: "idx (t # ts) 0 = Inr t" "idx (t # ts) (Suc k) = idx ts k" "idx (t # ts) 1 = idx ts 0"
  "idx (t # ts) (numeral n) = idx ts (pred_numeral n)"
  by (simp_all add: idx_def numeral_eq_Suc)

lemma until_close_end:
  assumes "drop cur txt = ''}'' # ts"
  shows "until_close txt body (cur, a) = ok (cur, a)"
  unfolding until_close_def by (subst while_loop.simps) (simp add: bindE_def idx_at [OF assms] ok_def)

lemma until_close_step:
  assumes "drop cur txt = t # ts" and "t \<noteq> ''}''" and "body (cur, a) = ok s"
  shows "until_close txt body (cur, a) = until_close txt body s"
  unfolding until_close_def
  by (subst while_loop.simps) (use assms(2, 3) in \<open>simp add: bindE_def idx_at [OF assms(1)] ok_def\<close>)

locale block_items =
  fixes body :: "string list \<Rightarrow> nat \<times> 'a \<Rightarrow> (nat \<times> 'a) conv"
    and toks :: "'i \<Rightarrow> string list" and good :: "'i \<Rightarrow> bool" and meaning :: "'i \<Rightarrow> 'a \<Rightarrow> 'a"
  assumes starts: "good i \<Longrightarrow> toks i \<noteq> [] \<and> hd (toks i) \<noteq> ''}''"
    and reads: "good i \<Longrightarrow> drop cur txt = toks i @ ts \<Longrightarrow> body txt (cur, a) = ok (cur + length (toks i), meaning i a)"
begin

lemma some_items:
  assumes "list_all good is" and "drop cur txt = concat (map toks is) @ ts"
  shows "until_close txt (body txt) (cur, a) = until_close txt (body txt) (cur + length (concat (map toks is)), fold meaning is a)"
  using assms
proof (induction "is" arbitrary: cur a)
  case (Cons i "is")
  from Cons.prems have g: "good i" and d: "drop cur txt = toks i @ concat (map toks is) @ ts" by simp_all
  from starts [OF g] obtain u us where "toks i = u # us" "u \<noteq> ''}''" by (cases "toks i") auto
  with until_close_step [where body = "body txt" and a = a and s = "(cur + length (toks i), meaning i a)"] reads [OF g d] d
  have "until_close txt (body txt) (cur, a) = until_close txt (body txt) (cur + length (toks i), meaning i a)" by simp
  also have "drop (cur + length (toks i)) txt = concat (map toks is) @ ts" using idx_at(5) [OF d, of "length (toks i)"] by simp
  with Cons have "until_close txt (body txt) (cur + length (toks i), meaning i a) =
      until_close txt (body txt) (cur + length (toks i) + length (concat (map toks is)), fold meaning is (meaning i a))" by simp
  finally show ?case by (simp add: add.assoc)
qed simp

lemma all_items:
  assumes "list_all good is" and "drop cur txt = concat (map toks is) @ ''}'' # ts"
  shows "until_close txt (body txt) (cur, a) = ok (cur + length (concat (map toks is)), fold meaning is a)"
  using some_items [OF assms] until_close_end idx_at(5) [OF assms(2), of "length (concat (map toks is))"] by simp

end

section \<open>Attributes\<close>

type_synonym settings = "(string \<times> string) list"

definition setting_toks :: "string \<times> string \<Rightarrow> string list" where
  "setting_toks s = [fst s, snd s]"

definition setting_good :: "string \<times> string \<Rightarrow> bool" where
  "setting_good s = (fst s \<noteq> ''}'')"

definition setting_meaning :: "string \<times> string \<Rightarrow> pydict \<Rightarrow> pydict" where
  "setting_meaning s d = dict_set d (fst s) (parse_yesno (snd s))"

interpretation sets: block_items attributes_body setting_toks setting_good setting_meaning
proof
  fix s cur w ts and a :: pydict
  assume "drop cur w = setting_toks s @ ts"
  note at = idx_at [OF this]
  show "attributes_body w (cur, a) = ok (cur + length (setting_toks s), setting_meaning s a)"
    by (simp add: setting_toks_def setting_meaning_def attributes_body_def tok_def at)
qed (simp add: setting_toks_def setting_good_def)

definition braced :: "('i \<Rightarrow> string list) \<Rightarrow> 'i list \<Rightarrow> string list" where
  "braced toks is = [''{''] @ concat (map toks is) @ [''}'']"

definition settings_meaning :: "settings \<Rightarrow> pydict" where
  "settings_meaning ss = fold setting_meaning ss []"

lemma parse_attributes_block:
  assumes "list_all setting_good ss" and "drop cur txt = concat (map setting_toks ss) @ ''}'' # ts"
  shows "parse_attributes txt cur = ok (cur + length (concat (map setting_toks ss)) + 1, settings_meaning ss)"
  by (simp add: parse_attributes_def sets.all_items [OF assms] settings_meaning_def)

section \<open>Storage objects\<close>

text \<open>Units of a size, written with or without a final \<^verbatim>\<open>B\<close> or \<^verbatim>\<open>iB\<close>, and in small or capital letters.\<close>

definition size_units :: "(string \<times> nat) list" where
  "size_units = [('''', 0), (''b'', 0), (''k'', 1), (''kb'', 1), (''m'', 2), (''mb'', 2), (''g'', 3), (''gb'', 3), (''t'', 4), (''tb'', 4)]"

definition unit_power :: "string \<Rightarrow> nat option" where
  "unit_power u = map_of size_units (lower (remove_char (CHR ''i'') u))"

lemma lower_digits: "\<forall>c \<in> set ds. is_digit c \<Longrightarrow> lower (remove_char (CHR ''i'') (ds @ u)) = ds @ lower (remove_char (CHR ''i'') u)"
  by (induction ds) (auto simp: lower_def remove_char_def lower_char_def is_digit_def Let_def)

lemma unit_power_cases:
  assumes "unit_power u = Some p"
  obtains v b where "lower (remove_char (CHR ''i'') u) = v @ b" "b \<in> {'''', ''b''}" "(v, p) \<in> {('''', 0), (''k'', 1), (''m'', 2), (''g'', 3), (''t'', 4)}"
proof -
  have "(lower (remove_char (CHR ''i'') u), p) \<in> set size_units"
    using assms by (auto simp: unit_power_def intro: map_of_SomeD)
  then show thesis
    using that [of "''''" "''''"] that [of "''''" "''b''"] that [of "''k''" "''''"] that [of "''k''" "''b''"] that [of "''m''" "''''"]
      that [of "''m''" "''b''"] that [of "''g''" "''''"] that [of "''g''" "''b''"] that [of "''t''" "''''"] that [of "''t''" "''b''"]
    by (auto simp: size_units_def)
qed

lemma to_int_digits: "to_int (PStr (str_of_nat n)) = Inr (int n)"
  using py_int_str_of_int [of "int n"] by (simp add: str_of_int_def)

lemma size_format_unit:
  assumes "\<forall>c \<in> set ds. is_digit c" and "ds \<noteq> []" and "v \<in> {'''', ''k'', ''m'', ''g'', ''t''}" and "b \<in> {'''', ''b''}"
  shows "size_format (ds @ v @ b)"
proof -
  define num where "num = (\<lambda>c. is_digit c \<or> c = CHR ''.'')"
  have ds: "\<forall>c \<in> set ds. num c" using assms(1) by (simp add: num_def)
  have v: "v @ b = [] \<or> \<not> num (hd (v @ b))" using assms(3,4) by (auto simp: num_def is_digit_def)
  then have "takeWhile num (v @ b) = []" "dropWhile num (v @ b) = v @ b" by (cases "v @ b"; simp)+
  then have "takeWhile num (ds @ v @ b) = ds" "dropWhile num (ds @ v @ b) = v @ b" using ds by (simp_all add: takeWhile_append dropWhile_append)
  with assms(2-4) show ?thesis unfolding size_format_def num_def [symmetric] Let_def by (auto simp: drop_opt_def)
qed

lemma human_to_bytes_unit:
  assumes "unit_power u = Some p"
  shows "human_to_bytes (str_of_nat n @ u) = Inr (int n * 1024 ^ p)"
proof -
  obtain v b where u: "lower (remove_char (CHR ''i'') u) = v @ b" and b: "b \<in> {'''', ''b''}"
    and v: "(v, p) \<in> {('''', 0), (''k'', 1), (''m'', 2), (''g'', 3), (''t'', 4)}" by (rule unit_power_cases [OF assms])
  let ?ds = "str_of_nat n"
  have size: "lower (remove_char (CHR ''i'') (?ds @ u)) = ?ds @ v @ b" using lower_digits [OF str_of_nat_digits] u by simp
  have l: "is_digit (last ?ds)" using str_of_nat_digits [of n] last_in_set [of ?ds] by simp
  then have "last ?ds \<noteq> CHR ''i''" "last ?ds \<noteq> CHR ''b''" by (auto simp: is_digit_def)
  then have "rev (dropWhile (\<lambda>c. c \<in> set ''ib'') (rev (?ds @ v @ b))) = ?ds @ v"
    using b v by (cases "?ds" rule: rev_cases) auto
  moreover have "size_format (?ds @ v @ b)" by (rule size_format_unit [OF str_of_nat_digits]) (use b v in auto)
  moreover from l have "last ?ds \<notin> set ''kmgt''" by (auto simp: is_digit_def)
  moreover have "zip ''kmgt'' [1..<5] = [(CHR ''k'', 1), (CHR ''m'', 2), (CHR ''g'', 3), (CHR ''t'', 4)]" by (simp add: upt_rec)
  ultimately show ?thesis using v to_int_digits [of n]
    unfolding human_to_bytes_def size Let_def by (auto simp: bindE_def simp del: to_int.simps)
qed

text \<open>A block of settings after its keyword.\<close>

lemma attributes_at:
  assumes "list_all setting_good ss" and "drop cur txt = (kw # braced setting_toks ss) @ ts"
  shows "parse_attributes txt (Suc (Suc cur)) = ok (cur + length (kw # braced setting_toks ss), settings_meaning ss)"
    and "attributes_into txt key (cur, d) = ok (cur + length (kw # braced setting_toks ss), dict_set d key (PDict (settings_meaning ss)))"
    and "auth_into txt (cur, d) =
      ok (cur + length (kw # braced setting_toks ss), if settings_meaning ss = [] then d else dict_set d ''auth'' (PDict (settings_meaning ss)))"
proof -
  have "drop (cur + 2) txt = concat (map setting_toks ss) @ ''}'' # ts"
    using idx_at(5) [OF assms(2), of 2] by (simp add: braced_def)
  from parse_attributes_block [OF assms(1) this]
  show p: "parse_attributes txt (Suc (Suc cur)) = ok (cur + length (kw # braced setting_toks ss), settings_meaning ss)"
    by (simp add: braced_def)
  show "attributes_into txt key (cur, d) = ok (cur + length (kw # braced setting_toks ss), dict_set d key (PDict (settings_meaning ss)))"
    using p by (simp add: attributes_into_def)
  show "auth_into txt (cur, d) =
      ok (cur + length (kw # braced setting_toks ss), if settings_meaning ss = [] then d else dict_set d ''auth'' (PDict (settings_meaning ss)))"
    using p by (simp add: auth_into_def)
qed

datatype so_item = SPath string | SSize nat string | SBuffered string | SNullio string | SAttrs settings

fun so_item_toks :: "so_item \<Rightarrow> string list" where
  "so_item_toks (SPath p) = [''path'', p]"
| "so_item_toks (SSize n u) = [''size'', str_of_nat n @ u]"
| "so_item_toks (SBuffered b) = [''buffered'', b]"
| "so_item_toks (SNullio b) = [''nullio'', b]"
| "so_item_toks (SAttrs ss) = ''attribute'' # braced setting_toks ss"

fun so_item_meaning :: "so_item \<Rightarrow> pydict \<Rightarrow> pydict" where
  "so_item_meaning (SPath p) d = dict_set d ''dev'' (PStr p)"
| "so_item_meaning (SSize n u) d = dict_set d ''size'' (PInt (int n * 1024 ^ the (unit_power u)))"
| "so_item_meaning (SBuffered b) d = d"
| "so_item_meaning (SNullio b) d = dict_set d ''nullio'' (parse_yesno b)"
| "so_item_meaning (SAttrs ss) d = dict_set d ''attributes'' (PDict (settings_meaning ss))"

datatype so_kind = Fileio | Rd_mcp | Iblock

fun so_item_good :: "so_kind \<Rightarrow> so_item \<Rightarrow> bool" where
  "so_item_good k (SPath p) = (k \<noteq> Rd_mcp)"
| "so_item_good k (SSize n u) = (k \<noteq> Iblock \<and> unit_power u \<noteq> None)"
| "so_item_good k (SBuffered b) = (k = Fileio)"
| "so_item_good k (SNullio b) = (k = Rd_mcp)"
| "so_item_good k (SAttrs ss) = list_all setting_good ss"

fun so_body :: "so_kind \<Rightarrow> string list \<Rightarrow> nat \<times> pydict \<Rightarrow> (nat \<times> pydict) conv" where
  "so_body Fileio = fileio_body"
| "so_body Rd_mcp = ramdisk_body"
| "so_body Iblock = block_body"

lemmas so_bodies = fileio_body_def ramdisk_body_def block_body_def

interpretation so_items: block_items "so_body k" so_item_toks "so_item_good k" so_item_meaning for k
proof
  fix i cur w ts and a :: pydict
  assume g: "so_item_good k i" and d: "drop cur w = so_item_toks i @ ts"
  note at = idx_at [OF d]
  show "so_body k w (cur, a) = ok (cur + length (so_item_toks i), so_item_meaning i a)"
  proof (cases i)
    case (SAttrs ss)
    with attributes_at(2) [of ss cur w "''attribute''" ts "''attributes''" a] g d show ?thesis
      by (cases k) (simp_all add: so_bodies tok_def at)
  qed (use g in \<open>cases k; auto simp: so_bodies tok_def at human_to_bytes_unit\<close>)+
next
  fix i
  show "so_item_toks i \<noteq> [] \<and> hd (so_item_toks i) \<noteq> ''}''" by (cases i) simp_all
qed

datatype lio_so = LSo so_kind string "so_item list"

definition kind_word :: "so_kind \<Rightarrow> string" where
  "kind_word k = (case k of Fileio \<Rightarrow> ''fileio'' | Rd_mcp \<Rightarrow> ''rd_mcp'' | Iblock \<Rightarrow> ''iblock'')"

definition kind_plugin :: "so_kind \<Rightarrow> string" where
  "kind_plugin k = (case k of Fileio \<Rightarrow> ''fileio'' | Rd_mcp \<Rightarrow> ''ramdisk'' | Iblock \<Rightarrow> ''block'')"

fun lio_so_toks :: "lio_so \<Rightarrow> string list" where
  "lio_so_toks (LSo k name is) = [''storage'', kind_word k, ''disk'', name] @ braced so_item_toks is"

fun lio_so_good :: "lio_so \<Rightarrow> bool" where
  "lio_so_good (LSo k name is) = list_all (so_item_good k) is"

fun lio_so_meaning :: "lio_so \<Rightarrow> pydict" where
  "lio_so_meaning (LSo k name is) = dict_set (fold so_item_meaning is [(''plugin'', PStr (kind_plugin k))]) ''name'' (PStr name)"

lemma parse_storage_reads:
  assumes "lio_so_good s" and "drop cur txt = lio_so_toks s @ ts"
  shows "parse_storage txt cur = ok (cur + length (lio_so_toks s), lio_so_meaning s)"
proof (cases s)
  case (LSo k name "is")
  have "drop (cur + 5) txt = concat (map so_item_toks is) @ ''}'' # ts"
    using idx_at(5) [OF assms(2), of 5] LSo by (simp add: braced_def)
  from so_items.all_items [OF _ this, of k] assms(1) LSo show ?thesis
    by (cases k) (simp_all add: parse_storage_def tok_def idx_at [OF assms(2)] kind_word_def kind_plugin_def braced_def
      parse_fileio_def parse_ramdisk_def parse_block_def)
qed

section \<open>Access lists\<close>

datatype mlun_item = MTarget_lun string | MWrite_protect string

fun mlun_item_toks :: "mlun_item \<Rightarrow> string list" where
  "mlun_item_toks (MTarget_lun v) = [''target_lun'', v]"
| "mlun_item_toks (MWrite_protect v) = [''write_protect'', v]"

fun mlun_item_meaning :: "mlun_item \<Rightarrow> pydict \<Rightarrow> pydict" where
  "mlun_item_meaning (MTarget_lun v) d = dict_set d ''tpg_lun'' (parse_yesno v)"
| "mlun_item_meaning (MWrite_protect v) d = dict_set d ''write_protect'' (PBool (truthy (parse_yesno v)))"

interpretation mlun_items: block_items mapped_lun_body mlun_item_toks "\<lambda>_. True" mlun_item_meaning
proof
  fix i cur w ts and a :: pydict
  assume d: "drop cur w = mlun_item_toks i @ ts"
  show "mapped_lun_body w (cur, a) = ok (cur + length (mlun_item_toks i), mlun_item_meaning i a)"
    by (cases i) (simp_all add: mapped_lun_body_def tok_def idx_at [OF d])
next
  fix i
  show "mlun_item_toks i \<noteq> [] \<and> hd (mlun_item_toks i) \<noteq> ''}''" by (cases i) simp_all
qed

datatype acl_item = AAttrs settings | AAuth settings | AMapped string "mlun_item list"

fun acl_item_toks :: "acl_item \<Rightarrow> string list" where
  "acl_item_toks (AAttrs ss) = ''attribute'' # braced setting_toks ss"
| "acl_item_toks (AAuth ss) = ''auth'' # braced setting_toks ss"
| "acl_item_toks (AMapped n is) = [''mapped_lun'', n] @ braced mlun_item_toks is"

fun acl_item_good :: "acl_item \<Rightarrow> bool" where
  "acl_item_good (AAttrs ss) = list_all setting_good ss"
| "acl_item_good (AAuth ss) = list_all setting_good ss"
| "acl_item_good (AMapped n is) = True"

definition auth_meaning :: "settings \<Rightarrow> pydict \<Rightarrow> pydict" where
  "auth_meaning ss d = (if settings_meaning ss = [] then d else dict_set d ''auth'' (PDict (settings_meaning ss)))"

fun acl_item_meaning :: "acl_item \<Rightarrow> pydict \<times> pyval list \<Rightarrow> pydict \<times> pyval list" where
  "acl_item_meaning (AAttrs ss) (d, ms) = (dict_set d ''attributes'' (PDict (settings_meaning ss)), ms)"
| "acl_item_meaning (AAuth ss) (d, ms) = (auth_meaning ss d, ms)"
| "acl_item_meaning (AMapped n is) (d, ms) = (d, ms @ [PDict (fold mlun_item_meaning is [(''index'', PStr n)])])"

lemma parse_mapped_lun_reads:
  assumes "drop cur txt = ([''mapped_lun'', n] @ braced mlun_item_toks is) @ ts"
  shows "parse_mapped_lun txt cur =
    ok (cur + length ([''mapped_lun'', n] @ braced mlun_item_toks is), fold mlun_item_meaning is [(''index'', PStr n)])"
proof -
  have "drop (cur + 3) txt = concat (map mlun_item_toks is) @ ''}'' # ts"
    using idx_at(5) [OF assms, of 3] by (simp add: braced_def)
  from mlun_items.all_items [OF _ this] show ?thesis
    by (simp add: parse_mapped_lun_def tok_def idx_at [OF assms] braced_def list_all_iff)
qed

interpretation acl_items: block_items acl_body acl_item_toks acl_item_good acl_item_meaning
proof
  fix i cur w ts and a :: "pydict \<times> pyval list"
  assume g: "acl_item_good i" and d: "drop cur w = acl_item_toks i @ ts"
  obtain acl ms where a: "a = (acl, ms)" by (cases a)
  note at = idx_at [OF d]
  show "acl_body w (cur, a) = ok (cur + length (acl_item_toks i), acl_item_meaning i a)"
  proof (cases i)
    case (AAttrs ss)
    with attributes_at(2) [of ss cur w "''attribute''" ts "''attributes''" acl] g d show ?thesis
      by (simp add: acl_body_def a tok_def at)
  next
    case (AAuth ss)
    with attributes_at(3) [of ss cur w "''auth''" ts acl] g d show ?thesis
      by (simp add: acl_body_def a tok_def at auth_meaning_def)
  next
    case (AMapped n "is")
    with parse_mapped_lun_reads [of cur w n "is" ts] d show ?thesis
      by (simp add: acl_body_def a tok_def at)
  qed
next
  fix i
  show "acl_item_toks i \<noteq> [] \<and> hd (acl_item_toks i) \<noteq> ''}''" by (cases i) simp_all
qed

definition acl_toks :: "string \<Rightarrow> acl_item list \<Rightarrow> string list" where
  "acl_toks wwn is = [''acl'', wwn] @ braced acl_item_toks is"

definition acl_meaning :: "string \<Rightarrow> acl_item list \<Rightarrow> pydict" where
  "acl_meaning wwn is = (case fold acl_item_meaning is ([(''node_wwn'', PStr wwn)], []) of
     (acl, ms) \<Rightarrow> dict_set acl ''mapped_luns'' (PList ms))"

lemma parse_acl_reads:
  assumes "list_all acl_item_good is" and "drop cur txt = acl_toks wwn is @ ts"
  shows "parse_acl txt cur = ok (cur + length (acl_toks wwn is), acl_meaning wwn is)"
proof -
  have "drop (cur + 3) txt = concat (map acl_item_toks is) @ ''}'' # ts"
    using idx_at(5) [OF assms(2), of 3] by (simp add: braced_def acl_toks_def)
  from acl_items.all_items [OF assms(1) this] show ?thesis
    using idx_at(2) [OF assms(2)]
    by (simp add: parse_acl_def tok_def acl_meaning_def braced_def acl_toks_def split: prod.split)
qed

section \<open>Portal groups and targets\<close>

datatype tpg_item =
    TEnable string | TAttrs settings | TParams settings | TAuth settings | TLun int string string
  | TAcl string "acl_item list" | TPortal string string

fun tpg_item_toks :: "tpg_item \<Rightarrow> string list" where
  "tpg_item_toks (TEnable v) = [''enable'', v]"
| "tpg_item_toks (TAttrs ss) = ''attribute'' # braced setting_toks ss"
| "tpg_item_toks (TParams ss) = ''parameter'' # braced setting_toks ss"
| "tpg_item_toks (TAuth ss) = ''auth'' # braced setting_toks ss"
| "tpg_item_toks (TLun n plugin name) = [''lun'', str_of_int n, ''backend'', plugin @ '':'' @ name]"
| "tpg_item_toks (TAcl wwn is) = acl_toks wwn is"
| "tpg_item_toks (TPortal ip port) = [''portal'', ip @ '':'' @ port]"

fun tpg_item_good :: "tpg_item \<Rightarrow> bool" where
  "tpg_item_good (TEnable v) = True"
| "tpg_item_good (TAttrs ss) = list_all setting_good ss"
| "tpg_item_good (TParams ss) = list_all setting_good ss"
| "tpg_item_good (TAuth ss) = list_all setting_good ss"
| "tpg_item_good (TLun n plugin name) = (CHR '':'' \<notin> set plugin \<and> CHR '':'' \<notin> set name)"
| "tpg_item_good (TAcl wwn is) = list_all acl_item_good is"
| "tpg_item_good (TPortal ip port) = (CHR '':'' \<notin> set ip \<and> CHR '':'' \<notin> set port)"

fun tpg_item_meaning :: "tpg_item \<Rightarrow> tpg_parts \<Rightarrow> tpg_parts" where
  "tpg_item_meaning (TEnable v) p = p\<lparr>p_tpg := dict_set (p_tpg p) ''enable'' (parse_yesno v)\<rparr>"
| "tpg_item_meaning (TAttrs ss) p = p\<lparr>p_tpg := dict_set (p_tpg p) ''attributes'' (PDict (settings_meaning ss))\<rparr>"
| "tpg_item_meaning (TParams ss) p = p\<lparr>p_tpg := dict_set (p_tpg p) ''parameters'' (PDict (settings_meaning ss))\<rparr>"
| "tpg_item_meaning (TAuth ss) p = p\<lparr>p_tpg := auth_meaning ss (p_tpg p)\<rparr>"
| "tpg_item_meaning (TLun n plugin name) p =
     p\<lparr>p_luns := p_luns p @ [PDict [(''index'', PInt n), (''plugin'', PStr plugin), (''name'', PStr name)]]\<rparr>"
| "tpg_item_meaning (TAcl wwn is) p = p\<lparr>p_acls := p_acls p @ [PDict (acl_meaning wwn is)]\<rparr>"
| "tpg_item_meaning (TPortal ip port) p =
     p\<lparr>p_portals := p_portals p @ [PDict [(''ip_address'', PStr ip), (''port'', PStr port)]]\<rparr>"

lemma split_pair_colon: "CHR '':'' \<notin> set a \<Longrightarrow> CHR '':'' \<notin> set b \<Longrightarrow> split_pair (a @ CHR '':'' # b) = ok (a, b)"
  by (simp add: split_pair_def split_on_append split_on_no_sep)

lemmas attributes_at_kw = attributes_at(2) [where kw = "''attribute''" and key = "''attributes''"]
  attributes_at(2) [where kw = "''parameter''" and key = "''parameters''"] attributes_at(3) [where kw = "''auth''"]

interpretation tpg_items: block_items tpg_body tpg_item_toks tpg_item_good tpg_item_meaning
proof
  fix i cur w ts and a :: tpg_parts
  assume g: "tpg_item_good i" and d: "drop cur w = tpg_item_toks i @ ts"
  note at = idx_at [OF d]
  show "tpg_body w (cur, a) = ok (cur + length (tpg_item_toks i), tpg_item_meaning i a)"
  proof (cases i)
    case (TAttrs ss)
    with attributes_at_kw(1) [of ss cur w ts "p_tpg a"] g d show ?thesis by (simp add: tpg_body_def tok_def at)
  next
    case (TParams ss)
    with attributes_at_kw(2) [of ss cur w ts "p_tpg a"] g d show ?thesis by (simp add: tpg_body_def tok_def at)
  next
    case (TAuth ss)
    with attributes_at_kw(3) [of ss cur w ts "p_tpg a"] g d show ?thesis by (simp add: tpg_body_def tok_def at auth_meaning_def)
  next
    case (TAcl wwn "is")
    with parse_acl_reads [of "is" cur w wwn ts] g d show ?thesis by (simp add: tpg_body_def tok_def at) (simp add: acl_toks_def)
  qed (use g in \<open>simp_all add: tpg_body_def tok_def at parse_lun_def split_pair_colon\<close>)
next
  fix i
  show "tpg_item_toks i \<noteq> [] \<and> hd (tpg_item_toks i) \<noteq> ''}''" by (cases i) (simp_all add: acl_toks_def)
qed

definition tpg_meaning :: "int \<Rightarrow> tpg_item list \<Rightarrow> pydict" where
  "tpg_meaning tag is =
     tpg_close (fold tpg_item_meaning is \<lparr>p_tpg = [(''tag'', PInt tag)], p_luns = [], p_acls = [], p_portals = []\<rparr>)"

definition tpg_toks :: "int \<Rightarrow> tpg_item list \<Rightarrow> string list" where
  "tpg_toks tag is = [''tpgt'', str_of_int tag] @ braced tpg_item_toks is"

lemma parse_tpg_reads:
  assumes "list_all tpg_item_good is" and "drop cur txt = tpg_toks tag is @ ts"
  shows "parse_tpg (Some n) txt cur = ok (cur + length (tpg_toks tag is), tpg_meaning n is)"
proof -
  have "drop (cur + 3) txt = concat (map tpg_item_toks is) @ ''}'' # ts"
    using idx_at(5) [OF assms(2), of 3] by (simp add: braced_def tpg_toks_def)
  from tpg_items.all_items [OF assms(1) this] show ?thesis
    by (simp add: parse_tpg_def tpg_meaning_def braced_def tpg_toks_def)
qed

text \<open>
  The form with braces around the groups of a target. A group begins with an item of two words; the words of any other beginning have no meaning here.
  The parser skips the tag twice (line 194 of the script) and so loses the first two words behind the opening brace: it reads the
  group as if they were blank (\<open>lose_tpg\<close>).
\<close>

datatype long_tpg = LTpg int string string "tpg_item list"

fun long_tpg_toks :: "long_tpg \<Rightarrow> string list" where
  "long_tpg_toks (LTpg tag a b is) = [''tpgt'', str_of_int tag, ''{'', a, b] @ concat (map tpg_item_toks is) @ [''}'']"

fun long_tpg_good :: "long_tpg \<Rightarrow> bool" where
  "long_tpg_good (LTpg tag a b is) = list_all tpg_item_good is"

definition head_item :: "string \<Rightarrow> string \<Rightarrow> tpg_item list" where
  "head_item a b =
     (if a = ''enable'' then [TEnable b]
      else if a = ''portal'' then (case split_pair b of Some (Inr (ip, port)) \<Rightarrow> [TPortal ip port] | _ \<Rightarrow> [])
      else [])"

fun long_tpg_meaning :: "long_tpg \<Rightarrow> pyval list \<Rightarrow> pyval list" where
  "long_tpg_meaning (LTpg tag a b is) tpgs = tpgs @ [PDict (tpg_meaning tag (head_item a b @ is))]"

fun lose_tpg :: "long_tpg \<Rightarrow> long_tpg" where
  "lose_tpg (LTpg tag a b is) = LTpg tag [] [] is"

interpretation long_tpgs: block_items "\<lambda>txt. target_body txt None" long_tpg_toks long_tpg_good "\<lambda>g. long_tpg_meaning (lose_tpg g)"
proof
  fix g cur w ts and a :: "pyval list"
  assume g: "long_tpg_good g" and d: "drop cur w = long_tpg_toks g @ ts"
  obtain tag x y "is" where G: "g = LTpg tag x y is" by (cases g)
  have "drop (cur + 5) w = concat (map tpg_item_toks is) @ ''}'' # ts" using idx_at(5) [OF d, of 5] G by simp
  from tpg_items.all_items [OF _ this] g G show "target_body w None (cur, a) = ok (cur + length (long_tpg_toks g), long_tpg_meaning (lose_tpg g) a)"
    by (simp add: head_item_def target_body_def parse_tpg_def tok_def idx_at [OF d] tpg_meaning_def numeral_eq_Suc)
next
  fix g
  show "long_tpg_toks g \<noteq> [] \<and> hd (long_tpg_toks g) \<noteq> ''}''" by (cases g) simp
qed

definition long_target_toks :: "string \<Rightarrow> long_tpg list \<Rightarrow> string list" where
  "long_target_toks wwn gs = [''target'', wwn] @ braced long_tpg_toks gs"

definition target_meaning :: "string \<Rightarrow> string \<Rightarrow> pyval list \<Rightarrow> pydict" where
  "target_meaning fabric wwn tpgs = [(''wwn'', PStr wwn), (''fabric'', PStr fabric), (''tpgs'', PList tpgs)]"

lemma parse_long_target:
  assumes "list_all long_tpg_good gs" and "drop cur txt = long_target_toks wwn gs @ ts"
  shows "parse_target fabric txt cur = ok (cur + length (long_target_toks wwn gs), target_meaning fabric wwn (fold long_tpg_meaning (map lose_tpg gs) []))"
proof -
  have "drop (cur + 2 + 1) txt = concat (map long_tpg_toks gs) @ ''}'' # ts"
    using idx_at(5) [OF assms(2), of 3] by (simp add: braced_def long_target_toks_def numeral_eq_Suc)
  note long_tpgs.all_items [OF assms(1) this]
  moreover have "idx txt (cur + 1) = Inr wwn" "idx txt (cur + 2) = Inr ''{''"
    unfolding idx_at(3) [OF assms(2)] by (simp_all add: braced_def long_target_toks_def)
  ultimately show ?thesis by (simp add: parse_target_def tok_def target_meaning_def braced_def long_target_toks_def
      fold_map comp_def)
qed

definition short_target_toks :: "string \<Rightarrow> int \<Rightarrow> tpg_item list \<Rightarrow> string list" where
  "short_target_toks wwn tag is = [''target'', wwn] @ tpg_toks tag is"

text \<open>A target in the form without braces: what comes after its group decides how its parser goes on.\<close>

lemma parse_short_target:
  assumes "list_all tpg_item_good is" and "drop cur txt = short_target_toks wwn tag is @ ts"
  shows "parse_target fabric txt cur =
    bindC (until_close txt (target_body txt (Some tag)) (cur + length (short_target_toks wwn tag is), [PDict (tpg_meaning tag is)]))
      (\<lambda>(cur, tpgs). ok (cur, target_meaning fabric wwn tpgs))"
proof -
  have d: "drop (cur + 2) txt = tpg_toks tag is @ ts"
    using idx_at(5) [OF assms(2), of 2] by (simp add: short_target_toks_def)
  then obtain us where us: "drop (cur + 2) txt = ''tpgt'' # us" by (simp add: tpg_toks_def)
  have "target_body txt (Some tag) (cur + 2, []) = ok (cur + length (short_target_toks wwn tag is), [PDict (tpg_meaning tag is)])"
    using parse_tpg_reads [OF assms(1) d, of tag] by (simp add: target_body_def short_target_toks_def)
  with until_close_step [where body = "target_body txt (Some tag)" and a = "[]", OF us]
  have "until_close txt (target_body txt (Some tag)) (cur + 2, []) =
      until_close txt (target_body txt (Some tag)) (cur + length (short_target_toks wwn tag is), [PDict (tpg_meaning tag is)])" by simp
  moreover have "idx txt (cur + 1) = Inr wwn" "idx txt (cur + 2) = Inr ''tpgt''" "idx txt (cur + 3) = Inr (str_of_int tag)"
    unfolding idx_at(3) [OF assms(2)] by (simp_all add: tpg_toks_def short_target_toks_def)
  ultimately show ?thesis by (simp add: parse_target_def tok_def target_meaning_def)
qed

section \<open>Whole configurations\<close>

datatype fabric_item = FDiscovery settings | FTarget string "long_tpg list"

fun fabric_item_toks :: "fabric_item \<Rightarrow> string list" where
  "fabric_item_toks (FDiscovery ss) = ''discovery_auth'' # braced setting_toks ss"
| "fabric_item_toks (FTarget wwn gs) = long_target_toks wwn gs"

fun fabric_item_good :: "fabric_item \<Rightarrow> bool" where
  "fabric_item_good (FDiscovery ss) = list_all setting_good ss"
| "fabric_item_good (FTarget wwn gs) = list_all long_tpg_good gs"

fun fabric_item_meaning :: "string \<Rightarrow> fabric_item \<Rightarrow> lists \<Rightarrow> lists" where
  "fabric_item_meaning f (FDiscovery ss) l = l\<lparr>fabs := fabs l @ [PDict (new_disco (settings_meaning ss))]\<rparr>"
| "fabric_item_meaning f (FTarget wwn gs) l = l\<lparr>targs := targs l @ [PDict (target_meaning f wwn (fold long_tpg_meaning gs []))]\<rparr>"

fun lose_item :: "fabric_item \<Rightarrow> fabric_item" where
  "lose_item (FDiscovery ss) = FDiscovery ss"
| "lose_item (FTarget wwn gs) = FTarget wwn (map lose_tpg gs)"

interpretation fabric_items: block_items "\<lambda>txt. fabric_body txt f" fabric_item_toks fabric_item_good "\<lambda>i. fabric_item_meaning f (lose_item i)" for f
proof
  fix i cur w ts and a :: lists
  assume g: "fabric_item_good i" and d: "drop cur w = fabric_item_toks i @ ts"
  show "fabric_body w f (cur, a) = ok (cur + length (fabric_item_toks i), fabric_item_meaning f (lose_item i) a)"
  proof (cases i)
    case (FDiscovery ss)
    with attributes_at(1) [of ss cur w "''discovery_auth''" ts] g d show ?thesis
      by (simp add: fabric_body_def tok_def idx_at [OF d])
  next
    case (FTarget wwn gs)
    with parse_long_target [of gs cur w wwn ts f] g d idx_at(1) [OF d] show ?thesis
      by (simp add: fabric_body_def tok_def) (simp add: long_target_toks_def)
  qed
next
  fix i
  show "fabric_item_toks i \<noteq> [] \<and> hd (fabric_item_toks i) \<noteq> ''}''" by (cases i) (simp_all add: long_target_toks_def)
qed

text \<open>
  The configurations the script reads: storage objects, then one fabric with any number of targets
  in the form with braces, each of whose groups begins with an item of two words, after which one target without braces may stand. The address of a portal
  has no colon (an IPv6 address makes the split at line 225 raise) and a size is a whole number, with or without a unit.
\<close>

record lio_conf =
  lc_sos :: "lio_so list"
  lc_fabric :: string
  lc_items :: "fabric_item list"
  lc_last :: "(string \<times> int \<times> tpg_item list) option"

definition last_toks :: "(string \<times> int \<times> tpg_item list) option \<Rightarrow> string list" where
  "last_toks t = (case t of None \<Rightarrow> [] | Some (wwn, tag, is) \<Rightarrow> short_target_toks wwn tag is)"

definition fabric_start :: "lio_conf \<Rightarrow> string list" where
  "fabric_start c = [''fabric'', lc_fabric c, ''{''] @ concat (map fabric_item_toks (lc_items c)) @ last_toks (lc_last c)"

definition lio_toks :: "lio_conf \<Rightarrow> string list" where
  "lio_toks c = concat (map lio_so_toks (lc_sos c)) @ fabric_start c @ [''}'']"

fun long_tpg_headed :: "long_tpg \<Rightarrow> bool" where
  "long_tpg_headed (LTpg tag a b is) = (head_item a b \<noteq> [])"

fun item_headed :: "fabric_item \<Rightarrow> bool" where
  "item_headed (FDiscovery ss) = True"
| "item_headed (FTarget wwn gs) = list_all long_tpg_headed gs"

definition lio_good :: "lio_conf \<Rightarrow> bool" where
  "lio_good c = (list_all lio_so_good (lc_sos c) \<and> list_all fabric_item_good (lc_items c) \<and> list_all item_headed (lc_items c) \<and>
     (case lc_last c of None \<Rightarrow> True | Some (wwn, tag, is) \<Rightarrow> list_all tpg_item_good is))"

definition lio_meaning :: "lio_conf \<Rightarrow> lists" where
  "lio_meaning c =
     (let l = fold (fabric_item_meaning (lc_fabric c)) (lc_items c)
        \<lparr>sos = map (\<lambda>s. PDict (lio_so_meaning s)) (lc_sos c), fabs = [], targs = []\<rparr> in
      case lc_last c of
        None \<Rightarrow> l
      | Some (wwn, tag, is) \<Rightarrow> l\<lparr>targs := targs l @ [PDict (target_meaning (lc_fabric c) wwn [PDict (tpg_meaning tag is)])]\<rparr>)"

text \<open>The configuration without the first item of each group in braces, and those that have no such group.\<close>

definition lose :: "lio_conf \<Rightarrow> lio_conf" where
  "lose c = c\<lparr>lc_items := map lose_item (lc_items c)\<rparr>"

fun no_groups :: "fabric_item \<Rightarrow> bool" where
  "no_groups (FDiscovery ss) = True"
| "no_groups (FTarget wwn gs) = (gs = [])"

lemma lose_nothing: "list_all no_groups (lc_items c) \<Longrightarrow> lose c = c"
proof -
  have "no_groups i \<Longrightarrow> lose_item i = i" for i by (cases i) simp_all
  then show "list_all no_groups (lc_items c) \<Longrightarrow> lose c = c" by (simp add: lose_def list_all_iff map_idI)
qed

lemma parse_fabric_items:
  assumes "list_all fabric_item_good is" and "drop cur txt = [''fabric'', f, ''{''] @ concat (map fabric_item_toks is) @ ts"
  shows "parse_fabric txt (cur, l) = until_close txt (fabric_body txt f)
      (cur + 3 + length (concat (map fabric_item_toks is)), fold (fabric_item_meaning f) (map lose_item is) l)"
    and "drop (cur + 3 + length (concat (map fabric_item_toks is))) txt = ts"
proof -
  have d: "drop (cur + 3) txt = concat (map fabric_item_toks is) @ ts" using idx_at(5) [OF assms(2), of 3] by simp
  show "drop (cur + 3 + length (concat (map fabric_item_toks is))) txt = ts" unfolding idx_at(5) [OF d] by simp
  show "parse_fabric txt (cur, l) = until_close txt (fabric_body txt f)
      (cur + 3 + length (concat (map fabric_item_toks is)), fold (fabric_item_meaning f) (map lose_item is) l)"
    using fabric_items.some_items [OF assms(1) d] idx_at(2) [OF assms(2)] by (simp add: parse_fabric_def tok_def fold_map comp_def)
qed

lemma fabric_body_target:
  assumes "drop cur txt = ''target'' # ts"
  shows "fabric_body txt f (cur, l) = bindC (parse_target f txt cur) (\<lambda>(cur, t). ok (cur, l\<lparr>targs := targs l @ [PDict t]\<rparr>))"
  using idx_at(1) [OF assms] by (simp add: fabric_body_def tok_def)

lemma parse_fabric_reads:
  assumes "lio_good c" and d: "drop cur txt = fabric_start c @ ''}'' # ts"
  shows "parse_fabric txt (cur, \<lparr>sos = map (\<lambda>s. PDict (lio_so_meaning s)) (lc_sos c), fabs = [], targs = []\<rparr>) =
    ok (cur + length (fabric_start c), lio_meaning (lose c))"
proof -
  let ?cur = "cur + 3 + length (concat (map fabric_item_toks (lc_items c)))"
  have good: "list_all fabric_item_good (lc_items c)" using assms(1) by (simp add: lio_good_def)
  have d: "drop cur txt = [''fabric'', lc_fabric c, ''{''] @ concat (map fabric_item_toks (lc_items c)) @ last_toks (lc_last c) @ ''}'' # ts"
    using d by (simp add: fabric_start_def)
  note parts = parse_fabric_items [OF good d]
  show ?thesis
  proof (cases "lc_last c")
    case None
    with parts(2) have "drop ?cur txt = ''}'' # ts" by (simp add: last_toks_def)
    note stops = until_close_end [OF this]
    show ?thesis unfolding parts(1) stops by (simp add: None fabric_start_def last_toks_def lio_meaning_def lose_def)
  next
    case (Some t)
    obtain wwn tag "is" where t: "t = (wwn, tag, is)" by (cases t)
    let ?stop = "?cur + length (short_target_toks wwn tag is)"
    have short: "drop ?cur txt = short_target_toks wwn tag is @ ''}'' # ts" and g: "list_all tpg_item_good is"
      using parts(2) assms(1) Some t by (simp_all add: last_toks_def lio_good_def)
    then have start: "drop ?cur txt = ''target'' # wwn # tpg_toks tag is @ ''}'' # ts" by (simp add: short_target_toks_def)
    have close: "drop ?stop txt = ''}'' # ts" unfolding idx_at(5) [OF short] by simp
    have "parse_target (lc_fabric c) txt ?cur = ok (?stop, target_meaning (lc_fabric c) wwn [PDict (tpg_meaning tag is)])"
      unfolding parse_short_target [OF g short] until_close_end [OF close] by simp
    with until_close_step [OF start, of "fabric_body txt (lc_fabric c)"] fabric_body_target [OF start] until_close_end [OF close, of "fabric_body txt (lc_fabric c)"]
    show ?thesis unfolding parts(1) by (simp add: Some t fabric_start_def last_toks_def lio_meaning_def lose_def Let_def)
  qed
qed

text \<open>The main loop, which stops in front of the last word.\<close>

definition main_loop :: "string list \<Rightarrow> nat \<times> lists \<Rightarrow> (nat \<times> lists) conv" where
  "main_loop txt = while_loop (\<lambda>(cur, l). Inr (int cur \<noteq> int (length txt) - 1)) (parse_body txt)"

lemma main_loop_step:
  assumes "drop cur txt = t # u # ts"
  shows "main_loop txt (cur, l) = bindC (parse_body txt (cur, l)) (main_loop txt)"
proof -
  from assms have "length txt - cur = Suc (Suc (length ts))" by (metis length_Cons length_drop)
  then have "int cur \<noteq> int (length txt) - 1" by linarith
  then show ?thesis unfolding main_loop_def by (subst while_loop.simps) (simp add: bindC_def)
qed

lemma main_loop_stops: "drop cur txt = [t] \<Longrightarrow> main_loop txt (cur, l) = ok (cur, l)"
proof -
  assume "drop cur txt = [t]"
  then have "length txt - cur = 1" by (metis length_drop One_nat_def length_Cons list.size(3))
  then have "int cur = int (length txt) - 1" by linarith
  then show ?thesis unfolding main_loop_def by (subst while_loop.simps) (simp add: ok_def)
qed

lemma main_loop_storage:
  assumes "list_all lio_so_good ss" and "drop cur txt = concat (map lio_so_toks ss) @ ts"
  shows "main_loop txt (cur, l) = main_loop txt (cur + length (concat (map lio_so_toks ss)), l\<lparr>sos := sos l @ map (\<lambda>s. PDict (lio_so_meaning s)) ss\<rparr>)"
  using assms
proof (induction ss arbitrary: cur l)
  case (Cons s ss)
  then have g: "lio_so_good s" and d: "drop cur txt = lio_so_toks s @ concat (map lio_so_toks ss) @ ts" by simp_all
  obtain k us where us: "drop cur txt = ''storage'' # k # us" unfolding d by (cases s) auto
  have next_at: "drop (cur + length (lio_so_toks s)) txt = concat (map lio_so_toks ss) @ ts" unfolding idx_at(5) [OF d] by simp
  have "parse_body txt (cur, l) = ok (cur + length (lio_so_toks s), l\<lparr>sos := sos l @ [PDict (lio_so_meaning s)]\<rparr>)"
    using parse_storage_reads [OF g d] idx_at(1) [OF us] by (simp add: parse_body_def tok_def)
  with main_loop_step [OF us, of l] Cons.IH [OF _ next_at] Cons.prems(1) show ?case by (simp add: add.assoc)
qed simp

lemma main_loop_fabric:
  assumes "drop cur txt = [''fabric'', f] @ ts" and "ts \<noteq> []"
  shows "main_loop txt (cur, l) = bindC (parse_fabric txt (cur, l)) (main_loop txt)"
  using main_loop_step [of cur "txt" "''fabric''" f ts l] assms idx_at(1) [OF assms(1)]
  by (simp add: parse_body_def tok_def)

lemma lio_parse_reads:
  assumes "lio_good c"
  shows "lio_parse (lio_toks c) = ok (lio_meaning (lose c))"
proof -
  let ?n = "length (concat (map lio_so_toks (lc_sos c)))"
  have sos: "list_all lio_so_good (lc_sos c)" "drop 0 (lio_toks c) = concat (map lio_so_toks (lc_sos c)) @ fabric_start c @ [''}'']"
    using assms by (simp_all add: lio_good_def lio_toks_def)
  have d: "drop ?n (lio_toks c) = fabric_start c @ ''}'' # []" using idx_at(5) [OF sos(2), of ?n] by simp
  then have start: "drop ?n (lio_toks c) =
      [''fabric'', lc_fabric c] @ ''{'' # concat (map fabric_item_toks (lc_items c)) @ last_toks (lc_last c) @ [''}'']"
    by (simp add: fabric_start_def)
  have stop: "drop (?n + length (fabric_start c)) (lio_toks c) = [''}'']" unfolding idx_at(5) [OF d] by simp
  have "main_loop (lio_toks c) (0, \<lparr>sos = [], fabs = [], targs = []\<rparr>) = ok (?n + length (fabric_start c), lio_meaning (lose c))"
    unfolding main_loop_storage [OF sos]
    using main_loop_fabric [OF start] parse_fabric_reads [OF assms d] main_loop_stops [OF stop] by simp
  then show ?thesis by (simp add: lio_parse_def main_loop_def [symmetric])
qed

section \<open>Words of a file\<close>

text \<open>
  A file is a sequence of words with white space after each. A word can be quoted, and must be when
  it has white space in it; a name with an empty value stands for no words at all.
\<close>

datatype word = Word bool string string | Unset string string string

definition spaces :: "string \<Rightarrow> bool" where
  "spaces s = (s \<noteq> [] \<and> set s \<subseteq> {CHR '' '', CHR 0x0A, CHR 0x09})"

definition plain :: "string \<Rightarrow> bool" where
  "plain s = (s \<noteq> [] \<and> set s \<inter> {CHR '' '', CHR 0x0A, CHR 0x09, CHR 0x22} = {})"

fun word_good :: "word \<Rightarrow> bool" where
  "word_good (Word quoted t s) = (spaces s \<and> (if quoted then t \<noteq> [] \<and> CHR 0x22 \<notin> set t else plain t))"
| "word_good (Unset k s s') = (plain k \<and> spaces s \<and> spaces s')"

fun word_text :: "word \<Rightarrow> string" where
  "word_text (Word quoted t s) = (if quoted then [CHR 0x22] @ t @ [CHR 0x22] else t) @ s"
| "word_text (Unset k s s') = k @ s @ [CHR 0x22, CHR 0x22] @ s'"

fun word_toks :: "word \<Rightarrow> string list" where
  "word_toks (Word quoted t s) = [t]"
| "word_toks (Unset k s s') = []"

lemma split_loop_append: "split_loop (a @ b) s = bindE (split_loop a s) (split_loop b)"
  by (induction a arbitrary: s) (auto simp: bindE_def split: sum.splits)

lemma split_loop_plain: "plain t \<or> t = [] \<Longrightarrow> split_loop t s = Inr (s\<lparr>new_str := new_str s @ t\<rparr>)"
  by (induction t arbitrary: s) (auto simp: plain_def split_step_def bindE_def)

lemma split_loop_quoted: "CHR 0x22 \<notin> set t \<Longrightarrow> in_quotes s \<Longrightarrow> split_loop t s = Inr (s\<lparr>new_str := new_str s @ t\<rparr>)"
  by (induction t arbitrary: s) (auto simp: split_step_def bindE_def)

lemma split_loop_spaces:
  assumes "set t \<subseteq> {CHR '' '', CHR 0x0A, CHR 0x09}" and "\<not> in_quotes s"
  shows "split_loop t s = Inr (if t = [] \<or> new_str s = [] then s else s\<lparr>new_lst := new_lst s @ [new_str s], new_str := []\<rparr>)"
  using assms by (induction t arbitrary: s) (auto simp: split_step_def bindE_def)

lemma split_loop_word:
  assumes "word_good w" and "\<not> in_quotes s" and "new_str s = []"
  shows "split_loop (word_text w) s = Inr (s\<lparr>new_lst := new_lst s @ word_toks w\<rparr>)"
  using assms
  by (cases w) (auto simp: split_loop_append split_loop_plain split_loop_quoted split_loop_spaces bindE_def spaces_def plain_def
      split_step_def split: if_splits)

lemma lio_split_words:
  assumes "list_all word_good ws"
  shows "lio_split (concat (map word_text ws)) = Inr (concat (map word_toks ws))"
proof -
  have "split_loop (concat (map word_text ws)) s = Inr (s\<lparr>new_lst := new_lst s @ concat (map word_toks ws)\<rparr>)"
    if "\<not> in_quotes s" "new_str s = []" for s :: splitter
    using assms that
    by (induction ws arbitrary: s) (simp_all add: split_loop_append split_loop_word bindE_def)
  then show ?thesis by (simp add: lio_split_def bindE_def)
qed

section \<open>Loops that do not end\<close>

lemma while_loop_diverges:
  assumes "P s" and stays: "\<And>s. P s \<Longrightarrow> test s = Inr True \<and> (body s = None \<or> (\<exists>s'. body s = ok s' \<and> P s'))"
  shows "while_loop test body s = None"
proof -
  have "t = test \<longrightarrow> b = body \<longrightarrow> \<not> P s" if "while_loop t b s = Some r" for t b r s
  proof (rule while_loop.raw_induct [OF _ that, where P = "\<lambda>t b s r. t = test \<longrightarrow> b = body \<longrightarrow> \<not> P s"], intro impI notI)
    fix loop t b s r
    assume IH: "\<And>t b s r. loop t b s = Some r \<Longrightarrow> t = test \<longrightarrow> b = body \<longrightarrow> \<not> P s" and P: "P s" and tb: "t = test" "b = body"
      and run: "(case t s of Inl e \<Rightarrow> Some (Inl e) | Inr c \<Rightarrow>
          if c then Option.bind (b s) (\<lambda>r. case r of Inl e \<Rightarrow> Some (Inl e) | Inr s' \<Rightarrow> loop t b s') else Some (Inr s)) = Some r"
    from run stays [OF P] tb obtain s' where "loop test body s' = Some r" "P s'" by (auto simp: ok_def)
    with IH tb show False by blast
  qed
  with assms(1) show ?thesis by (cases "while_loop test body s") blast+
qed

lemma until_close_diverges:
  assumes "drop cur txt = t # ts" and "t \<noteq> ''}''" and "body (cur, a) = None"
  shows "until_close txt body (cur, a) = None"
  unfolding until_close_def
  by (subst while_loop.simps) (use assms(2, 3) in \<open>simp add: bindE_def idx_at [OF assms(1)]\<close>)

text \<open>A word that is no keyword of a portal group keeps the loop of the group where it is.\<close>

definition tpg_words :: "string set" where
  "tpg_words = {''}'', ''enable'', ''attribute'', ''parameter'', ''auth'', ''lun'', ''acl'', ''portal''}"

lemma parse_tpg_hangs:
  assumes "drop cur txt = x # y # z # t # ts" and "t \<notin> tpg_words"
  shows "parse_tpg (Some n) txt cur = None"
proof -
  have "idx txt (cur + 3) = Inr t" unfolding idx_at(3) [OF assms(1)] by simp
  then have "until_close txt (tpg_body txt) (cur + 3, p) = None" for p
    unfolding until_close_def using assms(2)
    by (intro while_loop_diverges [where P = "\<lambda>s. fst s = cur + 3"]) (auto simp: bindE_def tpg_body_def tok_def tpg_words_def)
  then show ?thesis by (simp add: parse_tpg_def)
qed

lemma str_of_int_no_keyword: "str_of_int n \<notin> tpg_words"
proof
  have none: "\<forall>t \<in> tpg_words. py_int t = None" unfolding tpg_words_def by code_simp
  assume "str_of_int n \<in> tpg_words"
  with none py_int_str_of_int [of n] show False by auto
qed

lemma second_short_target_hangs:
  assumes "list_all tpg_item_good is" and "drop cur txt = short_target_toks wwn tag is @ short_target_toks wwn' tag' is' @ ts"
  shows "parse_target f txt cur = None"
proof -
  let ?cur = "cur + length (short_target_toks wwn tag is)"
  obtain us where us: "drop ?cur txt = ''target'' # wwn' # ''tpgt'' # str_of_int tag' # us"
    unfolding idx_at(5) [OF assms(2)] by (simp add: short_target_toks_def tpg_toks_def)
  then have "target_body txt (Some tag) (?cur, tpgs) = None" for tpgs
    by (simp add: target_body_def parse_tpg_hangs str_of_int_no_keyword)
  then have "until_close txt (target_body txt (Some tag)) (?cur, tpgs) = None" for tpgs
    by (intro until_close_diverges [OF us]) simp_all
  then show ?thesis unfolding parse_short_target [OF assms] by simp
qed

section \<open>The dictionaries have each key once\<close>

abbreviation once_dict :: "pydict \<Rightarrow> bool" where
  "once_dict d \<equiv> dict_keys_once (PDict d)"

lemma once_dict_set: "once_dict d \<Longrightarrow> dict_keys_once v \<Longrightarrow> once_dict (dict_set d k v)"
  using set_dict_set [of d k v] distinct_dict_set [of d k v] unfolding dict_keys_once.simps by blast

lemma once_dict_Cons [simp]: "once_dict ((k, v) # d) = (k \<notin> fst ` set d \<and> dict_keys_once v \<and> once_dict d)"
  by auto

lemma once_dict_Nil [simp]: "once_dict []"
  by simp

declare dict_keys_once.simps(2) [simp del]

lemma once_dict_fold: "(\<And>i d. once_dict d \<Longrightarrow> once_dict (f i d)) \<Longrightarrow> once_dict d \<Longrightarrow> once_dict (fold f is d)"
  by (induction "is" arbitrary: d) simp_all

lemma once_yesno [simp]: "dict_keys_once (parse_yesno v)"
  by (simp add: parse_yesno_def split: option.split)

lemma once_settings [simp]: "once_dict (settings_meaning ss)"
  unfolding settings_meaning_def by (rule once_dict_fold) (simp_all add: setting_meaning_def once_dict_set)

lemma once_lio_so: "once_dict (lio_so_meaning s)"
proof (cases s)
  case (LSo k name "is")
  have "once_dict (so_item_meaning i d)" if "once_dict d" for i d
    using that by (cases i) (simp_all add: once_dict_set)
  then show ?thesis unfolding LSo lio_so_meaning.simps by (intro once_dict_set once_dict_fold) simp_all
qed

lemma once_acl: "once_dict (acl_meaning wwn is)"
proof -
  have mlun: "once_dict (mlun_item_meaning i d)" if "once_dict d" for i d
    using that by (cases i) (simp_all add: once_dict_set)
  have "case fold acl_item_meaning is s of (acl, ms) \<Rightarrow> once_dict acl \<and> (\<forall>m \<in> set ms. dict_keys_once m)"
    if "case s of (acl, ms) \<Rightarrow> once_dict acl \<and> (\<forall>m \<in> set ms. dict_keys_once m)" for s
    using that
  proof (induction "is" arbitrary: s)
    case (Cons i "is")
    from Cons.prems have "case acl_item_meaning i s of (acl, ms) \<Rightarrow> once_dict acl \<and> (\<forall>m \<in> set ms. dict_keys_once m)"
      by (cases i; cases s) (auto simp: auth_meaning_def intro!: once_dict_set once_dict_fold mlun)
    from Cons.IH [OF this] show ?case by simp
  qed simp
  from this [of "([(''node_wwn'', PStr wwn)], [])"] show ?thesis
    unfolding acl_meaning_def by (auto split: prod.splits intro!: once_dict_set)
qed

definition once_parts :: "tpg_parts \<Rightarrow> bool" where
  "once_parts p = (once_dict (p_tpg p) \<and> (\<forall>v \<in> set (p_luns p @ p_acls p @ p_portals p). dict_keys_once v))"

lemma once_tpg: "once_dict (tpg_meaning tag is)"
proof -
  have step: "once_parts (tpg_item_meaning i p)" if "once_parts p" for i p
    using that by (cases i) (auto simp: once_parts_def auth_meaning_def once_acl intro!: once_dict_set)
  have "once_parts (fold tpg_item_meaning is p)" if "once_parts p" for p
    using that by (induction "is" arbitrary: p) (simp_all add: step)
  from this [of "\<lparr>p_tpg = [(''tag'', PInt tag)], p_luns = [], p_acls = [], p_portals = []\<rparr>"] show ?thesis
    unfolding tpg_meaning_def tpg_close_def set_some_def
    by (auto simp: once_parts_def intro!: once_dict_set)
qed

lemma once_lio: "dict_keys_once (lio_output (lio_meaning c))"
proof -
  define inv where "inv = (\<lambda>l :: lists. \<forall>v \<in> set (sos l @ fabs l @ targs l). dict_keys_once v)"
  have disco: "once_dict (new_disco d)" if "once_dict d" for d
  proof -
    have "dict_keys_once (dict_get d k PNone)" for k
      using that by (auto simp: dict_get_def dict_keys_once.simps(2) split: option.splits dest!: map_of_SomeD)
    then show ?thesis by (simp add: new_disco_def)
  qed
  have tpgs: "\<forall>v \<in> set (fold long_tpg_meaning gs tpgs). dict_keys_once v" if "\<forall>v \<in> set tpgs. dict_keys_once v" for gs tpgs
    using that
  proof (induction gs arbitrary: tpgs)
    case (Cons g gs)
    from Cons.prems have "\<forall>v \<in> set (long_tpg_meaning g tpgs). dict_keys_once v" by (cases g) (simp add: once_tpg)
    from Cons.IH [OF this] show ?case by simp
  qed simp
  have step: "inv (fabric_item_meaning f i l)" if "inv l" for f i l
    using that by (cases i) (use tpgs [of "[]"] in \<open>auto simp: inv_def disco target_meaning_def\<close>)
  have items: "inv (fold (fabric_item_meaning f) is l)" if "inv l" for f "is" l
    using that by (induction "is" arbitrary: l) (simp_all add: step)
  have "inv \<lparr>sos = map (\<lambda>s. PDict (lio_so_meaning s)) (lc_sos c), fabs = [], targs = []\<rparr>" by (auto simp: inv_def once_lio_so)
  from items [OF this] have "inv (lio_meaning c)"
    by (auto simp: lio_meaning_def Let_def inv_def target_meaning_def once_tpg split: option.splits)
  then show ?thesis by (simp add: lio_output_def inv_def)
qed

section \<open>Example files\<close>

definition demo_lio :: lio_conf where
  "demo_lio = \<lparr>lc_sos = [LSo Rd_mcp ''d'' [SSize 4 ''kB'']], lc_fabric = ''iscsi'',
     lc_items = [FDiscovery [(''enable'', ''yes'')], FTarget ''iqn.1'' [LTpg 1 ''enable'' ''yes'' [TLun 0 ''rd_mcp'' ''d'']]],
     lc_last = Some (''iqn.2'', 2, [TPortal ''1.2.3.4'' ''3260''])\<rparr>"

definition demo_words :: "string list \<Rightarrow> word list" where
  "demo_words ts = Unset ''comment'' '' '' '' '' # map (\<lambda>t. Word (t = ''d'') t '' '') ts"

section \<open>Properties\<close>

text \<open>
  C18. The converter reads the old format, but for the first line of each group in braces. Take a file of storage objects and one fabric whose targets
  are in the form with braces, except possibly the last, and in which every group in braces begins with an \<^verbatim>\<open>enable\<close> or \<^verbatim>\<open>portal\<close> line, the
  portals have addresses without a colon (no IPv6) and the sizes are whole numbers. The body of the script's \<^verbatim>\<open>with\<close> ends on it, whatever white space separates the
  words and whichever of them are quoted, and the JSON that is printed loads as the dictionary that the file describes without the first line of each group in
  braces: that line is lost. Where there is no group in braces nothing is lost. (The \<^verbatim>\<open>with\<close> itself raises before its body, as \<open>convert_main\<close> says.)
\<close>

theorem convert_reads:
  assumes "lio_good c" and "list_all word_good ws" and "concat (map word_toks ws) = lio_toks c"
  shows "(\<exists>out. convert_text (concat (map word_text ws)) = ok out \<and> json_loads out = Inr (sort_keys (lio_output (lio_meaning (lose c))))) \<and>
    (list_all no_groups (lc_items c) \<longrightarrow> lose c = c)"
proof -
  have "json_loads (json_dump (lio_output (lio_meaning (lose c))) @ [CHR 0x0A]) = Inr (sort_keys (lio_output (lio_meaning (lose c))))"
    by (rule json_loads_dump [OF once_lio]) (simp_all add: json_ws_def json_end_def)
  with lio_split_words [OF assms(2)] lio_parse_reads [OF assms(1)] assms(3) lose_nothing show ?thesis by (simp add: convert_text_def)
qed

theorem convert_reads_witness:
  "(\<exists>out. convert_text (concat (map word_text (demo_words (lio_toks demo_lio)))) = ok out \<and>
     json_loads out = Inr (sort_keys (lio_output (lio_meaning (lose demo_lio))))) \<and>
   lio_meaning (lose demo_lio) \<noteq> lio_meaning demo_lio"
proof
  have "lio_good demo_lio" "list_all word_good (demo_words (lio_toks demo_lio))"
    "concat (map word_toks (demo_words (lio_toks demo_lio))) = lio_toks demo_lio" by code_simp+
  from convert_reads [OF this] show "\<exists>out. convert_text (concat (map word_text (demo_words (lio_toks demo_lio)))) = ok out \<and>
     json_loads out = Inr (sort_keys (lio_output (lio_meaning (lose demo_lio))))" by (rule conjunct1)
  show "lio_meaning (lose demo_lio) \<noteq> lio_meaning demo_lio" by code_simp
qed

text \<open>
  C40. The converter hangs on two targets in the form without braces. Whatever comes before and after them, the run on a file with
  two such targets in a row does not end.
\<close>

theorem convert_hangs:
  assumes "list_all lio_so_good ss" and "list_all fabric_item_good items" and "list_all tpg_item_good is" and "list_all word_good ws"
    and toks: "concat (map word_toks ws) = concat (map lio_so_toks ss) @ [''fabric'', f, ''{''] @ concat (map fabric_item_toks items) @
      short_target_toks wwn tag is @ short_target_toks wwn' tag' is' @ ts"
  shows "convert_text (concat (map word_text ws)) = None"
proof -
  let ?txt = "concat (map word_toks ws)" and ?n = "length (concat (map lio_so_toks ss))"
  let ?short = "short_target_toks wwn tag is @ short_target_toks wwn' tag' is' @ ts"
  have d0: "drop 0 ?txt = concat (map lio_so_toks ss) @ [''fabric'', f, ''{''] @ concat (map fabric_item_toks items) @ ?short" using toks by simp
  have d: "drop ?n ?txt = [''fabric'', f, ''{''] @ concat (map fabric_item_toks items) @ ?short" using idx_at(5) [OF d0, of ?n] by simp
  note parts = parse_fabric_items [OF assms(2) d]
  then obtain us where us: "drop (?n + 3 + length (concat (map fabric_item_toks items))) ?txt = ''target'' # us"
    by (simp add: short_target_toks_def)
  have "parse_fabric ?txt (?n, l) = None" for l
    unfolding parts(1) using second_short_target_hangs [OF assms(3) parts(2)] fabric_body_target [OF us]
    by (intro until_close_diverges [OF us]) simp_all
  then have "main_loop ?txt (?n, l) = None" for l using main_loop_fabric [of ?n ?txt f] d by simp
  with main_loop_storage [OF assms(1) d0] have "lio_parse ?txt = None" by (simp add: lio_parse_def main_loop_def [symmetric])
  with lio_split_words [OF assms(4)] show ?thesis by (simp add: convert_text_def)
qed

theorem convert_hangs_witness:
  "convert_text (concat (map word_text (demo_words ([''fabric'', ''iscsi'', ''{''] @
     short_target_toks ''iqn.1'' 1 [TEnable ''yes''] @ short_target_toks ''iqn.2'' 1 [] @ [''}''])))) = None"
proof (rule convert_hangs [where ss = "[]" and items = "[]" and f = "''iscsi''" and ts = "[''}'']"])
  show "list_all tpg_item_good [TEnable ''yes'']" by simp
  show "list_all word_good (demo_words ([''fabric'', ''iscsi'', ''{''] @
     short_target_toks ''iqn.1'' 1 [TEnable ''yes''] @ short_target_toks ''iqn.2'' 1 [] @ [''}'']))" by code_simp
  show "concat (map word_toks (demo_words ([''fabric'', ''iscsi'', ''{''] @
     short_target_toks ''iqn.1'' 1 [TEnable ''yes''] @ short_target_toks ''iqn.2'' 1 [] @ [''}'']))) =
    concat (map lio_so_toks []) @ [''fabric'', ''iscsi'', ''{''] @ concat (map fabric_item_toks []) @
     short_target_toks ''iqn.1'' 1 [TEnable ''yes''] @ short_target_toks ''iqn.2'' 1 [] @ [''}'']" by code_simp
qed simp_all

end
