(* ===== verification/Schema.thy ===== *)
theory Schema
  imports Dumps
begin

text \<open>
  The types of a configuration dictionary. A record type names the keys a dictionary must have and the type of
  each; \<open>conf_type\<close> is the type of a whole configuration as \<^verbatim>\<open>RTSRoot.dump\<close> writes it and as the restoring and
  merging code reads it. The theory shows that every dump has the type, and that merging one storage object into a saved
  configuration of the type cannot raise and gives a configuration of the type again.
\<close>

section \<open>Types of configuration values\<close>

datatype ty = TyInt | TyBool | TyStr | TyList ty | TyRec "(string \<times> ty) list"

primrec has_type :: "ty \<Rightarrow> pyval \<Rightarrow> bool" where
  "has_type TyInt = (\<lambda>v. case v of PInt _ \<Rightarrow> True | _ \<Rightarrow> False)"
| "has_type TyBool = (\<lambda>v. case v of PBool _ \<Rightarrow> True | _ \<Rightarrow> False)"
| "has_type TyStr = (\<lambda>v. case v of PStr _ \<Rightarrow> True | _ \<Rightarrow> False)"
| "has_type (TyList t) = (\<lambda>v. case v of PList vs \<Rightarrow> list_all (has_type t) vs | _ \<Rightarrow> False)"
| "has_type (TyRec fts) = (\<lambda>v. case v of
     PDict d \<Rightarrow> list_all (\<lambda>(k, has). case map_of d k of Some u \<Rightarrow> has u | None \<Rightarrow> False) (map (map_prod id has_type) fts)
   | _ \<Rightarrow> False)"

definition lun_type :: ty where
  "lun_type = TyRec [(''index'', TyInt), (''storage_object'', TyStr), (''alias'', TyStr)]"

definition portal_type :: ty where
  "portal_type = TyRec [(''ip_address'', TyStr), (''port'', TyInt), (''iser'', TyBool), (''offload'', TyBool)]"

definition mapped_lun_type :: ty where
  "mapped_lun_type = TyRec [(''index'', TyInt), (''tpg_lun'', TyInt), (''write_protect'', TyBool), (''alias'', TyStr)]"

definition acl_type :: ty where
  "acl_type = TyRec [(''node_wwn'', TyStr), (''mapped_luns'', TyList mapped_lun_type)]"

definition tpg_type :: ty where
  "tpg_type = TyRec [(''tag'', TyInt), (''enable'', TyBool), (''luns'', TyList lun_type), (''portals'', TyList portal_type),
     (''node_acls'', TyList acl_type)]"

definition target_type :: ty where
  "target_type = TyRec [(''wwn'', TyStr), (''fabric'', TyStr), (''tpgs'', TyList tpg_type)]"

definition alua_type :: ty where
  "alua_type = TyRec [(''name'', TyStr), (''tg_pt_gp_id'', TyInt)]"

definition so_type :: ty where
  "so_type = TyRec [(''name'', TyStr), (''plugin'', TyStr), (''alua_tpgs'', TyList alua_type)]"

text \<open>
  Beside these each plugin has keys of its own; \<^verbatim>\<open>config\<close> of a user-backed object, which may be \<^verbatim>\<open>None\<close>, and \<^verbatim>\<open>nullio\<close> of a ramdisk, which
  is only there when set, are left out.
\<close>

definition plugin_keys :: "(string \<times> (string \<times> ty) list) list" where
  "plugin_keys =
     [(''pscsi'', [(''dev'', TyStr)]),
      (''ramdisk'', [(''wwn'', TyStr), (''size'', TyInt)]),
      (''fileio'', [(''write_back'', TyBool), (''wwn'', TyStr), (''dev'', TyStr), (''size'', TyInt), (''aio'', TyBool)]),
      (''block'', [(''write_back'', TyBool), (''readonly'', TyBool), (''wwn'', TyStr), (''dev'', TyStr)]),
      (''user'', [(''wwn'', TyStr), (''size'', TyInt), (''hw_max_sectors'', TyInt), (''control'', TyStr)])]"

definition plugin_typed :: "pyval \<Rightarrow> bool" where
  "plugin_typed v = (case v of
      PDict e \<Rightarrow> (case map_of e ''plugin'' of
         Some (PStr p) \<Rightarrow> (case map_of plugin_keys p of Some fts \<Rightarrow> has_type (TyRec fts) v | None \<Rightarrow> False)
       | _ \<Rightarrow> False)
    | _ \<Rightarrow> False)"

definition fabric_type :: ty where
  "fabric_type = TyRec [(''name'', TyStr)]"

definition conf_type :: ty where
  "conf_type = TyRec [(''storage_objects'', TyList so_type), (''targets'', TyList target_type),
     (''fabric_modules'', TyList fabric_type)]"

section \<open>Dumps are typed\<close>

text \<open>The entries of a node's own dump stand in front and do not hide the others.\<close>

lemma map_of_behind: "form {''attributes'', ''parameters''} d \<Longrightarrow> k \<noteq> ''attributes'' \<Longrightarrow> k \<noteq> ''parameters'' \<Longrightarrow> map_of (d @ e) k = map_of e k"
  by (rule map_of_snoc) (auto simp: form_def map_of_eq_None_iff)

lemma yields_dict: "yields (\<lambda>d. has_type t (PDict d)) m \<Longrightarrow> yields (has_type t) (bindM m (\<lambda>d. ret (PDict d)))"
  by (rule yields_bindM_on [OF _ yields_ret])

lemma typed_list: "\<forall>v \<in> set vs. has_type t v \<Longrightarrow> has_type (TyList t) (PList vs)"
  by (simp add: list_all_iff)

lemmas typed = yields_bindM_on [OF node_dump_form] yields_bindM yields_ret

lemma LUN_dump_typed: "yields (has_type lun_type) (bindM (LUN_dump K l) (\<lambda>d. ret (PDict d)))"
  unfolding LUN_dump_def lun_type_def by (rule yields_dict, intro typed) (simp add: map_of_behind del: map_of_append)

lemma NetworkPortal_dump_typed: "yields (has_type portal_type) (bindM (NetworkPortal_dump np) (\<lambda>d. ret (PDict d)))"
  unfolding NetworkPortal_dump_def portal_type_def by (rule yields_dict, intro typed) (simp add: map_of_behind del: map_of_append)

lemma MappedLUN_dump_typed: "yields (has_type mapped_lun_type) (bindM (MappedLUN_dump K ml) (\<lambda>d. ret (PDict d)))"
  unfolding MappedLUN_dump_def mapped_lun_type_def by (rule yields_dict, intro typed) (simp add: map_of_behind del: map_of_append)

lemma NodeACL_dump_typed: "yields (has_type acl_type) (bindM (NodeACL_dump K na) (\<lambda>d. ret (PDict d)))"
  unfolding NodeACL_dump_def acl_type_def
  by (rule yields_dict, rule yields_bindM_on [OF node_dump_form], rule yields_bindM_on [OF mapped_lun_listing.collect_all [OF MappedLUN_dump_typed]],
      intro yields_bindM yields_ret) (simp add: map_of_behind list_all_iff del: map_of_append)

lemma TPG_dump_typed: "yields (has_type tpg_type) (bindM (TPG_dump K g) (\<lambda>d. ret (PDict d)))"
  unfolding TPG_dump_def tpg_type_def
  by (rule yields_dict, rule yields_bindM_on [OF node_dump_form], rule yields_bindM,
      rule yields_bindM_on [OF lun_listing.collect_all [OF LUN_dump_typed]], rule yields_bindM_on [OF portal_listing.collect_all [OF NetworkPortal_dump_typed]],
      rule yields_bindM_on [OF acl_listing.collect_all [OF NodeACL_dump_typed]], intro yields_bindM yields_ret)
    (simp add: map_of_behind list_all_iff del: map_of_append)

lemma Target_dump_typed: "yields (has_type target_type) (bindM (Target_dump K t) (\<lambda>d. ret (PDict d)))"
  unfolding Target_dump_def target_type_def
  by (rule yields_dict, rule yields_bindM_on [OF node_dump_form], rule yields_bindM_on [OF tpg_listing.collect_all [OF TPG_dump_typed]], rule yields_ret)
    (simp add: map_of_behind list_all_iff del: map_of_append)

lemma typed_append: "has_type (TyRec fts) (PDict d) \<Longrightarrow> has_type (TyRec fts) (PDict (d @ e))"
  by (induction fts) (auto simp: map_add_def split: option.splits)

lemma so_dump_typed: "yields (has_type so_type) (bindM (so_dump K so) (\<lambda>d. ret (PDict d)))"
proof -
  have alua: "yields (has_type alua_type) (bindM (Alua_dump a) (\<lambda>d. ret (PDict d)))" for a
    unfolding Alua_dump_def alua_type_def by (rule yields_dict, intro typed) (simp add: map_of_behind del: map_of_append)
  have base: "yields (\<lambda>d. has_type so_type (PDict d)) (so_base_dump K so)"
    unfolding so_base_dump_def so_type_def
    by (rule yields_bindM_on [OF node_dump_form], rule yields_bindM_on [OF alua_listing.collect_all [OF alua]], rule yields_ret)
      (simp add: map_of_behind list_all_iff del: map_of_append)
  have more: "yields (\<lambda>d. has_type so_type (PDict d)) (bindM (so_base_dump K so) f)"
    if "\<And>d. yields (\<lambda>r. \<exists>e. r = d @ e) (f d)" for f
    by (rule yields_bindM_on [OF base], rule yields_mono [OF that]) (unfold so_type_def, elim exE, hypsubst, erule typed_append)
  show ?thesis
    unfolding so_dump_def pscsi_dump_def rdmcp_dump_def fileio_dump_def block_dump_def user_dump_def
    by (rule yields_dict, cases "so_cls so") (simp_all only: so_class.case, (rule more, intro yields_bindM yields_ret, blast)+)
qed

text \<open>The keys of each plugin, for the handles that the listing gives.\<close>

lemma so_dump_plugin:
  assumes "so_located so"
  shows "yields plugin_typed (bindM (so_dump K so) (\<lambda>d. ret (PDict d)))"
proof -
  let ?B = "\<lambda>d. fst ` set d \<subseteq> {''attributes'', ''parameters'', ''name'', ''plugin'', ''alua_tpgs''} \<and> map_of d ''plugin'' = Some (PStr (so_plugin so))"
  have base: "yields ?B (so_base_dump K so)"
    unfolding so_base_dump_def
    by (rule yields_bindM_on [OF node_dump_form], rule yields_bindM, rule yields_ret) (auto simp: map_of_behind form_def simp del: map_of_append)
  have behind: "map_of (d @ e) k = map_of e k" if "?B d" "k \<notin> {''attributes'', ''parameters'', ''name'', ''plugin'', ''alua_tpgs''}" for d e k
    using that by (intro map_of_snoc) (auto simp: map_of_eq_None_iff)
  have plugin: "map_of (d @ e) ''plugin'' = Some (PStr (so_plugin so))" if "?B d" for d e using that by (simp add: map_add_def)
  have "so_plugin so = fst (bs_params (so_cls so))" using assms by (simp add: so_located_def)
  then show ?thesis
    unfolding so_dump_def pscsi_dump_def rdmcp_dump_def fileio_dump_def block_dump_def user_dump_def
    by (intro yields_bindM_on [where Q = "\<lambda>d. plugin_typed (PDict d)"] yields_ret, cases "so_cls so")
      (simp_all only: so_class.case bs_params.simps fst_conv, (rule yields_bindM_on [OF base], intro yields_bindM yields_ret,
        simp add: plugin_typed_def plugin_keys_def plugin behind del: map_of_append)+)
qed

lemma yields_conj: "yields P m \<Longrightarrow> yields Q m \<Longrightarrow> yields (\<lambda>a. P a \<and> Q a) m"
  unfolding yields_def wp_def by (simp split: prod.splits res.splits) blast

lemma collect_located:
  assumes "\<And>so. so_located so \<Longrightarrow> yields P (f so)"
  shows "yields (\<lambda>ys. \<forall>y \<in> set ys. P y) (collect (root_storage_objects K) f)"
  unfolding collect_def root_storage_objects_def
  by (rule yields_bindM_on [where Q = "\<lambda>r. \<forall>y \<in> set (ctl_val r). P y"], rule yields_seqM, rule so_all_keeps)
    (auto intro!: yields_bindM_on [OF assms] yields_ret)

lemma fm_dump_typed: "yields (\<lambda>ys. \<forall>y \<in> set ys. has_type fabric_type y) (bindM (fm_dump K fm) (\<lambda>d. ret [PDict d]))"
  unfolding fm_dump_def fabric_type_def
  by (rule yields_bindM_on [where Q = "\<lambda>d. has_type (TyRec [(''name'', TyStr)]) (PDict d)"], intro yields_seqM yields_if typed) (auto simp: map_of_behind simp del: map_of_append intro!: yields_ret)

section \<open>Merging keeps the type\<close>

abbreviation typed_conf :: "pydict \<Rightarrow> bool" where
  "typed_conf d \<equiv> has_type conf_type (PDict d)"

lemma first_such_total:
  assumes "\<forall>x \<in> set xs. \<exists>b. f x = Inr b"
  obtains i where "first_such f xs = Inr i" "\<And>n. i = Some n \<Longrightarrow> n < length xs"
proof -
  have "\<exists>i. first_such f xs = Inr i \<and> (\<forall>n. i = Some n \<longrightarrow> n < length xs)"
    using assms by (induction xs) (fastforce simp: bindE_def)+
  then show thesis using that by blast
qed

lemma typed_lists:
  assumes "typed_conf d"
  obtains xs ts where "map_of d ''storage_objects'' = Some (PList xs)" "list_all (has_type so_type) xs"
    "map_of d ''targets'' = Some (PList ts)" "list_all (has_type target_type) ts"
  using assms by (auto simp: conf_type_def split: option.splits pyval.splits)

lemma typed_set:
  assumes "typed_conf d"
  shows "list_all (has_type so_type) xs \<Longrightarrow> typed_conf (dict_set d ''storage_objects'' (PList xs))"
    and "list_all (has_type target_type) xs \<Longrightarrow> typed_conf (dict_set d ''targets'' (PList xs))"
  using assms by (simp_all add: conf_type_def)

lemma conf_path_total: "has_type so_type v \<Longrightarrow> \<exists>p. conf_path v = Inr p"
  by (auto simp: so_type_def conf_path_def subscript_def bindE_def split: pyval.splits option.splits)

lemma typed_entries:
  assumes "has_type (TyRec fts) v" and "(k, TyList t) \<in> set fts"
  obtains xs where "entries v k = Inr xs" "\<forall>x \<in> set xs. has_type t x"
proof (cases v)
  case (PDict d)
  have "list_all (\<lambda>(k, has). case map_of d k of Some u \<Rightarrow> has u | None \<Rightarrow> False) (map (map_prod id has_type) fts)"
    using assms(1) PDict by simp
  moreover have "(k, has_type (TyList t)) \<in> set (map (map_prod id has_type) fts)"
    using assms(2) by (auto simp del: has_type.simps intro!: image_eqI [where x = "(k, TyList t)"])
  ultimately have "case map_of d k of Some u \<Rightarrow> has_type (TyList t) u | None \<Rightarrow> False"
    unfolding list_all_iff by (blast dest: bspec)
  then show thesis using that PDict by (auto simp: entries_def dict_get_def list_all_iff split: option.splits pyval.splits)
qed (use assms(1) in simp_all)

lemma uses_total:
  assumes "has_type (TyRec fts) v" and "(k, TyList t) \<in> set fts" and "\<And>x. has_type t x \<Longrightarrow> \<exists>b. f x = Inr b"
  shows "\<exists>b. bindE (entries v k) (\<lambda>xs. map_sum id (\<lambda>i. i \<noteq> None) (first_such f xs)) = Inr b"
proof -
  obtain xs where xs: "entries v k = Inr xs" "\<forall>x \<in> set xs. has_type t x" by (rule typed_entries [OF assms(1,2)])
  with assms(3) have "\<forall>x \<in> set xs. \<exists>b. f x = Inr b" by blast
  from first_such_total [OF this] obtain i where "first_such f xs = Inr i" .
  with xs show ?thesis by (simp add: bindE_def)
qed

lemma target_uses_total: "has_type target_type v \<Longrightarrow> \<exists>b. target_uses obj v = Inr b"
proof -
  have lun: "\<exists>b. lun_uses obj l = Inr b" if "has_type lun_type l" for l
    using that by (auto simp: lun_type_def lun_uses_def subscript_def bindE_def split: pyval.splits option.splits)
  have tpg: "\<exists>b. tpg_uses obj g = Inr b" if "has_type tpg_type g" for g
    unfolding tpg_uses_def by (rule uses_total [OF that [unfolded tpg_type_def] _ lun]) simp
  show "has_type target_type v \<Longrightarrow> \<exists>b. target_uses obj v = Inr b"
    unfolding target_uses_def target_type_def by (erule uses_total [OF _ _ tpg]) simp
qed

lemma find_total:
  assumes "typed_conf d"
  shows "\<exists>i. find_so obj d = Inr i \<and> (\<forall>n. i = Some n \<longrightarrow> n < length (conf_list d ''storage_objects''))"
    and "\<exists>i. find_target obj d = Inr i \<and> (\<forall>n. i = Some n \<longrightarrow> n < length (conf_list d ''targets''))"
proof -
  obtain xs ts where d: "map_of d ''storage_objects'' = Some (PList xs)" "list_all (has_type so_type) xs"
    "map_of d ''targets'' = Some (PList ts)" "list_all (has_type target_type) ts" by (rule typed_lists [OF assms])
  have "\<forall>x \<in> set xs. \<exists>b. map_sum id (\<lambda>p. p = obj) (conf_path x) = Inr b"
    using d(2) conf_path_total by (fastforce simp: list_all_iff)
  from first_such_total [OF this] d(1)
  show "\<exists>i. find_so obj d = Inr i \<and> (\<forall>n. i = Some n \<longrightarrow> n < length (conf_list d ''storage_objects''))"
    by (auto simp: find_so_def entries_def dict_get_def bindE_def conf_list_def)
  have "\<forall>x \<in> set ts. \<exists>b. target_uses obj x = Inr b" using d(4) target_uses_total by (simp add: list_all_iff)
  from first_such_total [OF this] d(3)
  show "\<exists>i. find_target obj d = Inr i \<and> (\<forall>n. i = Some n \<longrightarrow> n < length (conf_list d ''targets''))"
    by (auto simp: find_target_def entries_def dict_get_def bindE_def conf_list_def)
qed

lemma insert_new_total:
  assumes "typed_conf d"
  shows "\<forall>v. cur = Some v \<longrightarrow> has_type so_type v \<Longrightarrow> \<exists>r. insert_new d ''storage_objects'' i cur = Inr r \<and> typed_conf r"
    and "\<forall>v. cur = Some v \<longrightarrow> has_type target_type v \<Longrightarrow> \<exists>r. insert_new d ''targets'' i cur = Inr r \<and> typed_conf r"
proof -
  obtain xs ts where d: "map_of d ''storage_objects'' = Some (PList xs)" "list_all (has_type so_type) xs"
    "map_of d ''targets'' = Some (PList ts)" "list_all (has_type target_type) ts" by (rule typed_lists [OF assms])
  note typed_set [OF assms]
  with d assms show "\<forall>v. cur = Some v \<longrightarrow> has_type so_type v \<Longrightarrow> \<exists>r. insert_new d ''storage_objects'' i cur = Inr r \<and> typed_conf r"
    and "\<forall>v. cur = Some v \<longrightarrow> has_type target_type v \<Longrightarrow> \<exists>r. insert_new d ''targets'' i cur = Inr r \<and> typed_conf r"
    by (auto simp: insert_new_def subscript_def bindE_def split: option.splits)
qed

lemma replace_at_typed:
  assumes "typed_conf d"
  shows "\<forall>v. cur = Some v \<longrightarrow> has_type so_type v \<Longrightarrow> typed_conf (replace_at d ''storage_objects'' i cur)"
    and "\<forall>v. cur = Some v \<longrightarrow> has_type target_type v \<Longrightarrow> typed_conf (replace_at d ''targets'' i cur)"
proof -
  obtain xs ts where d: "map_of d ''storage_objects'' = Some (PList xs)" "list_all (has_type so_type) xs"
    "map_of d ''targets'' = Some (PList ts)" "list_all (has_type target_type) ts" by (rule typed_lists [OF assms])
  have "list_all P (xs[n := v])" "list_all P (remove1 w xs)" if "list_all P xs" "P v" for P :: "pyval \<Rightarrow> bool" and xs n v w
    using that set_update_subset_insert [of xs n v] set_remove1_subset [of w xs] by (auto simp: list_all_iff)
  moreover have "list_all P (remove1 w xs)" if "list_all P xs" for P :: "pyval \<Rightarrow> bool" and xs w
    using that set_remove1_subset [of w xs] by (auto simp: list_all_iff)
  moreover note typed_set [OF assms]
  ultimately show "\<forall>v. cur = Some v \<longrightarrow> has_type so_type v \<Longrightarrow> typed_conf (replace_at d ''storage_objects'' i cur)"
    and "\<forall>v. cur = Some v \<longrightarrow> has_type target_type v \<Longrightarrow> typed_conf (replace_at d ''targets'' i cur)"
    using d assms by (auto simp: replace_at_def conf_list_def split: option.splits)
qed

lemma conf_list_typed:
  assumes "typed_conf d"
  shows "n < length (conf_list d ''storage_objects'') \<Longrightarrow> has_type so_type (conf_list d ''storage_objects'' ! n)"
    and "n < length (conf_list d ''targets'') \<Longrightarrow> has_type target_type (conf_list d ''targets'' ! n)"
proof -
  obtain xs ts where d: "map_of d ''storage_objects'' = Some (PList xs)" "list_all (has_type so_type) xs"
    "map_of d ''targets'' = Some (PList ts)" "list_all (has_type target_type) ts" by (rule typed_lists [OF assms])
  then show "n < length (conf_list d ''storage_objects'') \<Longrightarrow> has_type so_type (conf_list d ''storage_objects'' ! n)"
    and "n < length (conf_list d ''targets'') \<Longrightarrow> has_type target_type (conf_list d ''targets'' ! n)"
    by (auto simp: conf_list_def list_all_length)
qed

section \<open>Properties\<close>

text \<open>
  C16. Dumps are typed. When \<^verbatim>\<open>RTSRoot.dump\<close> returns, the dictionary has the type of a configuration: its storage objects
  have a name and a plugin, its targets a name, a fabric and portal groups, each of these a tag, LUNs with
  the path of their storage object, portals and access lists, all of them values of the right kind; and each storage object has the
  keys of its plugin, such as the WWN, the device and the size, with values of the right kind.
\<close>

theorem root_dump_typed:
  "wp (root_dump K) (\<lambda>d _. has_type conf_type (PDict d) \<and> list_all plugin_typed (conf_list d ''storage_objects'')) (\<lambda>_ _. True) w"
proof -
  have fms: "yields (\<lambda>ys. \<forall>y \<in> set ys. has_type fabric_type y)
      (if fm_has_feature f ''discovery_auth''
       then bindM (get_discovery_enable_auth K f) (\<lambda>en. if en then bindM (fm_dump K f) (\<lambda>x. ret [PDict x]) else ret [])
       else ret [])" for f
    by (auto intro!: yields_bindM yields_ret fm_dump_typed)
  have so: "yields (\<lambda>v. has_type so_type v \<and> plugin_typed v) (bindM (so_dump K so) (\<lambda>d. ret (PDict d)))" if "so_located so" for so
    by (rule yields_conj [OF so_dump_typed so_dump_plugin [OF that]])
  have "yields (\<lambda>d. has_type conf_type (PDict d) \<and> list_all plugin_typed (conf_list d ''storage_objects'')) (root_dump K)"
    unfolding root_dump_def conf_type_def
    by (rule yields_bindM_on [OF node_dump_form], rule yields_bindM_on [OF collect_located [OF so]], assumption,
        rule yields_bindM_on [OF target_listing.collect_all [OF Target_dump_typed]],
        rule yields_bindM_on [OF fabric_listing.collect_all [OF fms]], rule yields_ret)
      (auto simp: map_of_behind list_all_iff conf_list_def simp del: map_of_append)
  then show ?thesis by (simp add: yields_def)
qed

text \<open>
  C17. Merging is type-safe. For a current configuration and a saved one that both have the type of a configuration, merging one
  storage object cannot raise, whatever the path asked for, and its result has the type again.
\<close>

theorem merge_type_safe:
  assumes "has_type conf_type (PDict current)" and "has_type conf_type (PDict saveconf)"
  shows "\<exists>r. merge_saveconf obj current saveconf = Inr r \<and> has_type conf_type (PDict r)"
proof -
  obtain ci where ci: "find_so obj current = Inr ci" "\<forall>n. ci = Some n \<longrightarrow> n < length (conf_list current ''storage_objects'')"
    using find_total(1) [OF assms(1)] by blast
  obtain ct where ct: "(if ci = None then Inr None else find_target obj current) = Inr ct" "\<forall>n. ct = Some n \<longrightarrow> n < length (conf_list current ''targets'')"
    using find_total(2) [OF assms(1), of obj] by (cases "ci = None") auto
  let ?so = "map_option (\<lambda>i. conf_list current ''storage_objects'' ! i) ci" and ?tg = "map_option (\<lambda>i. conf_list current ''targets'' ! i) ct"
  have so: "\<forall>v. ?so = Some v \<longrightarrow> has_type so_type v" and tg: "\<forall>v. ?tg = Some v \<longrightarrow> has_type target_type v"
    using ci(2) ct(2) conf_list_typed [OF assms(1)] by auto
  obtain si where si: "find_so obj saveconf = Inr si" using find_total(1) [OF assms(2)] by blast
  let ?s1 = "replace_at saveconf ''storage_objects'' si ?so"
  have s1: "typed_conf ?s1" by (rule replace_at_typed(1) [OF assms(2) so])
  obtain st where st: "(if si = None then Inr None else find_target obj ?s1) = Inr st"
    using find_total(2) [OF s1, of obj] by (cases "si = None") auto
  obtain s3 where s3: "insert_new (replace_at ?s1 ''targets'' st ?tg) ''storage_objects'' si ?so = Inr s3" "typed_conf s3"
    using insert_new_total(1) [OF replace_at_typed(2) [OF s1 tg] so] by blast
  obtain r where "insert_new s3 ''targets'' st ?tg = Inr r" "typed_conf r" using insert_new_total(2) [OF s3(2) tg] by blast
  with ci(1) ct(1) si st s3(1) show ?thesis by (simp add: merge_saveconf_def bindE_Inr Let_def)
qed

definition demo_typed :: "string list \<Rightarrow> pydict" where
  "demo_typed names =
     [(''storage_objects'', PList (map (\<lambda>n. PDict [(''name'', PStr n), (''plugin'', PStr ''fileio''), (''alua_tpgs'', PList [])]) names)),
      (''targets'', PList (map (\<lambda>n. PDict [(''wwn'', PStr (''iqn.'' @ n)), (''fabric'', PStr ''iscsi''), (''tpgs'', PList [PDict
         [(''tag'', PInt 1), (''enable'', PBool True), (''luns'', PList [PDict [(''index'', PInt 0),
            (''storage_object'', PStr (''/backstores/fileio/'' @ n)), (''alias'', PStr n)]]), (''portals'', PList []), (''node_acls'', PList [])]])]) names)),
      (''fabric_modules'', PList [])]"

theorem merge_type_safe_witness:
  "\<exists>r. merge_saveconf ''/backstores/fileio/a'' (demo_typed [''a'', ''b'']) (demo_typed [''b'']) = Inr r \<and> has_type conf_type (PDict r)"
proof (rule merge_type_safe)
  show "has_type conf_type (PDict (demo_typed [''a'', ''b'']))" by code_simp
  show "has_type conf_type (PDict (demo_typed [''b'']))" by code_simp
qed

end
