(* ===== verification/Spec2Isabelle.thy ===== *)
theory Spec2Isabelle
  imports Identity Sysfs Targetctl LioFormat Schema
begin

text \<open>
  A verification of \<^verbatim>\<open>rtslib-fb\<close>, the Python library that configures the Linux SCSI target (LIO).

  \<^bold>\<open>The program.\<close> LIO is configured through \<^verbatim>\<open>configfs\<close>: making a directory creates a kernel object, a symbolic link attaches
  one object to another, and attribute files hold the settings. \<^verbatim>\<open>rtslib\<close> wraps the tree in objects. \<^verbatim>\<open>node.py\<close> is
  the base class of all of them; \<^verbatim>\<open>tcm.py\<close> has the storage objects, each in an adapter directory with an index of its
  own; \<^verbatim>\<open>alua.py\<close> the ALUA groups of a storage object; \<^verbatim>\<open>fabric.py\<close> the transports; \<^verbatim>\<open>target.py\<close> targets, portal groups,
  LUNs, portals, access lists and groups of these; \<^verbatim>\<open>root.py\<close> the whole, with saving to and restoring from a JSON
  file; \<^verbatim>\<open>utils.py\<close> what they share. The script \<^verbatim>\<open>targetctl\<close> saves, restores and clears from the command line, and
  \<^verbatim>\<open>convert-to-json\<close> reads the format before JSON.

  \<^bold>\<open>State and environment.\<close> Every method is a function of the record \<open>world\<close>: the file system \<open>fs\<close>, the module variable \<open>bs_cache\<close> of
  \<^verbatim>\<open>tcm.py\<close>, the number of UUIDs drawn, the list of errors a restore collects, the files outside configfs and the
  file mode mask. A method returns a value or an exception, and keeps the state it has reached in both cases.
  Python's generators are folds, so that a loop that changes the tree it is listing is modelled as it runs: a listing
  reads a directory when it is entered. What lies outside the repository (the kernel's answer to \<^verbatim>\<open>mkdir\<close>, \<^verbatim>\<open>rmdir\<close>, \<^verbatim>\<open>write\<close>,
  \<^verbatim>\<open>symlink\<close> and \<^verbatim>\<open>unlink\<close>, \<^verbatim>\<open>pyudev\<close>, \<^verbatim>\<open>kmod\<close>, the shell, UUIDs, faults of the disk) is the argument \<open>K\<close> of type \<open>env\<close>. The locale
  \<open>configfs\<close> states what the proofs rely on of the kernel: an operation that succeeds has its documented effect on
  the shape of the tree, and one that fails has none. \<open>Kernel\<close> interprets it with \<open>lio\<close>, a concrete kernel with LIO's
  default groups, on which the witnesses run.

  \<^bold>\<open>Theories.\<close>
  \<^item> \<open>Prelude\<close>, \<open>PyStr\<close>, \<open>ConfigFS\<close>, \<open>Kernel\<close>: Python values, dictionaries and exceptions; the monad with its weakest preconditions; the
    locales \<open>step_rel\<close> (a relation every run respects, for frame conditions) and \<open>slot_allocator\<close> (least free index, interpreted
    for adapter indexes, portal group tags and LUNs); strings and numbers; the file system; the concrete kernel.
  \<^item> \<open>Utils\<close>, \<open>Wwn\<close>, \<open>Udev\<close> (\<^verbatim>\<open>utils.py\<close>): attribute files and dictionaries, world wide names, block devices. Names generated are
    normal, the accepted notations of the hexadecimal names and their normal forms are characterised, sizes are exact.
  \<^item> \<open>Node\<close> (\<^verbatim>\<open>node.py\<close>): what each creation mode guarantees, reading and writing of attributes and parameters, dumps.
  \<^item> \<open>Fabric\<close>, \<open>Sysfs\<close> (\<^verbatim>\<open>fabric.py\<close>): the fabric classes, with the locale \<open>wwn_codec\<close> for the encodings of names into directory
    names, and the scans of \<^verbatim>\<open>/sys\<close> for hardware ports over a tree with links.
  \<^item> \<open>Backstore\<close>, \<open>IndexRuns\<close>, \<open>Tcm\<close>, \<open>Alua\<close> (\<^verbatim>\<open>tcm.py\<close>, \<^verbatim>\<open>alua.py\<close>): indexes are least, and unique in every state a process can reach as long as the cache is filled from trees with unique
    indexes; creation of a storage object rolls back when it
    fails; deletion removes everything; what is dumped can be given to the constructor again.
  \<^item> \<open>Coherence\<close>, \<open>ObjectRuns\<close>, \<open>Identity\<close> (\<^verbatim>\<open>tcm.py\<close>): the tree and the index cache together. Runs that create, look up and delete storage objects by
    name show the same calls and outcomes as runs of a set of objects with an index and a name of their own (\<open>so_event\<close>, \<open>pool_event\<close>, the locale
    \<open>simulation\<close>), and the cache agrees with the tree throughout. The locales \<open>lio_core\<close> and \<open>lio_modules\<close> extend \<open>configfs\<close> with what this needs of the kernel: a new adapter has no objects, and
    mounting configfs or loading a module leaves an existing core tree alone. A lookup with a wrong explicit index is shown to break the agreement.
    \<open>Identity\<close> has the comparisons and printed forms of all classes: the equality of storage objects is the identity of their directories.
  \<^item> \<open>Target\<close>, \<open>TargetSetup\<close>, \<open>AclGroups\<close> (\<^verbatim>\<open>target.py\<close>): deletion removes a whole subtree and nothing else; restoring one target leaves the
    others alone; a restored LUN is linked to the directory of the saved plugin and name; joining a group of access lists.
  \<^item> \<open>Root\<close>, \<open>Json\<close>, \<open>Save\<close>, \<open>Dumps\<close>, \<open>Schema\<close> (\<^verbatim>\<open>root.py\<close>): listing, dumping, clearing and restoring; the printer and parser of Python's
    \<^verbatim>\<open>json\<close>, inverse to each other; saving through a temporary file, crash-safe and private; merging one object into a saved
    configuration, a refinement of the update of a map; the form and the type of every dump.
  \<^item> \<open>Targetctl\<close>, \<open>Convert\<close>, \<open>LioFormat\<close> (\<^verbatim>\<open>scripts\<close>): the two commands. \<open>LioFormat\<close> gives the old format as a grammar with a meaning, and the locale
    \<open>block_items\<close>, interpreted for each loop of the converter, shows that the parsers compute the meaning, but for the first line of each portal group in braces, which they lose.

  This theory joins them: what a save of the whole tree writes is what a later load gives back.

  \<^bold>\<open>Bounds and fuel.\<close> The allocators search a range with the bounds of the source (65536 LUNs, 1048576 adapters and tags). The JSON parser has
  fuel, twice the length of its input plus two, which is shown to be enough for every text the printer gives. The
  descent of a recursive wildcard is bounded by the number of entries of the tree, and following links by the 40 of
  the kernel. The loops of the converter have no bound: they are partial functions, and that they end on a file, or that they do
  not, is proved.

  \<^bold>\<open>Not modelled.\<close> Property declarations, and accessors that return a field, add no behaviour to the records; \<^verbatim>\<open>__init__.py\<close> only re-exports. JSON numbers with a fraction
  and characters beyond Latin-1 are reported as errors by the parser of the model. The limits Python has on the depth of
  recursion and on the digits of an integer are not modelled, and neither is a write that fails after a part of its
  text has reached the file. Text is that of Latin-1: \<^verbatim>\<open>strip\<close> and \<^verbatim>\<open>lower\<close> know the white space and the letters of ASCII, and reading a file does not
  translate line ends. Floating point numbers, which only the size of a ramdisk and the sizes of the old format pass through, are exact fractions. A number in the
  place of a device path, which Python takes as a file descriptor, is refused like any other value that is no string. Where versions of Python
  differ, it is 3.11 or later: wildcards that end in a slash give directories only, and \<^verbatim>\<open>with\<close> raises \<^verbatim>\<open>TypeError\<close> on an object that is no context manager. Of
  \<^verbatim>\<open>convert-to-json\<close>, \<open>convert_text\<close> is the body of the \<^verbatim>\<open>with\<close> as it would run if the file were opened; \<open>convert_main\<close> is the script as it is. Packaging, service units and manuals have no code of the library.
\<close>

section \<open>From the tree to the file and back\<close>

text \<open>
  C5. A saved configuration loads back. When \<^verbatim>\<open>save_to_file\<close> of the whole configuration returns, the save file holds, synchronised and with mode
  0600, a text from which \<^verbatim>\<open>json.loads\<close> gives exactly the dictionary that \<^verbatim>\<open>dump\<close> gave, with its keys in order, and the
  process's file mode mask is the one it had after the dump.
\<close>

theorem save_dump_loads_back:
  "wp (save_to_file K file '''')
     (\<lambda>_ w'. \<exists>d w1 f. root_dump K w = (Ok d, w1) \<and> cur_umask w' = cur_umask w1 \<and>
        map_of (disk_files w') (comps (if file = [] then default_save_file else file)) = Some f \<and> df_mode f = 384 \<and>
        df_durable f = df_content f \<and> json_loads (df_content f) = Inr (sort_keys (PDict d)))
     (\<lambda>_ _. True) w"
proof (cases "root_dump K w")
  case (Pair r w1)
  show ?thesis
  proof (cases r)
    case (Ok d)
    with Pair have run: "root_dump K w = (Ok d, w1)" by simp
    from wpD [OF wp_yields [OF root_dump_once] this] have "dict_keys_once (PDict d)" .
    from write_loads_back [OF this, of K "comps (if file = [] then default_save_file else file)" w1] show ?thesis
      unfolding save_to_file_def Let_def wp_bindM wp_def [of "if _ then _ else _"] using run by (simp add: wp_def split: prod.splits res.splits)
  next
    case (Err e)
    with Pair show ?thesis by (simp add: save_to_file_def wp_def bindM_def Let_def)
  qed
qed

end
